theory Spec2Isabelle
  imports Complex_Main
begin

section \<open>JavaScript values of a request body\<close>

text \<open>
  A JavaScript number is a finite value, \<open>NaN\<close> or one of the two infinities. The finite
  values are written as rationals: every finite double is one, and the handlers do no
  arithmetic on them, so the model quantifies over a superset of the doubles.
\<close>

datatype jsnum = Fin rat | NaN | PosInf | NegInf

text \<open>\<open>Number.isFinite\<close> on a value that is already a number.\<close>

fun isFinite :: "jsnum \<Rightarrow> bool" where
  "isFinite (Fin q) = True"
| "isFinite NaN = False"
| "isFinite PosInf = False"
| "isFinite NegInf = False"

text \<open>
  What \<open>express.json()\<close> hands to a handler: a parsed JSON value, or \<open>undefined\<close>
  when there is no body or no such property. A string is a list of characters with code
  points up to U+00FF; an object is the list of its own properties.
\<close>

datatype jsval =
    JUndefined
  | JNull
  | JBool bool
  | JNumber jsnum
  | JString string
  | JArray "jsval list"
  | JObject "(string \<times> jsval) list"

text \<open>
  The optional-chaining read \<open>v?.k\<close>, for the two keys the handlers read
  (\<open>account_id\<close> and \<open>introducer_id\<close>): only a JSON object can carry them; on
  \<open>undefined\<close>, \<open>null\<close>, a primitive or an array the read gives \<open>undefined\<close>.
\<close>

fun field :: "jsval \<Rightarrow> string \<Rightarrow> jsval" where
  "field (JObject kvs) k = (case map_of kvs k of None \<Rightarrow> JUndefined | Some v \<Rightarrow> v)"
| "field JUndefined k = JUndefined"
| "field JNull k = JUndefined"
| "field (JBool b) k = JUndefined"
| "field (JNumber n) k = JUndefined"
| "field (JString s) k = JUndefined"
| "field (JArray xs) k = JUndefined"

section \<open>Text to number\<close>

text \<open>
  The language turns the text of a numeric literal into the double nearest to the value
  the literal denotes, ties going to the even significand, and into an infinity when
  that double would need an exponent beyond 1023. \<open>pow2 e\<close> is the power of two with
  an exponent of either sign.
\<close>

definition pow2 :: "int \<Rightarrow> rat" where
  "pow2 e = (if 0 \<le> e then 2 ^ nat e else 1 / 2 ^ nat (- e))"

text \<open>The number of binary digits of a positive integer.\<close>

function bit_length :: "int \<Rightarrow> int" where
  "bit_length n = (if n \<le> 0 then 0 else 1 + bit_length (n div 2))"
  by pat_completeness auto

termination bit_length
  by (relation "measure nat") auto

declare bit_length.simps [simp del]

text \<open>
  For a positive rational \<open>q\<close>, the exponent \<open>e\<close> with \<open>2^e \<le> q < 2^(e+1)\<close>.
\<close>

definition floor_log2 :: "rat \<Rightarrow> int" where
  "floor_log2 q =
     (if 1 \<le> q then bit_length \<lfloor>q\<rfloor> - 1 else - bit_length (\<lceil>1 / q\<rceil> - 1))"

text \<open>The nearest integer, a tie going to the even one.\<close>

definition round_half_even :: "rat \<Rightarrow> int" where
  "round_half_even q =
     (let f = \<lfloor>q\<rfloor>; r = q - of_int f in
      if r < 1 / 2 then f else if 1 / 2 < r then f + 1 else if even f then f else f + 1)"

text \<open>
  Rounding to a double. The step between neighbouring doubles around \<open>q\<close> is
  \<open>2^(e-52)\<close>, where \<open>e\<close> is the exponent of \<open>q\<close> and at least \<open>-1022\<close> (the
  subnormal numbers share the step of the smallest normal ones); \<open>q\<close> is rounded to a
  multiple of the step. Zero has one sign only here: \<open>-0\<close> prints as \<open>0\<close> on every
  path of the handlers.
\<close>

definition round_double :: "rat \<Rightarrow> jsnum" where
  "round_double q =
     (if q = 0 then Fin 0
      else
        (let ulp = pow2 (max (floor_log2 \<bar>q\<bar>) (- 1022) - 52);
             r = of_int (round_half_even (q / ulp)) * ulp in
         if 1024 \<le> floor_log2 \<bar>r\<bar> then (if 0 < q then PosInf else NegInf) else Fin r))"

text \<open>
  The white space that is stripped from both ends of the text: TAB, LF, VT, FF, CR,
  SP and NBSP are the characters of \<open>WhiteSpace\<close> and \<open>LineTerminator\<close> up to U+00FF.
\<close>

definition StrWhiteSpaceChar :: "char \<Rightarrow> bool" where
  "StrWhiteSpaceChar ch = (of_char ch \<in> set [9, 10, 11, 12, 13, 32, 160 :: nat])"

definition trim :: "string \<Rightarrow> string" where
  "trim s = rev (dropWhile StrWhiteSpaceChar (rev (dropWhile StrWhiteSpaceChar s)))"

text \<open>
  The value of a digit, decimal or hexadecimal in either case; 16 for a character that
  is no digit.
\<close>

definition digit_value :: "char \<Rightarrow> nat" where
  "digit_value ch =
     (let n = of_char ch :: nat in
      if 48 \<le> n \<and> n \<le> 57 then n - 48
      else if 97 \<le> n \<and> n \<le> 102 then n - 87
      else if 65 \<le> n \<and> n \<le> 70 then n - 55
      else 16)"

definition is_digit :: "nat \<Rightarrow> char \<Rightarrow> bool" where
  "is_digit radix ch = (digit_value ch < radix)"

definition digits_value :: "nat \<Rightarrow> string \<Rightarrow> int" where
  "digits_value radix ds = foldl (\<lambda>acc ch. acc * int radix + int (digit_value ch)) 0 ds"

text \<open>
  The exponent after \<open>e\<close> or \<open>E\<close>: an optional sign and at least one decimal digit,
  up to the end of the text.
\<close>

definition SignedInteger :: "string \<Rightarrow> int option" where
  "SignedInteger s =
     (let (neg, ds) =
            (case s of
               [] \<Rightarrow> (False, [])
             | ch # t \<Rightarrow>
                 if ch = CHR ''-'' then (True, t)
                 else if ch = CHR ''+'' then (False, t) else (False, s)) in
      if ds \<noteq> [] \<and> list_all (is_digit 10) ds then
        Some (if neg then - digits_value 10 ds else digits_value 10 ds)
      else None)"

definition scale10 :: "rat \<Rightarrow> int \<Rightarrow> rat" where
  "scale10 m e = (if 0 \<le> e then m * 10 ^ nat e else m / 10 ^ nat (- e))"

text \<open>
  \<open>StrUnsignedDecimalLiteral\<close> apart from \<open>Infinity\<close>: digits, optionally a point and
  further digits, optionally an exponent; at least one digit before or after the point.
  The result is the value the literal denotes, or nothing when the text is no such
  literal.
\<close>

definition StrUnsignedDecimalLiteral :: "string \<Rightarrow> rat option" where
  "StrUnsignedDecimalLiteral s =
     (let ip = takeWhile (is_digit 10) s;
          r1 = dropWhile (is_digit 10) s;
          (fp, r2) =
            (case r1 of
               [] \<Rightarrow> ([], [])
             | ch # t \<Rightarrow>
                 if ch = CHR ''.'' then (takeWhile (is_digit 10) t, dropWhile (is_digit 10) t)
                 else ([], r1));
          m = of_int (digits_value 10 ip) + of_int (digits_value 10 fp) / 10 ^ length fp in
      if ip = [] \<and> fp = [] then None
      else
        (case r2 of
           [] \<Rightarrow> Some m
         | ch # t \<Rightarrow>
             if ch = CHR ''e'' \<or> ch = CHR ''E'' then map_option (scale10 m) (SignedInteger t)
             else None))"

text \<open>
  \<open>NonDecimalIntegerLiteral\<close>: \<open>0x\<close>, \<open>0o\<close> or \<open>0b\<close> in either case and at least
  one digit of that radix; it takes no sign.
\<close>

definition NonDecimalIntegerLiteral :: "string \<Rightarrow> rat option" where
  "NonDecimalIntegerLiteral s =
     (case s of
        z # p # ds \<Rightarrow>
          (let radix =
                 (if p = CHR ''x'' \<or> p = CHR ''X'' then 16
                  else if p = CHR ''o'' \<or> p = CHR ''O'' then 8
                  else if p = CHR ''b'' \<or> p = CHR ''B'' then 2 else 0 :: nat) in
           if z = CHR ''0'' \<and> radix \<noteq> 0 \<and> ds \<noteq> [] \<and> list_all (is_digit radix) ds then
             Some (of_int (digits_value radix ds))
           else None)
      | _ \<Rightarrow> None)"

text \<open>
  \<open>StringToNumber\<close>: the empty text and text of white space only give 0; text that is
  no numeric literal gives \<open>NaN\<close>.
\<close>

definition StringToNumber :: "string \<Rightarrow> jsnum" where
  "StringToNumber str =
     (let s = trim str in
      if s = [] then Fin 0
      else
        (case NonDecimalIntegerLiteral s of
           Some v \<Rightarrow> round_double v
         | None \<Rightarrow>
             (let (neg, u) =
                    (case s of
                       [] \<Rightarrow> (False, [])
                     | ch # t \<Rightarrow>
                         if ch = CHR ''-'' then (True, t)
                         else if ch = CHR ''+'' then (False, t) else (False, s)) in
              if u = ''Infinity'' then (if neg then NegInf else PosInf)
              else
                (case StrUnsignedDecimalLiteral u of
                   None \<Rightarrow> NaN
                 | Some v \<Rightarrow> round_double (if neg then - v else v)))))"

section \<open>The conversion Number(v)\<close>

text \<open>
  An object or an array is first converted to a primitive: the runtime calls its
  \<open>valueOf\<close>, which for values parsed from JSON never gives a primitive, and then its
  \<open>toString\<close>. A parsed object that has a property of its own named \<open>toString\<close>
  has no callable \<open>toString\<close> any more, since no JSON value is a function: the
  conversion throws a \<open>TypeError\<close>. An array joins the texts of its elements, so it
  throws when one of them does.
\<close>

fun unconvertible :: "jsval \<Rightarrow> bool" where
  "unconvertible (JObject kvs) = (''toString'' \<in> set (map fst kvs))"
| "unconvertible (JArray vs) = list_ex unconvertible vs"
| "unconvertible JUndefined = False"
| "unconvertible JNull = False"
| "unconvertible (JBool b) = False"
| "unconvertible (JNumber n) = False"
| "unconvertible (JString s) = False"

text \<open>
  The number an array converts to when the conversion does not throw. The text of an
  array is the texts of its elements with commas between them, \<open>null\<close> and
  \<open>undefined\<close> giving the empty text: no element gives the empty text and so 0; two
  or more elements give text with a comma, which is no numeric literal. The text of one
  element is \<open>true\<close>, \<open>false\<close> or \<open>[object Object]\<close>, none of them a numeric
  literal, or the string itself, or the text of the inner array, or the text a number
  prints as, which reads back as that number.
\<close>

fun array_number :: "jsval list \<Rightarrow> jsnum" where
  "array_number [] = Fin 0"
| "array_number [JUndefined] = Fin 0"
| "array_number [JNull] = Fin 0"
| "array_number [JBool b] = NaN"
| "array_number [JNumber n] = n"
| "array_number [JString s] = StringToNumber s"
| "array_number [JObject kvs] = NaN"
| "array_number [JArray ws] = array_number ws"
| "array_number (v # w # vs) = NaN"

section \<open>Error objects\<close>

text \<open>
  The text of an error message. A message of the database server quotes the literal it
  was sent; the literal is the driver's rendering of a JavaScript number and is kept as
  the number itself (\<open>Num\<close>) between the fixed parts (\<open>Str\<close>).
\<close>

datatype piece = Str string | Num jsnum

type_synonym msg = "piece list"

text \<open>The text is the empty string, which is what \<open>err.message || ...\<close> tests.\<close>

fun blank :: "msg \<Rightarrow> bool" where
  "blank [] = True"
| "blank (Str s # m) = (s = [] \<and> blank m)"
| "blank (Num n # m) = False"

text \<open>
  What can be thrown: an \<open>Error\<close> thrown by the handler itself and a \<open>TypeError\<close>
  of the runtime, which have a message and no \<open>code\<close>, or an error of the database
  driver, which has the server's SQLSTATE as \<open>code\<close> and the server's text as
  \<open>message\<close>.
\<close>

datatype exn = Error msg | TypeError msg | DatabaseError string msg

fun code :: "exn \<Rightarrow> string option" where
  "code (Error m) = None"
| "code (TypeError m) = None"
| "code (DatabaseError c m) = Some c"

fun message :: "exn \<Rightarrow> msg" where
  "message (Error m) = m"
| "message (TypeError m) = m"
| "message (DatabaseError c m) = m"

text \<open>
  \<open>Number(v)\<close>: the language fixes the result on \<open>undefined\<close>, \<open>null\<close>, booleans
  and numbers; a string is read by \<open>StringToNumber\<close>; an object or an array throws
  when it cannot be converted to a primitive, and otherwise an object gives \<open>NaN\<close>
  (its text is \<open>[object Object]\<close>) and an array the number of its text.
\<close>

fun Number :: "jsval \<Rightarrow> exn + jsnum" where
  "Number JUndefined = Inr NaN"
| "Number JNull = Inr (Fin 0)"
| "Number (JBool b) = Inr (Fin (if b then 1 else 0))"
| "Number (JNumber n) = Inr n"
| "Number (JString s) = Inr (StringToNumber s)"
| "Number (JArray vs) =
     (if unconvertible (JArray vs) then
        Inl (TypeError [Str ''Cannot convert object to primitive value''])
      else Inr (array_number vs))"
| "Number (JObject kvs) =
     (if unconvertible (JObject kvs) then
        Inl (TypeError [Str ''Cannot convert object to primitive value''])
      else Inr NaN)"

section \<open>The accounts table\<close>

text \<open>
  \<open>CREATE TABLE accounts (id SERIAL PRIMARY KEY, introducer_id INTEGER,
  beneficiary_id INTEGER)\<close>: one row per account, the two other columns nullable.
  A row holds integers of any size here; the 32-bit range of the columns is checked where
  a number is sent to the server (\<open>int4_in\<close>). The ledgers the theorems speak about are
  thus a superset of the tables the server can hold, and the primary key is what
  \<open>pg_insert\<close> enforces, not an assumption on the list.
\<close>

record account =
  id_col :: int
  introducer_id :: "int option"
  beneficiary_id :: "int option"

text \<open>
  A query parameter bound to an \<open>INTEGER\<close> column. The driver sends a number as its
  decimal text and the server parses the text as a 32-bit integer: text with a fraction
  or an exponent (numbers print with an exponent from \<open>10^21\<close> on) is rejected as
  invalid syntax (SQLSTATE 22P02), an integer outside the 32-bit range as out of range
  (SQLSTATE 22003).
\<close>

definition int4_in :: "jsnum \<Rightarrow> exn + int" where
  \<open>int4_in x =
     (case x of
        Fin q \<Rightarrow>
          if q = of_int \<lfloor>q\<rfloor> \<and> \<bar>q\<bar> < 10 ^ 21 then
            if - 2147483648 \<le> \<lfloor>q\<rfloor> \<and> \<lfloor>q\<rfloor> \<le> 2147483647 then Inr \<lfloor>q\<rfloor>
            else Inl (DatabaseError ''22003''
                   [Str ''value "'', Num x, Str ''" is out of range for type integer''])
          else Inl (DatabaseError ''22P02''
                 [Str ''invalid input syntax for type integer: "'', Num x, Str ''"''])
      | _ \<Rightarrow> Inl (DatabaseError ''22P02''
                 [Str ''invalid input syntax for type integer: "'', Num x, Str ''"'']))\<close>

text \<open>A number read back from an \<open>INTEGER\<close> column.\<close>

definition of_int4 :: "int \<Rightarrow> jsnum" where
  "of_int4 n = Fin (of_int n)"

text \<open>
  \<open>INSERT INTO accounts (id, introducer_id, beneficiary_id) VALUES ($1, $2, NULL)\<close>.
  The parameters are parsed first, in order; the primary key then refuses an \<open>id\<close>
  that a row already has (SQLSTATE 23505).
\<close>

definition pg_insert :: "jsnum \<Rightarrow> jsnum \<Rightarrow> account list \<Rightarrow> exn + account list" where
  \<open>pg_insert p1 p2 rs =
     (case int4_in p1 of
        Inl e \<Rightarrow> Inl e
      | Inr a \<Rightarrow>
          (case int4_in p2 of
             Inl e \<Rightarrow> Inl e
           | Inr i \<Rightarrow>
               if a \<in> set (map id_col rs) then
                 Inl (DatabaseError ''23505''
                        [Str ''duplicate key value violates unique constraint "accounts_pkey"''])
               else Inr (rs @ [\<lparr>id_col = a, introducer_id = Some i, beneficiary_id = None\<rparr>])))\<close>

text \<open>
  \<open>SELECT COUNT(*)::int AS cnt FROM accounts WHERE introducer_id = $1\<close>: always one
  row, holding the count, which is never negative (so that \<open>%\<close> is \<open>mod\<close> on it).
\<close>

definition pg_count :: "jsnum \<Rightarrow> account list \<Rightarrow> exn + nat list" where
  "pg_count p1 rs =
     (case int4_in p1 of
        Inl e \<Rightarrow> Inl e
      | Inr i \<Rightarrow> Inr [length (filter (\<lambda>r. introducer_id r = Some i) rs)])"

text \<open>\<open>SELECT introducer_id FROM accounts WHERE id = $1\<close>.\<close>

definition pg_select_introducer_id :: "jsnum \<Rightarrow> account list \<Rightarrow> exn + int option list" where
  "pg_select_introducer_id p1 rs =
     (case int4_in p1 of
        Inl e \<Rightarrow> Inl e
      | Inr x \<Rightarrow> Inr (map introducer_id (filter (\<lambda>r. id_col r = x) rs)))"

text \<open>\<open>SELECT beneficiary_id FROM accounts WHERE id = $1\<close>.\<close>

definition pg_select_beneficiary_id :: "jsnum \<Rightarrow> account list \<Rightarrow> exn + int option list" where
  "pg_select_beneficiary_id p1 rs =
     (case int4_in p1 of
        Inl e \<Rightarrow> Inl e
      | Inr x \<Rightarrow> Inr (map beneficiary_id (filter (\<lambda>r. id_col r = x) rs)))"

text \<open>
  \<open>UPDATE accounts SET beneficiary_id = $1 WHERE id = $2\<close>; \<open>$1\<close> is a number or
  \<open>null\<close>.
\<close>

definition pg_update :: "jsnum option \<Rightarrow> jsnum \<Rightarrow> account list \<Rightarrow> exn + account list" where
  "pg_update p1 p2 rs =
     (case (case p1 of None \<Rightarrow> Inr None | Some n \<Rightarrow> map_sum (\<lambda>e. e) Some (int4_in n)) of
        Inl e \<Rightarrow> Inl e
      | Inr b \<Rightarrow>
          (case int4_in p2 of
             Inl e \<Rightarrow> Inl e
           | Inr a \<Rightarrow> Inr (map (\<lambda>r. if id_col r = a then r\<lparr>beneficiary_id := b\<rparr> else r) rs)))"

section \<open>Queries as steps that may throw\<close>

text \<open>The statements a handler sends, with their parameters as it passes them.\<close>

datatype stmt =
    BEGIN
  | COMMIT
  | ROLLBACK
  | INSERT jsnum jsnum
  | SELECT_COUNT jsnum
  | SELECT_introducer_id jsnum
  | SELECT_beneficiary_id jsnum
  | UPDATE "jsnum option" jsnum

text \<open>
  The store as a handler sees it: the rows of \<open>accounts\<close> and, for the record, every
  statement sent so far.
\<close>

record db =
  accounts :: "account list"
  issued :: "stmt list"

text \<open>
  An awaited step either returns a value or throws, and leaves a store behind in both
  cases. \<open>bind_io\<close> is the sequencing of two awaited steps inside one \<open>try\<close>: the
  second runs only when the first returned.
\<close>

type_synonym 'a io = "db \<Rightarrow> (exn + 'a) \<times> db"

definition return_io :: "'a \<Rightarrow> 'a io" where
  "return_io x = (\<lambda>d. (Inr x, d))"

definition throw_io :: "exn \<Rightarrow> 'a io" where
  "throw_io e = (\<lambda>d. (Inl e, d))"

definition bind_io :: "'a io \<Rightarrow> ('a \<Rightarrow> 'b io) \<Rightarrow> 'b io" where
  "bind_io m f = (\<lambda>d. case m d of (Inl e, d') \<Rightarrow> (Inl e, d') | (Inr x, d') \<Rightarrow> f x d')"

text \<open>\<open>pool.query\<close> / \<open>client.query\<close> with a statement that reads.\<close>

definition query_read :: "stmt \<Rightarrow> (account list \<Rightarrow> exn + 'a) \<Rightarrow> 'a io" where
  "query_read s f = (\<lambda>d. (f (accounts d), d\<lparr>issued := issued d @ [s]\<rparr>))"

text \<open>The same with a statement that writes: a statement that fails writes nothing.\<close>

definition query_write :: "stmt \<Rightarrow> (account list \<Rightarrow> exn + account list) \<Rightarrow> unit io" where
  "query_write s f =
     (\<lambda>d. case f (accounts d) of
            Inl e \<Rightarrow> (Inl e, d\<lparr>issued := issued d @ [s]\<rparr>)
          | Inr rs \<Rightarrow> (Inr (), d\<lparr>accounts := rs, issued := issued d @ [s]\<rparr>))"

section \<open>Responses\<close>

text \<open>One \<open>{id, introducer_id, beneficiary_id}\<close> object of a response.\<close>

datatype created = Created jsnum jsnum "jsnum option"

text \<open>
  The JSON body of a response: \<open>{error}\<close>, the single created account (beside the
  constant \<open>message\<close>), or \<open>{message, results}\<close>.
\<close>

datatype body = ErrorBody msg | AccountBody created | ResultsBody "created list"

text \<open>
  How a call of a handler ends: with a response of a status and a body, or with the
  exception that leaves the handler when a step outside its \<open>try\<close> throws. The
  handler has then sent no response; what the framework does with the exception is not
  code of this repository.
\<close>

datatype outcome = Response nat body | Rejects exn

section \<open>POST /addAccount\<close>

text \<open>
  The handler: the two conversions, the validation, then the \<open>try\<close> (insert with a
  null beneficiary, count the introducer's referrals, choose the beneficiary, write it
  back) and the \<open>catch\<close>. The conversions stand before the \<open>try\<close>: when one of
  them throws, the exception leaves the handler. Nothing is undone when a step throws.
  The JavaScript variable \<open>introducer_id\<close> is written \<open>introducer\<close> here; the
  response's constant \<open>message\<close> is left out.
\<close>

definition addAccount :: "jsval \<Rightarrow> db \<Rightarrow> outcome \<times> db" where
  "addAccount req_body d =
     (case Number (field req_body ''account_id'') of
        Inl err \<Rightarrow> (Rejects err, d)
      | Inr account_id \<Rightarrow>
     (case Number (field req_body ''introducer_id'') of
        Inl err \<Rightarrow> (Rejects err, d)
      | Inr introducer \<Rightarrow>
      if \<not> isFinite account_id \<or> \<not> isFinite introducer then
        (Response 400 (ErrorBody [Str ''account_id and introducer_id must be numbers'']), d)
      else
        (case
           bind_io (query_write (INSERT account_id introducer)
                      (pg_insert account_id introducer)) (\<lambda>_.
           bind_io (query_read (SELECT_COUNT introducer) (pg_count introducer)) (\<lambda>cntRows.
             let referralCount = (case cntRows of [] \<Rightarrow> 1 | cnt # _ \<Rightarrow> cnt) in
             bind_io
               (if referralCount mod 2 = 1 then return_io (Some introducer)
                else
                  bind_io (query_read (SELECT_introducer_id introducer)
                             (pg_select_introducer_id introducer)) (\<lambda>introducerRow.
                    let introducerIntroducerId =
                          (case introducerRow of [] \<Rightarrow> None | r # _ \<Rightarrow> r) in
                    (case introducerIntroducerId of
                       Some g \<Rightarrow>
                         bind_io (query_read (SELECT_beneficiary_id (of_int4 g))
                                    (pg_select_beneficiary_id (of_int4 g))) (\<lambda>benRow.
                           return_io
                             (case benRow of [] \<Rightarrow> None | b # _ \<Rightarrow> map_option of_int4 b))
                     | None \<Rightarrow> return_io None)))
               (\<lambda>beneficiaryId.
           bind_io (query_write (UPDATE beneficiaryId account_id)
                      (pg_update beneficiaryId account_id)) (\<lambda>_.
           return_io (Created account_id introducer beneficiaryId))))) d
         of
           (Inr cr, d') \<Rightarrow> (Response 200 (AccountBody cr), d')
         | (Inl err, d') \<Rightarrow>
             (if code err = Some ''23505'' then
                Response 409 (ErrorBody [Str ''Account with this account_id already exists''])
              else Response 500 (ErrorBody [Str ''Database error'']), d'))))"

section \<open>POST /addAccountsBulk\<close>

text \<open>\<open>Array.isArray(req.body) ? req.body : []\<close>.\<close>

fun items_of :: "jsval \<Rightarrow> jsval list" where
  "items_of (JArray xs) = xs"
| "items_of JUndefined = []"
| "items_of JNull = []"
| "items_of (JBool b) = []"
| "items_of (JNumber n) = []"
| "items_of (JString s) = []"
| "items_of (JObject kvs) = []"

text \<open>An expression inside a \<open>try\<close> that returns a value or throws, and sends nothing.\<close>

definition eval_io :: "exn + 'a \<Rightarrow> 'a io" where
  "eval_io r = (\<lambda>d. (r, d))"

text \<open>
  The \<open>for\<close> loop over the items, with \<open>results\<close> as it stands: the two
  conversions, here inside the \<open>try\<close>, an \<open>Error\<close> of the handler's own for an
  item that fails the validation, and the same statements as in the single-item
  handler, on the connection of the transaction.
\<close>

fun addAccountsBulk_loop :: "jsval list \<Rightarrow> created list \<Rightarrow> created list io" where
  "addAccountsBulk_loop [] results = return_io results"
| "addAccountsBulk_loop (item # items) results =
     bind_io (eval_io (Number (field item ''account_id''))) (\<lambda>account_id.
     bind_io (eval_io (Number (field item ''introducer_id''))) (\<lambda>introducer.
      if \<not> isFinite account_id \<or> \<not> isFinite introducer then
        throw_io (Error [Str ''Invalid item: account_id and introducer_id must be numbers''])
      else
        bind_io (query_write (INSERT account_id introducer)
                   (pg_insert account_id introducer)) (\<lambda>_.
        bind_io (query_read (SELECT_COUNT introducer) (pg_count introducer)) (\<lambda>cntRes.
          let referralCount = (case cntRes of [] \<Rightarrow> 1 | cnt # _ \<Rightarrow> cnt) in
          bind_io
            (if referralCount mod 2 = 1 then return_io (Some introducer)
             else
               bind_io (query_read (SELECT_introducer_id introducer)
                          (pg_select_introducer_id introducer)) (\<lambda>introRow.
                 let introducerIntroducerId =
                       (case introRow of [] \<Rightarrow> None | r # _ \<Rightarrow> r) in
                 (case introducerIntroducerId of
                    Some g \<Rightarrow>
                      bind_io (query_read (SELECT_beneficiary_id (of_int4 g))
                                 (pg_select_beneficiary_id (of_int4 g))) (\<lambda>benRow.
                        return_io
                          (case benRow of [] \<Rightarrow> None | b # _ \<Rightarrow> map_option of_int4 b))
                  | None \<Rightarrow> return_io None)))
            (\<lambda>beneficiaryId.
        bind_io (query_write (UPDATE beneficiaryId account_id)
                   (pg_update beneficiaryId account_id)) (\<lambda>_.
        addAccountsBulk_loop items
          (results @ [Created account_id introducer beneficiaryId])))))))"

text \<open>
  The handler. \<open>BEGIN\<close> opens a transaction on one connection; \<open>COMMIT\<close> keeps what
  the loop wrote, \<open>ROLLBACK\<close> puts the rows back as they were at \<open>BEGIN\<close>.
\<close>

definition addAccountsBulk :: "jsval \<Rightarrow> db \<Rightarrow> outcome \<times> db" where
  "addAccountsBulk req_body d =
     (let items = items_of req_body in
      if items = [] then (Response 400 (ErrorBody [Str ''Body must be a non-empty array'']), d)
      else
        (case addAccountsBulk_loop items [] (d\<lparr>issued := issued d @ [BEGIN]\<rparr>) of
           (Inr results, d') \<Rightarrow>
             (Response 200 (ResultsBody results), d'\<lparr>issued := issued d' @ [COMMIT]\<rparr>)
         | (Inl err, d') \<Rightarrow>
             (Response 500
                (ErrorBody (if blank (message err) then [Str ''Database error''] else message err)),
              d'\<lparr>accounts := accounts d, issued := issued d' @ [ROLLBACK]\<rparr>)))"

section \<open>The rule of the specification\<close>

text \<open>The referral count of an identity: the records whose \<open>introducer_id\<close> equals it.\<close>

definition referral_count :: "account list \<Rightarrow> int \<Rightarrow> nat" where
  "referral_count ledger x = length (filter (\<lambda>r. introducer_id r = Some x) ledger)"

text \<open>The record whose \<open>id\<close> equals an identity, if there is one.\<close>

definition record_with_id :: "account list \<Rightarrow> int \<Rightarrow> account option" where
  "record_with_id ledger x = find (\<lambda>r. id_col r = x) ledger"

text \<open>
  The Referral Assigner as the specification words it: on an odd count the introducer
  itself; on an even count the stored beneficiary of the introducer's own introducer, and
  none when the introducer has no record, that record has no introducer, or the
  grand-introducer has no record.
\<close>

definition assign :: "int \<Rightarrow> account list \<Rightarrow> int option" where
  "assign introducerId ledgerView =
     (if odd (referral_count ledgerView introducerId) then Some introducerId
      else
        (case record_with_id ledgerView introducerId of
           None \<Rightarrow> None
         | Some r \<Rightarrow>
             (case introducer_id r of
                None \<Rightarrow> None
              | Some g \<Rightarrow>
                  (case record_with_id ledgerView g of
                     None \<Rightarrow> None
                   | Some r' \<Rightarrow> beneficiary_id r'))))"

text \<open>A record as it is born: inserted, its beneficiary still absent.\<close>

definition provisional :: "int \<Rightarrow> int \<Rightarrow> account" where
  "provisional a i = \<lparr>id_col = a, introducer_id = Some i, beneficiary_id = None\<rparr>"

text \<open>
  A sequence of returned triples follows the rule from a given ledger: each beneficiary
  is what the Assigner gives on the ledger that holds the earlier accounts of the
  sequence, finalized, and the new record, provisional; the count is then at least one.
\<close>

fun assigned_by_rule :: "account list \<Rightarrow> created list \<Rightarrow> bool" where
  "assigned_by_rule ledger [] = True"
| "assigned_by_rule ledger (Created a i b # cs) =
     (case (int4_in a, int4_in i) of
        (Inr x, Inr y) \<Rightarrow>
          (let ledgerView = ledger @ [provisional x y] in
             1 \<le> referral_count ledgerView y \<and>
             b = map_option of_int4 (assign y ledgerView) \<and>
             assigned_by_rule
               (ledger @ [\<lparr>id_col = x, introducer_id = Some y,
                           beneficiary_id = assign y ledgerView\<rparr>]) cs)
      | _ \<Rightarrow> False)"

fun created_id :: "created \<Rightarrow> jsnum" where
  "created_id (Created a i b) = a"

fun created_introducer :: "created \<Rightarrow> jsnum" where
  "created_introducer (Created a i b) = i"

fun created_beneficiary :: "created \<Rightarrow> jsnum option" where
  "created_beneficiary (Created a i b) = b"

text \<open>The beneficiaries alternate: \<open>X\<close> at the odd positions, none at the even ones.\<close>

definition alternates :: "int \<Rightarrow> created list \<Rightarrow> bool" where
  "alternates X cs =
     (map created_beneficiary cs =
      map (\<lambda>k. if odd k then Some (of_int4 X) else None) [1..<Suc (length cs)])"

text \<open>
  The account \<open>X\<close> itself is among the created accounts at an odd place that is not
  the last one. Places count from one, the indices of the list from zero.
\<close>

definition created_early :: "int \<Rightarrow> created list \<Rightarrow> bool" where
  "created_early X cs =
     list_ex (\<lambda>k. even k \<and> created_id (cs ! k) = of_int4 X) [0..<length cs - 1]"

text \<open>How many of the created accounts name \<open>X\<close> as introducer.\<close>

definition referrals :: "int \<Rightarrow> created list \<Rightarrow> nat" where
  "referrals X cs = length (filter (\<lambda>c. created_introducer c = of_int4 X) cs)"

text \<open>
  The two numbers a handler converts a request body, or an item of a batch, to:
  \<open>account_id\<close> first, \<open>introducer_id\<close> second; or the exception of the first
  conversion that throws.
\<close>

definition converted :: "jsval \<Rightarrow> exn + jsnum \<times> jsnum" where
  "converted item =
     (case Number (field item ''account_id'') of
        Inl err \<Rightarrow> Inl err
      | Inr a \<Rightarrow>
          (case Number (field item ''introducer_id'') of
             Inl err \<Rightarrow> Inl err
           | Inr i \<Rightarrow> Inr (a, i)))"

text \<open>Both numbers are finite: what the validation of either handler asks for.\<close>

definition valid_item :: "jsnum \<times> jsnum \<Rightarrow> bool" where
  "valid_item item = (isFinite (fst item) \<and> isFinite (snd item))"

text \<open>A request body, or an item, whose two conversions return finite numbers.\<close>

definition accepted :: "jsval \<Rightarrow> bool" where
  "accepted item = (case converted item of Inl err \<Rightarrow> False | Inr p \<Rightarrow> valid_item p)"

text \<open>The pairs of numbers of those items whose conversions return, in order.\<close>

fun numbers :: "jsval list \<Rightarrow> (jsnum \<times> jsnum) list" where
  "numbers [] = []"
| "numbers (item # items) =
     (case converted item of Inl err \<Rightarrow> numbers items | Inr p \<Rightarrow> p # numbers items)"

text \<open>A request body, or an item, that names \<open>X\<close> as introducer.\<close>

definition names_introducer :: "int \<Rightarrow> jsval \<Rightarrow> bool" where
  "names_introducer X item =
     (case converted item of Inl err \<Rightarrow> False | Inr p \<Rightarrow> snd p = of_int4 X)"

text \<open>
  A finite numeric value in the sense of the specification, whose requests carry
  \<open>account_id: number\<close> and \<open>introducer_id: number\<close>: a number of the JSON text that
  is finite.
\<close>

fun finite_numeric :: "jsval \<Rightarrow> bool" where
  "finite_numeric (JNumber n) = isFinite n"
| "finite_numeric JUndefined = False"
| "finite_numeric JNull = False"
| "finite_numeric (JBool b) = False"
| "finite_numeric (JString s) = False"
| "finite_numeric (JArray vs) = False"
| "finite_numeric (JObject kvs) = False"

text \<open>A numeric string of the plainest kind: one to fifteen decimal digits.\<close>

definition decimal_digits :: "string \<Rightarrow> bool" where
  "decimal_digits s = (s \<noteq> [] \<and> length s \<le> 15 \<and> list_all (is_digit 10) s)"

text \<open>
  A value that is a finite number, a boolean, \<open>null\<close> or a string of one to fifteen
  decimal digits.
\<close>

fun plain_value :: "jsval \<Rightarrow> bool" where
  "plain_value (JNumber n) = isFinite n"
| "plain_value (JBool b) = True"
| "plain_value JNull = True"
| "plain_value (JString s) = decimal_digits s"
| "plain_value JUndefined = False"
| "plain_value (JArray vs) = False"
| "plain_value (JObject kvs) = False"

text \<open>A number is the \<open>id\<close> of a record of the ledger.\<close>

definition duplicates :: "jsnum \<Rightarrow> account list \<Rightarrow> bool" where
  "duplicates a ledger =
     (case int4_in a of Inl e \<Rightarrow> False | Inr x \<Rightarrow> x \<in> set (map id_col ledger))"


text \<open>
  Single-item requests one after the other, each on the store the last one left: the
  bodies are posted to \<open>/addAccount\<close> in order.
\<close>

fun addAccount_seq :: "jsval list \<Rightarrow> db \<Rightarrow> outcome list \<times> db" where
  "addAccount_seq [] d = ([], d)"
| "addAccount_seq (req_body # req_bodies) d =
     (case addAccount req_body d of
        (r, d') \<Rightarrow> (case addAccount_seq req_bodies d' of (rs, d'') \<Rightarrow> (r # rs, d'')))"

text \<open>The statements that write: \<open>INSERT\<close> and \<open>UPDATE\<close>.\<close>

fun is_write :: "stmt \<Rightarrow> bool" where
  "is_write (INSERT a i) = True"
| "is_write (UPDATE b a) = True"
| "is_write BEGIN = False"
| "is_write COMMIT = False"
| "is_write ROLLBACK = False"
| "is_write (SELECT_COUNT i) = False"
| "is_write (SELECT_introducer_id x) = False"
| "is_write (SELECT_beneficiary_id x) = False"

text \<open>The two writes of one creation: its insert and its write-back of the beneficiary.\<close>

fun writes_of :: "created \<Rightarrow> stmt list" where
  "writes_of (Created a i b) = [INSERT a i, UPDATE b a]"

text \<open>
  The three columns of the table are \<open>INTEGER\<close>: every number a row holds lies in
  the range of 32 bits. The handlers keep a table so.
\<close>

definition int4 :: "int \<Rightarrow> bool" where
  "int4 n = (- 2147483648 \<le> n \<and> n \<le> 2147483647)"

fun int4_opt :: "int option \<Rightarrow> bool" where
  "int4_opt None = True"
| "int4_opt (Some n) = int4 n"

definition int4_ledger :: "account list \<Rightarrow> bool" where
  "int4_ledger ledger =
     list_all (\<lambda>r. int4 (id_col r) \<and> int4_opt (introducer_id r) \<and> int4_opt (beneficiary_id r))
       ledger"

section \<open>Example requests and stores\<close>

text \<open>The body \<open>{"account_id": a, "introducer_id": i}\<close> with two numbers.\<close>

definition request :: "rat \<Rightarrow> rat \<Rightarrow> jsval" where
  "request a i = JObject [(''account_id'', JNumber (Fin a)), (''introducer_id'', JNumber (Fin i))]"

text \<open>The empty store.\<close>

definition empty_db :: db where
  "empty_db = \<lparr>accounts = [], issued = []\<rparr>"

text \<open>Account 1, introduced by 0, and account 2, introduced by 1.\<close>

definition ledger2 :: db where
  "ledger2 = \<lparr>accounts =
     [\<lparr>id_col = 1, introducer_id = Some 0, beneficiary_id = Some 0\<rparr>,
      \<lparr>id_col = 2, introducer_id = Some 1, beneficiary_id = Some 1\<rparr>], issued = []\<rparr>"

text \<open>
  Account 1, introduced by 0, account 2, introduced by 1, and account 3, introduced by 2:
  each the first referral of its introducer.
\<close>

definition ledger3 :: db where
  "ledger3 = \<lparr>accounts =
     [\<lparr>id_col = 1, introducer_id = Some 0, beneficiary_id = Some 0\<rparr>,
      \<lparr>id_col = 2, introducer_id = Some 1, beneficiary_id = Some 1\<rparr>,
      \<lparr>id_col = 3, introducer_id = Some 2, beneficiary_id = Some 2\<rparr>], issued = []\<rparr>"

section \<open>The handlers taken apart\<close>

text \<open>
  For the proofs the two handlers are cut into pieces that work on numbers already
  converted. The pieces are no second model: \<open>addAccount_converted\<close> and
  \<open>addAccountsBulk_converted\<close> below show that the handlers above are these pieces put
  together whenever the conversions return, and \<open>addAccount_rejects\<close> and
  \<open>addAccountsBulk_unconverted\<close> say what the handlers do when one throws.
\<close>

text \<open>The statements between the count and the write-back.\<close>

definition beneficiary_block :: "jsnum \<Rightarrow> nat \<Rightarrow> jsnum option io" where
  "beneficiary_block introducer referralCount =
     (if referralCount mod 2 = 1 then return_io (Some introducer)
      else
        bind_io (query_read (SELECT_introducer_id introducer)
                   (pg_select_introducer_id introducer)) (\<lambda>introducerRow.
          let introducerIntroducerId = (case introducerRow of [] \<Rightarrow> None | r # _ \<Rightarrow> r) in
          (case introducerIntroducerId of
             Some g \<Rightarrow>
               bind_io (query_read (SELECT_beneficiary_id (of_int4 g))
                          (pg_select_beneficiary_id (of_int4 g))) (\<lambda>benRow.
                 return_io (case benRow of [] \<Rightarrow> None | b # _ \<Rightarrow> map_option of_int4 b))
           | None \<Rightarrow> return_io None)))"

text \<open>The statements of one creation: the body of the \<open>try\<close>, or of one turn of the loop.\<close>

definition addAccount_try :: "jsnum \<Rightarrow> jsnum \<Rightarrow> created io" where
  "addAccount_try a i =
     bind_io (query_write (INSERT a i) (pg_insert a i)) (\<lambda>_.
     bind_io (query_read (SELECT_COUNT i) (pg_count i)) (\<lambda>cntRows.
     bind_io (beneficiary_block i (case cntRows of [] \<Rightarrow> 1 | cnt # _ \<Rightarrow> cnt)) (\<lambda>b.
     bind_io (query_write (UPDATE b a) (pg_update b a)) (\<lambda>_.
     return_io (Created a i b)))))"

text \<open>The single-item handler after its two conversions.\<close>

definition addAccount_num :: "jsnum \<Rightarrow> jsnum \<Rightarrow> db \<Rightarrow> outcome \<times> db" where
  "addAccount_num a i d =
     (if \<not> isFinite a \<or> \<not> isFinite i then
        (Response 400 (ErrorBody [Str ''account_id and introducer_id must be numbers'']), d)
      else
        (case addAccount_try a i d of
           (Inr cr, d') \<Rightarrow> (Response 200 (AccountBody cr), d')
         | (Inl err, d') \<Rightarrow>
             (if code err = Some ''23505'' then
                Response 409 (ErrorBody [Str ''Account with this account_id already exists''])
              else Response 500 (ErrorBody [Str ''Database error'']), d')))"

text \<open>The loop over items converted beforehand.\<close>

fun bulk_loop :: "(jsnum \<times> jsnum) list \<Rightarrow> created list \<Rightarrow> created list io" where
  "bulk_loop [] results = return_io results"
| "bulk_loop ((a, i) # items) results =
     (if \<not> isFinite a \<or> \<not> isFinite i then
        throw_io (Error [Str ''Invalid item: account_id and introducer_id must be numbers''])
      else bind_io (addAccount_try a i) (\<lambda>cr. bulk_loop items (results @ [cr])))"

text \<open>The batch handler on items converted beforehand.\<close>

definition addAccountsBulk_num :: "(jsnum \<times> jsnum) list \<Rightarrow> db \<Rightarrow> outcome \<times> db" where
  "addAccountsBulk_num items d =
     (if items = [] then (Response 400 (ErrorBody [Str ''Body must be a non-empty array'']), d)
      else
        (case bulk_loop items [] (d\<lparr>issued := issued d @ [BEGIN]\<rparr>) of
           (Inr results, d') \<Rightarrow>
             (Response 200 (ResultsBody results), d'\<lparr>issued := issued d' @ [COMMIT]\<rparr>)
         | (Inl err, d') \<Rightarrow>
             (Response 500
                (ErrorBody (if blank (message err) then [Str ''Database error''] else message err)),
              d'\<lparr>accounts := accounts d, issued := issued d' @ [ROLLBACK]\<rparr>)))"

text \<open>Single-item requests one after the other, converted beforehand.\<close>

fun addAccount_num_seq :: "(jsnum \<times> jsnum) list \<Rightarrow> db \<Rightarrow> outcome list \<times> db" where
  "addAccount_num_seq [] d = ([], d)"
| "addAccount_num_seq ((a, i) # items) d =
     (case addAccount_num a i d of
        (r, d') \<Rightarrow> (case addAccount_num_seq items d' of (rs, d'') \<Rightarrow> (r # rs, d'')))"

text \<open>A step whose outcome and rows depend on the rows alone, not on what was sent before.\<close>

definition rows_only :: "'a io \<Rightarrow> bool" where
  "rows_only m =
     (\<forall>d1 d2. accounts d1 = accounts d2 \<longrightarrow>
        fst (m d1) = fst (m d2) \<and> accounts (snd (m d1)) = accounts (snd (m d2)))"

text \<open>A step that sends statements and none of them writes.\<close>

definition reads_only :: "'a io \<Rightarrow> bool" where
  "reads_only m =
     (\<forall>d. \<exists>new. issued (snd (m d)) = issued d @ new \<and> filter is_write new = [])"

text \<open>Every error a step can throw satisfies a predicate.\<close>

definition throws_only :: "(exn \<Rightarrow> bool) \<Rightarrow> 'a io \<Rightarrow> bool" where
  "throws_only P m = (\<forall>d e d'. m d = (Inl e, d') \<longrightarrow> P e)"

text \<open>
  An error whose text is neither empty nor the text the loop throws for an item that
  fails its validation.
\<close>

definition from_server :: "exn \<Rightarrow> bool" where
  "from_server e =
     (message e \<noteq> [Str ''Invalid item: account_id and introducer_id must be numbers''] \<and>
      \<not> blank (message e))"

text \<open>
  The beneficiaries alternate from the place after the \<open>n\<close>-th on, and the account
  \<open>X\<close> is created at an odd place that is not the last, the places counted from
  \<open>n\<close> on: the two properties of the claim about one introducer, in the form their
  proof goes through the list.
\<close>

fun alt_from :: "nat \<Rightarrow> int \<Rightarrow> created list \<Rightarrow> bool" where
  "alt_from n X [] = True"
| "alt_from n X (c # cs) =
     (created_beneficiary c = (if odd (Suc n) then Some (of_int4 X) else None) \<and>
      alt_from (Suc n) X cs)"

fun early_from :: "nat \<Rightarrow> int \<Rightarrow> created list \<Rightarrow> bool" where
  "early_from n X [] = False"
| "early_from n X (c # cs) =
     ((created_id c = of_int4 X \<and> odd (Suc n) \<and> cs \<noteq> []) \<or> early_from (Suc n) X cs)"

text \<open>
  Every record of \<open>X\<close> on the ledger names \<open>X\<close> itself as introducer and has no
  beneficiary: such a record cannot give a beneficiary to a referral of \<open>X\<close>.
\<close>

definition harmless :: "int \<Rightarrow> account list \<Rightarrow> bool" where
  "harmless X ledger =
     list_all (\<lambda>r. id_col r = X \<longrightarrow> introducer_id r = Some X \<and> beneficiary_id r = None) ledger"

text \<open>The status of a response; an exception that leaves the handler has none.\<close>

fun status :: "outcome \<Rightarrow> nat option" where
  "status (Response st b) = Some st"
| "status (Rejects err) = None"

section \<open>Facts about the steps\<close>

lemma bind_io_assoc: "bind_io (bind_io m f) g = bind_io m (\<lambda>x. bind_io (f x) g)"
  by (auto simp: bind_io_def fun_eq_iff split: prod.splits sum.splits)

lemma return_io_bind: "bind_io (return_io x) f = f x"
  by (simp add: bind_io_def return_io_def)

lemma bind_io_Inr:
  "bind_io m f d = (Inr c, d') \<longleftrightarrow> (\<exists>x dm. m d = (Inr x, dm) \<and> f x dm = (Inr c, d'))"
  by (auto simp: bind_io_def split: prod.splits sum.splits)

lemma return_io_Inr: "return_io x d = (Inr r, d') \<longleftrightarrow> r = x \<and> d' = d"
  by (auto simp: return_io_def)

lemma query_read_Inr:
  "query_read s f d = (Inr r, d') \<longleftrightarrow>
     f (accounts d) = Inr r \<and> d' = d\<lparr>issued := issued d @ [s]\<rparr>"
  by (auto simp: query_read_def)

lemma query_write_Inr:
  "query_write s f d = (Inr u, d') \<longleftrightarrow>
     (\<exists>rs. f (accounts d) = Inr rs \<and> d' = d\<lparr>accounts := rs, issued := issued d @ [s]\<rparr>)"
  by (auto simp: query_write_def split: sum.splits)

section \<open>Facts about the conversion\<close>

lemma bit_length_nonneg: "0 \<le> bit_length n"
  by (induction n rule: bit_length.induct) (subst bit_length.simps, simp)

lemma bit_length_pos: "0 < n \<Longrightarrow> 1 \<le> bit_length n"
  using bit_length_nonneg[of "n div 2"] by (subst bit_length.simps) simp

lemma bit_length_le: "n < 2 ^ k \<Longrightarrow> bit_length n \<le> int k"
proof (induction k arbitrary: n)
  case 0
  then show ?case by (subst bit_length.simps) simp
next
  case (Suc k)
  from Suc.prems have "n div 2 < 2 ^ k" by simp
  from Suc.IH[OF this] show ?case by (subst bit_length.simps) simp
qed

lemma round_half_even_of_int: "round_half_even (of_int z) = z"
  by (simp add: round_half_even_def)

text \<open>An integer below \<open>2^53\<close> is a double.\<close>

lemma round_double_of_int:
  assumes "0 \<le> v" "v < 2 ^ 53"
  shows "round_double (of_int v) = Fin (of_int v)"
proof (cases "v = 0")
  case True
  then show ?thesis by (simp add: round_double_def)
next
  case False
  with assms have pos: "0 < v" by simp
  then have one: "(1::rat) \<le> of_int v" by simp
  have fl: "floor_log2 \<bar>of_int v\<bar> = bit_length v - 1"
    using one pos by (simp add: floor_log2_def)
  from bit_length_pos[OF pos] bit_length_le[OF assms(2)]
  have b: "1 \<le> bit_length v" "bit_length v \<le> 53" by simp_all
  define k where "k = nat (53 - bit_length v)"
  have ulp: "pow2 (max (bit_length v - 1) (- 1022) - 52) = 1 / 2 ^ k"
    using b by (auto simp: pow2_def k_def max_def intro: arg_cong[where f = "\<lambda>n. 2 ^ n"])
  have q: "(of_int v :: rat) / (1 / 2 ^ k) = of_int (v * 2 ^ k)" by simp
  have r: "(of_int (v * 2 ^ k) :: rat) * (1 / 2 ^ k) = of_int v" by simp
  from pos have nz: "(of_int v :: rat) \<noteq> 0" by simp
  show ?thesis
    unfolding round_double_def Let_def fl ulp q round_half_even_of_int r
    using nz b by simp
qed

lemma is_digit_10_char:
  assumes "is_digit 10 ch"
  shows "\<not> StrWhiteSpaceChar ch" "ch \<noteq> CHR ''-''" "ch \<noteq> CHR ''+''" "ch \<noteq> CHR ''I''"
    "ch \<noteq> CHR ''x''" "ch \<noteq> CHR ''X''" "ch \<noteq> CHR ''o''" "ch \<noteq> CHR ''O''"
    "ch \<noteq> CHR ''b''" "ch \<noteq> CHR ''B''"
  using assms
  by (auto simp: is_digit_def digit_value_def StrWhiteSpaceChar_def Let_def split: if_splits)

lemma digits_value_snoc:
  "digits_value radix (ds @ [ch]) = digits_value radix ds * int radix + int (digit_value ch)"
  by (simp add: digits_value_def)

lemma digits_value_bounds:
  "list_all (is_digit 10) ds \<Longrightarrow> 0 \<le> digits_value 10 ds \<and> digits_value 10 ds < 10 ^ length ds"
proof (induction ds rule: rev_induct)
  case Nil
  show ?case by (simp add: digits_value_def)
next
  case (snoc ch ds)
  then have ih: "0 \<le> digits_value 10 ds" "digits_value 10 ds < 10 ^ length ds"
    and ch: "digit_value ch < 10"
    by (simp_all add: is_digit_def)
  from ih(2) have "digits_value 10 ds + 1 \<le> 10 ^ length ds" by simp
  then have "(digits_value 10 ds + 1) * 10 \<le> 10 ^ length ds * 10" by (rule mult_right_mono) simp
  with ih(1) ch show ?case by (simp add: digits_value_snoc algebra_simps)
qed

lemma trim_digits:
  assumes "ds \<noteq> []" "list_all (is_digit 10) ds"
  shows "trim ds = ds"
proof -
  from assms have "\<not> StrWhiteSpaceChar (hd ds)" "\<not> StrWhiteSpaceChar (last ds)"
    by (auto simp: list_all_iff intro!: is_digit_10_char(1))
  then have h: "\<not> StrWhiteSpaceChar (hd ds)" "\<not> StrWhiteSpaceChar (hd (rev ds))"
    using assms(1) by (simp_all add: hd_rev)
  from h(1) assms(1) have a: "dropWhile StrWhiteSpaceChar ds = ds" by (cases ds) auto
  from h(2) assms(1) have b: "dropWhile StrWhiteSpaceChar (rev ds) = rev ds"
    by (cases "rev ds") auto
  show ?thesis by (simp add: trim_def a b)
qed

text \<open>One to fifteen decimal digits are read as the number they denote.\<close>

lemma StringToNumber_digits:
  assumes "decimal_digits ds"
  shows "StringToNumber ds = Fin (of_int (digits_value 10 ds))"
proof -
  from assms have ne: "ds \<noteq> []" and dg: "list_all (is_digit 10) ds" and len: "length ds \<le> 15"
    by (simp_all add: decimal_digits_def)
  from ne obtain ch t where ds: "ds = ch # t" by (cases ds) auto
  with dg have ch: "is_digit 10 ch" by simp
  note no = is_digit_10_char[OF ch]
  have nd: "NonDecimalIntegerLiteral ds = None"
  proof (cases t)
    case Nil
    with ds show ?thesis by (simp add: NonDecimalIntegerLiteral_def)
  next
    case (Cons p u)
    with ds dg have "is_digit 10 p" by simp
    from is_digit_10_char[OF this] ds Cons show ?thesis
      by (simp add: NonDecimalIntegerLiteral_def)
  qed
  have tw: "takeWhile (is_digit 10) ds = ds" "dropWhile (is_digit 10) ds = []"
    using dg by (simp_all add: list_all_iff)
  have lit: "StrUnsignedDecimalLiteral ds = Some (of_int (digits_value 10 ds))"
    using ne by (simp add: StrUnsignedDecimalLiteral_def tw digits_value_def)
  from digits_value_bounds[OF dg]
  have b: "0 \<le> digits_value 10 ds" "digits_value 10 ds < 10 ^ length ds"
    by simp_all
  from len have "(10::int) ^ length ds \<le> 10 ^ 15" by (intro power_increasing) simp_all
  moreover have "(10::int) ^ 15 < 2 ^ 53" by simp
  ultimately have "digits_value 10 ds < 2 ^ 53" using b(2) by linarith
  from round_double_of_int[OF b(1) this] have rd:
    "round_double (of_int (digits_value 10 ds)) = Fin (of_int (digits_value 10 ds))" .
  have inf: "ds \<noteq> ''Infinity''" using ds no(4) by auto
  show ?thesis
    unfolding StringToNumber_def trim_digits[OF ne dg] Let_def nd
    using ne ds no(2,3) inf lit rd by simp
qed

lemma plain_value_finite: "plain_value v \<Longrightarrow> \<exists>q. Number v = Inr (Fin q)"
proof (cases v)
  case (JNumber n)
  assume "plain_value v"
  with JNumber show ?thesis by (cases n) auto
next
  case (JString s)
  assume "plain_value v"
  with JString StringToNumber_digits[of s] show ?thesis by simp
qed auto

section \<open>The handlers are their pieces put together\<close>

lemma converted_Inr:
  "converted item = Inr (a, i) \<longleftrightarrow>
     Number (field item ''account_id'') = Inr a \<and> Number (field item ''introducer_id'') = Inr i"
  by (auto simp: converted_def split: sum.splits)

lemma addAccount_converted:
  assumes "converted req_body = Inr (a, i)"
  shows "addAccount req_body d = addAccount_num a i d"
proof -
  from assms have n: "Number (field req_body ''account_id'') = Inr a"
    "Number (field req_body ''introducer_id'') = Inr i"
    by (simp_all add: converted_Inr)
  show ?thesis
    by (simp add: addAccount_def n addAccount_num_def addAccount_try_def beneficiary_block_def
        Let_def)
qed

lemma addAccount_rejects:
  "converted req_body = Inl err \<Longrightarrow> addAccount req_body d = (Rejects err, d)"
  by (auto simp: addAccount_def converted_def split: sum.splits)

lemma addAccount_response_converted:
  assumes "fst (addAccount req_body d) = Response st b"
  shows "\<exists>a i. converted req_body = Inr (a, i)"
proof (cases "converted req_body")
  case (Inl err)
  from addAccount_rejects[OF this] assms show ?thesis by simp
next
  case (Inr p)
  then show ?thesis by (cases p) simp
qed

lemma addAccountsBulk_loop_step:
  assumes "converted item = Inr (a, i)"
  shows "addAccountsBulk_loop (item # items) results =
     (if \<not> isFinite a \<or> \<not> isFinite i then
        throw_io (Error [Str ''Invalid item: account_id and introducer_id must be numbers''])
      else bind_io (addAccount_try a i) (\<lambda>cr. addAccountsBulk_loop items (results @ [cr])))"
proof -
  from assms have n: "Number (field item ''account_id'') = Inr a"
    "Number (field item ''introducer_id'') = Inr i"
    by (auto simp: converted_def split: sum.splits)
  have e: "\<And>x f. bind_io (eval_io (Inr x)) f = f x"
    by (simp add: bind_io_def eval_io_def)
  show ?thesis
    by (simp add: n e Let_def addAccount_try_def beneficiary_block_def bind_io_assoc
        return_io_bind)
qed

lemma addAccountsBulk_loop_throws:
  assumes "converted item = Inl err"
  shows "addAccountsBulk_loop (item # items) results = throw_io err"
  using assms
  by (auto simp: converted_def bind_io_def eval_io_def throw_io_def fun_eq_iff split: sum.splits)

declare addAccountsBulk_loop.simps(2) [simp del]

lemma bulk_loop_step:
  "bulk_loop ((a, i) # items) results =
     (if \<not> isFinite a \<or> \<not> isFinite i then
        throw_io (Error [Str ''Invalid item: account_id and introducer_id must be numbers''])
      else bind_io (addAccount_try a i) (\<lambda>c. bulk_loop items (results @ [c])))"
  by simp

declare bulk_loop.simps(2) [simp del]

lemma addAccountsBulk_loop_converted:
  "map converted items = map Inr pairs \<Longrightarrow>
   addAccountsBulk_loop items results = bulk_loop pairs results"
proof (induction items arbitrary: pairs results)
  case Nil
  then show ?case by simp
next
  case (Cons item items)
  then obtain a i rest where p: "pairs = (a, i) # rest" "converted item = Inr (a, i)"
    "map converted items = map Inr rest"
    by (cases pairs) auto
  from Cons.IH[OF p(3)] show ?case
    by (simp add: p(1) addAccountsBulk_loop_step[OF p(2)] bulk_loop_step)
qed

lemma converted_or_not:
  "(\<exists>pairs. map converted items = map Inr pairs) \<or> list_ex (\<lambda>item. isl (converted item)) items"
proof (induction items)
  case Nil
  show ?case by simp
next
  case (Cons item items)
  show ?case
  proof (cases "converted item")
    case (Inl err)
    then show ?thesis by simp
  next
    case (Inr p)
    from Cons show ?thesis
    proof
      assume "\<exists>pairs. map converted items = map Inr pairs"
      then obtain pairs where "map converted items = map Inr pairs" by blast
      with Inr have "map converted (item # items) = map Inr (p # pairs)" by simp
      then show ?thesis by blast
    next
      assume "list_ex (\<lambda>item. isl (converted item)) items"
      then show ?thesis by simp
    qed
  qed
qed

lemma bind_io_Inl_or:
  "(\<exists>e d'. bind_io m f d = (Inl e, d')) \<or> (\<exists>x dm. m d = (Inr x, dm) \<and> bind_io m f d = f x dm)"
  by (cases "m d") (auto simp: bind_io_def split: sum.splits)

lemma addAccountsBulk_loop_unconverted:
  "list_ex (\<lambda>item. isl (converted item)) items \<Longrightarrow>
   \<exists>e d'. addAccountsBulk_loop items results d = (Inl e, d')"
proof (induction items arbitrary: results d)
  case Nil
  then show ?case by simp
next
  case (Cons item items)
  show ?case
  proof (cases "converted item")
    case (Inl err)
    then show ?thesis by (simp add: addAccountsBulk_loop_throws throw_io_def)
  next
    case (Inr p)
    obtain a i where p: "p = (a, i)" by (cases p)
    from Inr Cons.prems have rest: "list_ex (\<lambda>item. isl (converted item)) items" by simp
    show ?thesis
    proof (cases "\<not> isFinite a \<or> \<not> isFinite i")
      case True
      with Inr p show ?thesis by (simp add: addAccountsBulk_loop_step throw_io_def)
    next
      case False
      with Inr p have step: "addAccountsBulk_loop (item # items) results =
          bind_io (addAccount_try a i) (\<lambda>cr. addAccountsBulk_loop items (results @ [cr]))"
        by (simp add: addAccountsBulk_loop_step)
      from bind_io_Inl_or[of "addAccount_try a i"
          "\<lambda>cr. addAccountsBulk_loop items (results @ [cr])" d]
      show ?thesis
      proof
        assume "\<exists>e d'. bind_io (addAccount_try a i)
            (\<lambda>cr. addAccountsBulk_loop items (results @ [cr])) d = (Inl e, d')"
        then show ?thesis by (simp add: step)
      next
        assume "\<exists>x dm. addAccount_try a i d = (Inr x, dm) \<and>
            bind_io (addAccount_try a i) (\<lambda>cr. addAccountsBulk_loop items (results @ [cr])) d =
              addAccountsBulk_loop items (results @ [x]) dm"
        then obtain x dm where
          "bind_io (addAccount_try a i) (\<lambda>cr. addAccountsBulk_loop items (results @ [cr])) d =
              addAccountsBulk_loop items (results @ [x]) dm"
          by blast
        with Cons.IH[OF rest, of "results @ [x]" dm] show ?thesis by (simp add: step)
      qed
    qed
  qed
qed

lemma addAccountsBulk_converted:
  "map converted (items_of req_body) = map Inr pairs \<Longrightarrow>
   addAccountsBulk req_body d = addAccountsBulk_num pairs d"
  by (auto simp: addAccountsBulk_def addAccountsBulk_num_def addAccountsBulk_loop_converted
      Let_def)

lemma addAccountsBulk_unconverted:
  assumes "list_ex (\<lambda>item. isl (converted item)) (items_of req_body)"
  shows "accounts (snd (addAccountsBulk req_body d)) = accounts d \<and>
         (\<exists>m. fst (addAccountsBulk req_body d) = Response 500 (ErrorBody m))"
proof -
  from assms have ne: "items_of req_body \<noteq> []" by auto
  from addAccountsBulk_loop_unconverted[OF assms, of "[]" "d\<lparr>issued := issued d @ [BEGIN]\<rparr>"]
  obtain e dl where
    "addAccountsBulk_loop (items_of req_body) [] (d\<lparr>issued := issued d @ [BEGIN]\<rparr>) = (Inl e, dl)"
    by blast
  with ne show ?thesis by (simp add: addAccountsBulk_def)
qed

lemma addAccountsBulk_200_converted:
  assumes "addAccountsBulk req_body d = (Response 200 b, d')"
  shows "\<exists>pairs. map converted (items_of req_body) = map Inr pairs"
  using converted_or_not[of "items_of req_body"] addAccountsBulk_unconverted[of req_body d] assms
  by auto

lemma addAccount_seq_converted:
  "map converted req_bodies = map Inr pairs \<Longrightarrow>
   addAccount_seq req_bodies d = addAccount_num_seq pairs d"
proof (induction req_bodies arbitrary: pairs d)
  case Nil
  then show ?case by simp
next
  case (Cons req_body req_bodies)
  then obtain a i rest where p: "pairs = (a, i) # rest" "converted req_body = Inr (a, i)"
    "map converted req_bodies = map Inr rest"
    by (cases pairs) auto
  from Cons.IH[OF p(3)] show ?case
    by (simp add: p(1) addAccount_converted[OF p(2)])
qed

lemma addAccount_seq_200_converted:
  "fst (addAccount_seq req_bodies d) = map (\<lambda>cr. Response 200 (AccountBody cr)) cs \<Longrightarrow>
   \<exists>pairs. map converted req_bodies = map Inr pairs"
proof (induction req_bodies arbitrary: d cs)
  case Nil
  show ?case by simp
next
  case (Cons req_body req_bodies)
  obtain r d1 where step: "addAccount req_body d = (r, d1)" by (cases "addAccount req_body d")
  obtain rs d2 where rest: "addAccount_seq req_bodies d1 = (rs, d2)"
    by (cases "addAccount_seq req_bodies d1")
  from Cons.prems step rest obtain c cs' where
    cs: "cs = c # cs'" "r = Response 200 (AccountBody c)"
        "rs = map (\<lambda>cr. Response 200 (AccountBody cr)) cs'"
    by (cases cs) auto
  from step cs(2) addAccount_response_converted[of req_body d 200 "AccountBody c"]
  obtain a i where ai: "converted req_body = Inr (a, i)" by auto
  from rest cs(3) Cons.IH[of d1 cs'] obtain pairs where
    "map converted req_bodies = map Inr pairs" by auto
  with ai have "map converted (req_body # req_bodies) = map Inr ((a, i) # pairs)" by simp
  then show ?case by blast
qed

lemma numbers_converted: "map converted items = map Inr pairs \<Longrightarrow> numbers items = pairs"
proof (induction items arbitrary: pairs)
  case Nil
  then show ?case by simp
next
  case (Cons item items)
  then show ?case by (cases pairs) auto
qed

section \<open>Facts about the queries\<close>

lemma int4_in_Inr: "int4_in x = Inr n \<Longrightarrow> x = of_int4 n"
  by (auto simp: int4_in_def of_int4_def split: jsnum.splits if_splits)

lemma of_int4_inj: "of_int4 x = of_int4 y \<longleftrightarrow> x = y"
  by (simp add: of_int4_def)

lemma int4_in_of_int4: "int4_in (of_int4 g) = Inr n \<Longrightarrow> n = g"
  by (auto simp: int4_in_def of_int4_def split: if_splits)

lemma int4_in_finite: "int4_in x = Inr n \<Longrightarrow> isFinite x"
  by (auto simp: int4_in_def split: jsnum.splits if_splits)

lemma pg_insert_Inr:
  "pg_insert a i rs = Inr rs' \<longleftrightarrow>
     (\<exists>x y. int4_in a = Inr x \<and> int4_in i = Inr y \<and> x \<notin> set (map id_col rs) \<and>
            rs' = rs @ [provisional x y])"
  by (auto simp: pg_insert_def provisional_def split: sum.splits)

lemma pg_count_Inr:
  "pg_count i rs = Inr r \<longleftrightarrow> (\<exists>y. int4_in i = Inr y \<and> r = [referral_count rs y])"
  by (auto simp: pg_count_def referral_count_def split: sum.splits)

lemma pg_select_introducer_id_Inr:
  "pg_select_introducer_id i rs = Inr r \<longleftrightarrow>
     (\<exists>y. int4_in i = Inr y \<and> r = map introducer_id (filter (\<lambda>r. id_col r = y) rs))"
  by (auto simp: pg_select_introducer_id_def split: sum.splits)

lemma pg_select_beneficiary_id_Inr:
  "pg_select_beneficiary_id i rs = Inr r \<longleftrightarrow>
     (\<exists>y. int4_in i = Inr y \<and> r = map beneficiary_id (filter (\<lambda>r. id_col r = y) rs))"
  by (auto simp: pg_select_beneficiary_id_def split: sum.splits)

lemma pg_update_Inr:
  assumes "pg_update b a rs = Inr rs'"
  shows "\<exists>x v. int4_in a = Inr x \<and>
           (b = None \<and> v = None \<or> (\<exists>n w. b = Some n \<and> int4_in n = Inr w \<and> v = Some w)) \<and>
           rs' = map (\<lambda>r. if id_col r = x then r\<lparr>beneficiary_id := v\<rparr> else r) rs"
proof (cases b)
  case None
  with assms show ?thesis by (auto simp: pg_update_def split: sum.splits)
next
  case (Some n)
  with assms show ?thesis
    by (cases "int4_in n") (auto simp: pg_update_def split: sum.splits)
qed

text \<open>\<open>rows[0]?.x ?? null\<close> reads the first row with the wanted \<open>id\<close>.\<close>

lemma first_row_find:
  "(case map f (filter P rs) of [] \<Rightarrow> z | r # _ \<Rightarrow> h r) =
   (case find P rs of None \<Rightarrow> z | Some r \<Rightarrow> h (f r))"
  by (induction rs) auto

lemma update_new_row:
  "x \<notin> set (map id_col rs) \<Longrightarrow>
   map (\<lambda>r. if id_col r = x then r\<lparr>beneficiary_id := v\<rparr> else r) (rs @ [provisional x y]) =
   rs @ [\<lparr>id_col = x, introducer_id = Some y, beneficiary_id = v\<rparr>]"
  by (auto simp: provisional_def intro!: map_idI)

section \<open>What a creation that returns has done\<close>

lemma beneficiary_block_Inr:
  assumes "accounts dm = L" "int4_in i = Inr y"
    and "beneficiary_block i (referral_count L y) dm = (Inr b, dm')"
  shows "b = map_option of_int4 (assign y L) \<and> accounts dm' = L"
proof (cases "odd (referral_count L y)")
  case True
  then show ?thesis
    using assms int4_in_Inr[OF assms(2)]
    by (auto simp: beneficiary_block_def assign_def odd_iff_mod_2_eq_one return_io_Inr)
next
  case False
  then have ev: "referral_count L y mod 2 \<noteq> 1" by (simp add: odd_iff_mod_2_eq_one)
  show ?thesis
  proof (cases "record_with_id L y")
    case None
    then show ?thesis
      using assms False ev
      by (auto simp: beneficiary_block_def assign_def bind_io_Inr query_read_Inr return_io_Inr
          pg_select_introducer_id_Inr first_row_find record_with_id_def Let_def)
  next
    case (Some r)
    show ?thesis
    proof (cases "introducer_id r")
      case None
      then show ?thesis
        using assms False ev Some
        by (auto simp: beneficiary_block_def assign_def bind_io_Inr query_read_Inr return_io_Inr
            pg_select_introducer_id_Inr first_row_find record_with_id_def Let_def)
    next
      case (Some g)
      then show ?thesis
        using assms False ev \<open>record_with_id L y = Some r\<close>
        by (auto simp: beneficiary_block_def assign_def bind_io_Inr query_read_Inr return_io_Inr
            pg_select_introducer_id_Inr pg_select_beneficiary_id_Inr first_row_find
            record_with_id_def Let_def dest!: int4_in_of_int4 split: option.splits)
    qed
  qed
qed

lemma addAccount_try_Inr:
  assumes "addAccount_try a i d = (Inr c, d')"
  shows "\<exists>x y. int4_in a = Inr x \<and> int4_in i = Inr y \<and> x \<notin> set (map id_col (accounts d)) \<and>
           c = Created a i (map_option of_int4 (assign y (accounts d @ [provisional x y]))) \<and>
           accounts d' = accounts d @ [\<lparr>id_col = x, introducer_id = Some y,
              beneficiary_id = assign y (accounts d @ [provisional x y])\<rparr>]"
proof -
  from assms obtain u d1 cntRows d2 b d3 u' where
    s1: "query_write (INSERT a i) (pg_insert a i) d = (Inr u, d1)" and
    s2: "query_read (SELECT_COUNT i) (pg_count i) d1 = (Inr cntRows, d2)" and
    s3: "beneficiary_block i (case cntRows of [] \<Rightarrow> 1 | cnt # _ \<Rightarrow> cnt) d2 = (Inr b, d3)" and
    s4: "query_write (UPDATE b a) (pg_update b a) d3 = (Inr u', d')" and
    c: "c = Created a i b"
    by (auto simp: addAccount_try_def bind_io_Inr return_io_Inr)
  from s1 obtain x y where
    x: "int4_in a = Inr x" and y: "int4_in i = Inr y" and
    fresh: "x \<notin> set (map id_col (accounts d))" and
    d1: "accounts d1 = accounts d @ [provisional x y]"
    by (auto simp: query_write_Inr pg_insert_Inr)
  let ?L = "accounts d @ [provisional x y]"
  from s2 y d1 have d2: "accounts d2 = ?L" and cnt: "cntRows = [referral_count ?L y]"
    by (auto simp: query_read_Inr pg_count_Inr)
  from s3 cnt have "beneficiary_block i (referral_count ?L y) d2 = (Inr b, d3)" by simp
  from beneficiary_block_Inr[OF d2 y this]
  have b: "b = map_option of_int4 (assign y ?L)" and d3: "accounts d3 = ?L" by simp_all
  from s4 obtain rs where upd: "pg_update b a ?L = Inr rs" and d': "accounts d' = rs"
    by (auto simp: query_write_Inr d3)
  from pg_update_Inr[OF upd] x b
  have "rs = map (\<lambda>r. if id_col r = x then r\<lparr>beneficiary_id := assign y ?L\<rparr> else r) ?L"
    by (cases "assign y ?L") (auto dest: int4_in_of_int4)
  then have "rs = accounts d @ [\<lparr>id_col = x, introducer_id = Some y, beneficiary_id = assign y ?L\<rparr>]"
    by (simp only: update_new_row[OF fresh])
  with x y fresh c b d' show ?thesis
    by simp
qed

lemma referral_count_new: "Suc 0 \<le> referral_count (L @ [provisional x y]) y"
  by (simp add: referral_count_def provisional_def)

lemma addAccount_num_200:
  assumes "addAccount_num a i d = (Response 200 bdy, d')"
  shows "\<exists>c. bdy = AccountBody c \<and> addAccount_try a i d = (Inr c, d')"
  using assms
  by (auto simp: addAccount_num_def split: if_splits prod.splits sum.splits)

lemma addAccountsBulk_num_200:
  assumes "addAccountsBulk_num items d = (Response 200 bdy, d')"
  shows "\<exists>cs dl. bdy = ResultsBody cs \<and> items \<noteq> [] \<and>
           bulk_loop items [] (d\<lparr>issued := issued d @ [BEGIN]\<rparr>) = (Inr cs, dl) \<and>
           accounts d' = accounts dl"
  using assms
  by (auto simp: addAccountsBulk_num_def split: if_splits prod.splits sum.splits)

lemma assigned_by_rule_one:
  assumes "addAccount_try a i d = (Inr c, d')"
  shows "assigned_by_rule (accounts d) [c]"
proof -
  from addAccount_try_Inr[OF assms] obtain x y where
    "int4_in a = Inr x" "int4_in i = Inr y"
    "c = Created a i (map_option of_int4 (assign y (accounts d @ [provisional x y])))"
    by blast
  then show ?thesis by (simp add: referral_count_new)
qed

text \<open>
  A loop that returns has appended one triple per item, in order, each for its item and
  each assigned by the rule on the rows its predecessors left.
\<close>

lemma bulk_loop_Inr:
  assumes "bulk_loop items acc d = (Inr cs, d')"
  shows "\<exists>new. cs = acc @ new \<and> assigned_by_rule (accounts d) new \<and>
           map (\<lambda>c. (created_id c, created_introducer c)) new = items"
  using assms
proof (induction items arbitrary: acc d)
  case Nil
  then show ?case by (simp add: return_io_Inr)
next
  case (Cons item items)
  obtain a i where item: "item = (a, i)" by (cases item)
  from Cons.prems item obtain c dm where
    t: "addAccount_try a i d = (Inr c, dm)" and
    l: "bulk_loop items (acc @ [c]) dm = (Inr cs, d')"
    by (auto simp: bulk_loop_step bind_io_Inr throw_io_def split: if_splits)
  from Cons.IH[OF l] obtain new where
    new: "cs = (acc @ [c]) @ new" "assigned_by_rule (accounts dm) new"
      "map (\<lambda>c. (created_id c, created_introducer c)) new = items"
    by blast
  from addAccount_try_Inr[OF t] obtain x y where
    xy: "int4_in a = Inr x" "int4_in i = Inr y"
    "c = Created a i (map_option of_int4 (assign y (accounts d @ [provisional x y])))"
    "accounts dm = accounts d @ [\<lparr>id_col = x, introducer_id = Some y,
              beneficiary_id = assign y (accounts d @ [provisional x y])\<rparr>]"
    by blast
  have "assigned_by_rule (accounts d) (c # new)"
    using xy new(2) by (simp add: referral_count_new)
  with new(1,3) xy(3) item show ?case
    by (intro exI[of _ "c # new"]) simp
qed

section \<open>A batch that fails\<close>





lemma accepted_pairs:
  "map converted items = map Inr pairs \<Longrightarrow> list_all accepted items = list_all valid_item pairs"
proof (induction items arbitrary: pairs)
  case Nil
  then show ?case by simp
next
  case (Cons item items)
  then show ?case by (cases pairs) (auto simp: accepted_def)
qed


section \<open>A duplicate id\<close>

lemma int4_in_Inl_code: "int4_in x = Inl e \<Longrightarrow> code e \<noteq> Some ''23505''"
  by (auto simp: int4_in_def split: jsnum.splits if_splits)

lemma addAccount_try_insert_fails:
  assumes "pg_insert a i (accounts d) = Inl e"
  shows "addAccount_try a i d = (Inl e, d\<lparr>issued := issued d @ [INSERT a i]\<rparr>)"
  using assms by (simp add: addAccount_try_def bind_io_def query_write_def)

lemma duplicate_id_num:
  assumes "duplicates a (accounts d)" and "isFinite i"
  shows "addAccount_num a i d =
           ((if isl (int4_in i) then Response 500 (ErrorBody [Str ''Database error''])
             else Response 409 (ErrorBody [Str ''Account with this account_id already exists''])),
            d\<lparr>issued := issued d @ [INSERT a i]\<rparr>) \<and>
         accounts (snd (addAccount_num a i d)) = accounts d"
proof -
  have "addAccount_num a i d =
           ((if isl (int4_in i) then Response 500 (ErrorBody [Str ''Database error''])
             else Response 409 (ErrorBody [Str ''Account with this account_id already exists''])),
            d\<lparr>issued := issued d @ [INSERT a i]\<rparr>)"
  proof -
  from assms(1) obtain x where x: "int4_in a = Inr x" "x \<in> set (map id_col (accounts d))"
    by (auto simp: duplicates_def split: sum.splits)
  then have fa: "isFinite a" by (auto dest: int4_in_finite)
  show ?thesis
  proof (cases "int4_in i")
    case (Inl e)
    with x have "pg_insert a i (accounts d) = Inl e" by (simp add: pg_insert_def)
    from addAccount_try_insert_fails[OF this] fa assms(2) Inl int4_in_Inl_code[OF Inl]
    show ?thesis by (simp add: addAccount_num_def)
  next
    case (Inr y)
    with x have \<open>pg_insert a i (accounts d) =
        Inl (DatabaseError ''23505''
               [Str ''duplicate key value violates unique constraint "accounts_pkey"''])\<close>
      by (simp add: pg_insert_def)
    from addAccount_try_insert_fails[OF this] fa assms(2) Inr
    show ?thesis by (simp add: addAccount_num_def)
  qed
qed
  then show ?thesis by simp
qed

section \<open>Which rows a creation touches\<close>

lemma query_read_rows: "accounts (snd (query_read s f d)) = accounts d"
  by (simp add: query_read_def)

lemma bind_io_rows:
  assumes "\<And>d. accounts (snd (m d)) = accounts d" "\<And>x d. accounts (snd (f x d)) = accounts d"
  shows "accounts (snd (bind_io m f d)) = accounts d"
proof (cases "m d")
  case (Pair r dm)
  with assms(1)[of d] have dm: "accounts dm = accounts d" by simp
  show ?thesis
  proof (cases r)
    case (Inl e)
    with Pair dm show ?thesis by (simp add: bind_io_def)
  next
    case (Inr x)
    with Pair dm assms(2)[of x dm] show ?thesis by (simp add: bind_io_def)
  qed
qed

lemma beneficiary_block_rows: "accounts (snd (beneficiary_block i n d)) = accounts d"
  unfolding beneficiary_block_def Let_def
  by (auto intro!: bind_io_rows simp: query_read_rows return_io_def split: option.splits)

lemma addAccount_try_rows:
  "accounts (snd (addAccount_try a i d)) = accounts d \<or>
   (\<exists>x y b. int4_in a = Inr x \<and> x \<notin> set (map id_col (accounts d)) \<and>
      accounts (snd (addAccount_try a i d)) =
        accounts d @ [\<lparr>id_col = x, introducer_id = Some y, beneficiary_id = b\<rparr>])"
proof (cases "pg_insert a i (accounts d)")
  case (Inl e)
  then show ?thesis by (simp add: addAccount_try_insert_fails)
next
  case (Inr rs1)
  then obtain x y where xy: "int4_in a = Inr x" "x \<notin> set (map id_col (accounts d))"
    "rs1 = accounts d @ [provisional x y]"
    by (auto simp: pg_insert_Inr)
  let ?d1 = "d\<lparr>accounts := rs1, issued := issued d @ [INSERT a i]\<rparr>"
  let ?d2 = "?d1\<lparr>issued := issued ?d1 @ [SELECT_COUNT i]\<rparr>"
  have new: "\<And>v. map (\<lambda>r. if id_col r = x then r\<lparr>beneficiary_id := v\<rparr> else r) rs1 =
      accounts d @ [\<lparr>id_col = x, introducer_id = Some y, beneficiary_id = v\<rparr>]"
    unfolding xy(3) by (rule update_new_row[OF xy(2)])
  have prov: "rs1 = accounts d @ [\<lparr>id_col = x, introducer_id = Some y, beneficiary_id = None\<rparr>]"
    by (simp add: xy(3) provisional_def)
  show ?thesis
  proof (cases "pg_count i rs1")
    case (Inl e)
    with Inr xy(1,2) prov show ?thesis
      by (auto simp: addAccount_try_def bind_io_def query_write_def query_read_def)
  next
    case cnt: (Inr cntRows)
    obtain r d3 where blk:
      "beneficiary_block i (case cntRows of [] \<Rightarrow> 1 | cnt # _ \<Rightarrow> cnt) ?d2 = (r, d3)"
      by (cases "beneficiary_block i (case cntRows of [] \<Rightarrow> 1 | cnt # _ \<Rightarrow> cnt) ?d2")
    from beneficiary_block_rows[of i "case cntRows of [] \<Rightarrow> 1 | cnt # _ \<Rightarrow> cnt" ?d2] blk
    have d3: "accounts d3 = rs1" by simp
    show ?thesis
    proof (cases r)
      case (Inl e)
      with Inr cnt blk d3 xy(1,2) prov show ?thesis
        by (auto simp: addAccount_try_def bind_io_def query_write_def query_read_def)
    next
      case b: (Inr b)
      show ?thesis
      proof (cases "pg_update b a rs1")
        case (Inl e)
        with Inr cnt blk d3 b xy(1,2) prov show ?thesis
          by (auto simp: addAccount_try_def bind_io_def query_write_def query_read_def)
      next
        case upd: (Inr rs4)
        from pg_update_Inr[OF upd] xy(1) new obtain v where
          "rs4 = accounts d @ [\<lparr>id_col = x, introducer_id = Some y, beneficiary_id = v\<rparr>]"
          by auto
        with Inr cnt blk d3 b upd xy(1,2) show ?thesis
          by (auto simp: addAccount_try_def bind_io_def query_write_def query_read_def return_io_def)
      qed
    qed
  qed
qed


lemma addAccount_num_rows:
  "accounts (snd (addAccount_num a i d)) = accounts (snd (addAccount_try a i d)) \<or>
   accounts (snd (addAccount_num a i d)) = accounts d"
  by (auto simp: addAccount_num_def split: prod.splits sum.splits)

lemma bulk_loop_rows:
  assumes "bulk_loop items acc d = (Inr cs, d')"
  shows "\<exists>suf. accounts d' = accounts d @ suf \<and>
           list_all (\<lambda>r. of_int4 (id_col r) \<in> fst ` set items) suf"
  using assms
proof (induction items arbitrary: acc d)
  case Nil
  then show ?case by (simp add: return_io_Inr)
next
  case (Cons item items)
  obtain a i where item: "item = (a, i)" by (cases item)
  from Cons.prems item obtain c dm where
    t: "addAccount_try a i d = (Inr c, dm)" and
    l: "bulk_loop items (acc @ [c]) dm = (Inr cs, d')"
    by (auto simp: bulk_loop_step bind_io_Inr throw_io_def split: if_splits)
  from addAccount_try_Inr[OF t] obtain x r where
    x: "int4_in a = Inr x" "accounts dm = accounts d @ [r]" "id_col r = x"
    by auto
  from Cons.IH[OF l] obtain suf where
    suf: "accounts d' = accounts dm @ suf"
      "list_all (\<lambda>r. of_int4 (id_col r) \<in> fst ` set items) suf"
    by blast
  from int4_in_Inr[OF x(1)] x(3) have "of_int4 (id_col r) = a" by simp
  with suf x(2) item show ?case
    by (intro exI[of _ "r # suf"]) (auto simp: list_all_iff)
qed

lemma earlier_records_unchanged_num:
  "(\<exists>suf. accounts (snd (addAccount_num a i d)) = accounts d @ suf \<and> length suf \<le> 1 \<and>
      list_all (\<lambda>r. of_int4 (id_col r) = a \<and> \<not> duplicates a (accounts d)) suf) \<and>
   (\<exists>suf. accounts (snd (addAccountsBulk_num items e)) = accounts e @ suf \<and>
      list_all (\<lambda>r. of_int4 (id_col r) \<in> fst ` set items) suf)"
proof (intro conjI)
  show "\<exists>suf. accounts (snd (addAccount_num a i d)) = accounts d @ suf \<and> length suf \<le> 1 \<and>
      list_all (\<lambda>r. of_int4 (id_col r) = a \<and> \<not> duplicates a (accounts d)) suf"
  proof (cases "accounts (snd (addAccount_num a i d)) = accounts d")
    case True
    then show ?thesis by (intro exI[of _ "[]"]) simp
  next
    case False
    with addAccount_num_rows[of a i d] addAccount_try_rows[of a i d]
    obtain x y b where x: "int4_in a = Inr x" "x \<notin> set (map id_col (accounts d))"
      "accounts (snd (addAccount_num a i d)) =
         accounts d @ [\<lparr>id_col = x, introducer_id = Some y, beneficiary_id = b\<rparr>]"
      by auto
    from int4_in_Inr[OF x(1)] x show ?thesis
      by (intro exI[of _ "[\<lparr>id_col = x, introducer_id = Some y, beneficiary_id = b\<rparr>]"])
         (simp add: duplicates_def)
  qed
next
  show "\<exists>suf. accounts (snd (addAccountsBulk_num items e)) = accounts e @ suf \<and>
      list_all (\<lambda>r. of_int4 (id_col r) \<in> fst ` set items) suf"
  proof (cases "items = []")
    case True
    then show ?thesis by (intro exI[of _ "[]"]) (simp add: addAccountsBulk_num_def)
  next
    case False
    obtain r dl where run: "bulk_loop items [] (e\<lparr>issued := issued e @ [BEGIN]\<rparr>) = (r, dl)"
      by (cases "bulk_loop items [] (e\<lparr>issued := issued e @ [BEGIN]\<rparr>)")
    show ?thesis
    proof (cases r)
      case (Inl err)
      with run False show ?thesis
        by (intro exI[of _ "[]"]) (simp add: addAccountsBulk_num_def)
    next
      case (Inr cs)
      with run have "bulk_loop items [] (e\<lparr>issued := issued e @ [BEGIN]\<rparr>) = (Inr cs, dl)"
        by simp
      from bulk_loop_rows[OF this] obtain suf where
        "accounts dl = accounts e @ suf"
        "list_all (\<lambda>r. of_int4 (id_col r) \<in> fst ` set items) suf"
        by auto
      with run Inr False show ?thesis
        by (intro exI[of _ suf]) (simp add: addAccountsBulk_num_def)
    qed
  qed
qed

section \<open>Which statements a creation sends\<close>

lemma reads_only_return: "reads_only (return_io x)"
  by (simp add: reads_only_def return_io_def)

lemma reads_only_query_read: "\<not> is_write s \<Longrightarrow> reads_only (query_read s f)"
  by (simp add: reads_only_def query_read_def)

lemma reads_only_bind:
  assumes "reads_only m" and "\<And>x. reads_only (f x)"
  shows "reads_only (bind_io m f)"
  unfolding reads_only_def
proof
  fix d
  obtain r dm where m: "m d = (r, dm)" by (cases "m d")
  from assms(1)[unfolded reads_only_def, rule_format, of d] m obtain n1 where
    n1: "issued dm = issued d @ n1" "filter is_write n1 = []" by auto
  show "\<exists>new. issued (snd (bind_io m f d)) = issued d @ new \<and> filter is_write new = []"
  proof (cases r)
    case (Inl e)
    with m n1 show ?thesis by (simp add: bind_io_def)
  next
    case (Inr x)
    from assms(2)[of x, unfolded reads_only_def, rule_format, of dm] obtain n2 where
      n2: "issued (snd (f x dm)) = issued dm @ n2" "filter is_write n2 = []" by auto
    with n1 have "issued (snd (f x dm)) = issued d @ (n1 @ n2) \<and> filter is_write (n1 @ n2) = []"
      by simp
    with Inr m show ?thesis unfolding bind_io_def by (simp del: append_assoc)
  qed
qed

lemma reads_only_beneficiary_block: "reads_only (beneficiary_block i n)"
  unfolding beneficiary_block_def Let_def
  by (auto intro!: reads_only_bind reads_only_return reads_only_query_read split: option.splits)

lemma beneficiary_block_issued:
  assumes "beneficiary_block i n d = (r, d')"
  shows "\<exists>new. issued d' = issued d @ new \<and> filter is_write new = []"
  using reads_only_beneficiary_block[of i n, unfolded reads_only_def, rule_format, of d] assms
  by simp

lemma addAccount_try_issued:
  "\<exists>new. issued (snd (addAccount_try a i d)) = issued d @ new \<and>
     (filter is_write new = [INSERT a i] \<or> (\<exists>b. filter is_write new = [INSERT a i, UPDATE b a]))"
proof (cases "pg_insert a i (accounts d)")
  case (Inl e)
  then show ?thesis by (simp add: addAccount_try_insert_fails)
next
  case (Inr rs1)
  let ?d1 = "d\<lparr>accounts := rs1, issued := issued d @ [INSERT a i]\<rparr>"
  let ?d2 = "?d1\<lparr>issued := issued ?d1 @ [SELECT_COUNT i]\<rparr>"
  show ?thesis
  proof (cases "pg_count i rs1")
    case (Inl e)
    with Inr show ?thesis
      by (auto simp: addAccount_try_def bind_io_def query_write_def query_read_def)
  next
    case cnt: (Inr cntRows)
    obtain r d3 where blk:
      "beneficiary_block i (case cntRows of [] \<Rightarrow> 1 | cnt # _ \<Rightarrow> cnt) ?d2 = (r, d3)"
      by (cases "beneficiary_block i (case cntRows of [] \<Rightarrow> 1 | cnt # _ \<Rightarrow> cnt) ?d2")
    from beneficiary_block_issued[OF blk] obtain reads where
      reads: "issued d3 = issued d @ ([INSERT a i, SELECT_COUNT i] @ reads)"
        "filter is_write reads = []"
      by auto
    show ?thesis
    proof (cases r)
      case (Inl e)
      with Inr cnt blk reads show ?thesis
        by (auto simp: addAccount_try_def bind_io_def query_write_def query_read_def)
    next
      case b: (Inr b)
      have "issued (snd (addAccount_try a i d)) = issued d3 @ [UPDATE b a]"
        using Inr cnt blk b
        by (auto simp: addAccount_try_def bind_io_def query_write_def query_read_def
            return_io_def split: sum.splits)
      with reads have "issued (snd (addAccount_try a i d)) =
          issued d @ ([INSERT a i, SELECT_COUNT i] @ reads @ [UPDATE b a]) \<and>
          filter is_write ([INSERT a i, SELECT_COUNT i] @ reads @ [UPDATE b a]) =
            [INSERT a i, UPDATE b a]"
        by simp
      then show ?thesis by blast
    qed
  qed
qed

lemma addAccount_try_Inr_issued:
  assumes "addAccount_try a i d = (Inr cr, d')"
  shows "\<exists>new. issued d' = issued d @ new \<and> filter is_write new = writes_of cr"
proof -
  from assms obtain u d1 cntRows d2 b d3 u' where
    s1: "query_write (INSERT a i) (pg_insert a i) d = (Inr u, d1)" and
    s2: "query_read (SELECT_COUNT i) (pg_count i) d1 = (Inr cntRows, d2)" and
    s3: "beneficiary_block i (case cntRows of [] \<Rightarrow> 1 | cnt # _ \<Rightarrow> cnt) d2 = (Inr b, d3)" and
    s4: "query_write (UPDATE b a) (pg_update b a) d3 = (Inr u', d')" and
    c: "cr = Created a i b"
    by (auto simp: addAccount_try_def bind_io_Inr return_io_Inr)
  from s1 have i1: "issued d1 = issued d @ [INSERT a i]" by (auto simp: query_write_Inr)
  from s2 have i2: "issued d2 = issued d1 @ [SELECT_COUNT i]" by (auto simp: query_read_Inr)
  from beneficiary_block_issued[OF s3] obtain reads where
    i3: "issued d3 = issued d2 @ reads" "filter is_write reads = []" by auto
  from s4 have i4: "issued d' = issued d3 @ [UPDATE b a]" by (auto simp: query_write_Inr)
  from i1 i2 i3 i4 c
  have "issued d' = issued d @ ([INSERT a i, SELECT_COUNT i] @ reads @ [UPDATE b a]) \<and>
        filter is_write ([INSERT a i, SELECT_COUNT i] @ reads @ [UPDATE b a]) = writes_of cr"
    by simp
  then show ?thesis by blast
qed

lemma bulk_loop_Inr_issued:
  assumes "bulk_loop items acc d = (Inr cs, d')"
  shows "\<exists>new added. cs = acc @ added \<and> issued d' = issued d @ new \<and>
           filter is_write new = concat (map writes_of added)"
  using assms
proof (induction items arbitrary: acc d)
  case Nil
  then show ?case by (simp add: return_io_Inr)
next
  case (Cons item items)
  obtain a i where item: "item = (a, i)" by (cases item)
  from Cons.prems item obtain c dm where
    t: "addAccount_try a i d = (Inr c, dm)" and
    l: "bulk_loop items (acc @ [c]) dm = (Inr cs, d')"
    by (auto simp: bulk_loop_step bind_io_Inr throw_io_def split: if_splits)
  from addAccount_try_Inr_issued[OF t] obtain n1 where
    n1: "issued dm = issued d @ n1" "filter is_write n1 = writes_of c" by auto
  from Cons.IH[OF l] obtain n2 added where
    n2: "cs = (acc @ [c]) @ added" "issued d' = issued dm @ n2"
      "filter is_write n2 = concat (map writes_of added)"
    by blast
  from n1 n2 have "cs = acc @ (c # added) \<and> issued d' = issued d @ (n1 @ n2) \<and>
      filter is_write (n1 @ n2) = concat (map writes_of (c # added))"
    by simp
  then show ?case by blast
qed

lemma addAccount_num_issued:
  "\<exists>new. issued (snd (addAccount_num a i d)) = issued d @ new \<and>
     (filter is_write new = [] \<or> filter is_write new = [INSERT a i] \<or>
      (\<exists>b. filter is_write new = [INSERT a i, UPDATE b a]))"
proof (cases "\<not> isFinite a \<or> \<not> isFinite i")
  case True
  then have "snd (addAccount_num a i d) = d" by (auto simp: addAccount_num_def)
  then show ?thesis by simp
next
  case False
  then have "snd (addAccount_num a i d) = snd (addAccount_try a i d)"
    by (auto simp: addAccount_num_def split: prod.splits sum.splits)
  with addAccount_try_issued[of a i d] show ?thesis by auto
qed

lemma addAccountsBulk_num_issued:
  assumes "addAccountsBulk_num items e = (Response 200 (ResultsBody cs), e')"
  shows "\<exists>new. issued e' = issued e @ new \<and> filter is_write new = concat (map writes_of cs)"
proof -
  from assms obtain dl where
    l: "bulk_loop items [] (e\<lparr>issued := issued e @ [BEGIN]\<rparr>) = (Inr cs, dl)" and
    e': "e' = dl\<lparr>issued := issued dl @ [COMMIT]\<rparr>"
    by (auto simp: addAccountsBulk_num_def split: if_splits prod.splits sum.splits)
  from bulk_loop_Inr_issued[OF l] obtain new where
    new: "issued dl = (issued e @ [BEGIN]) @ new" "filter is_write new = concat (map writes_of cs)"
    by auto
  with e' have "issued e' = issued e @ ([BEGIN] @ new @ [COMMIT]) \<and>
      filter is_write ([BEGIN] @ new @ [COMMIT]) = concat (map writes_of cs)"
    by simp
  then show ?thesis by blast
qed

section \<open>The even referrals\<close>

lemma record_with_id_append:
  "record_with_id L x = Some r \<Longrightarrow> record_with_id (L @ M) x = Some r"
  unfolding record_with_id_def by (induction L) auto

lemma one_hop:
  assumes "record_with_id L X = Some rx" "introducer_id rx = Some Y"
    "record_with_id L Y = Some ry" "even (Suc (referral_count L X))"
  shows "assign X (L @ [provisional x X]) = beneficiary_id ry"
  using assms
  by (simp add: assign_def record_with_id_append) (simp add: referral_count_def provisional_def)

lemma addAccount_try_one_hop:
  assumes "record_with_id (accounts d) X = Some rx" "introducer_id rx = Some Y"
    "record_with_id (accounts d) Y = Some ry" "even (Suc (referral_count (accounts d) X))"
    and "addAccount_try a (of_int4 X) d = (Inr c, dm)"
  shows "created_beneficiary c = map_option of_int4 (beneficiary_id ry)"
proof -
  from addAccount_try_Inr[OF assms(5)] obtain x y where
    "int4_in (of_int4 X) = Inr y"
    "c = Created a (of_int4 X) (map_option of_int4 (assign y (accounts d @ [provisional x y])))"
    by blast
  with int4_in_of_int4[of X y] one_hop[OF assms(1-4), of x] show ?thesis by simp
qed

lemma addAccount_num_seq_assigned:
  "fst (addAccount_num_seq items d) = map (\<lambda>c. Response 200 (AccountBody c)) cs \<Longrightarrow>
   assigned_by_rule (accounts d) cs"
proof (induction items arbitrary: d cs)
  case Nil
  then show ?case by simp
next
  case (Cons item items)
  obtain a i where item: "item = (a, i)" by (cases item)
  obtain r d1 where step: "addAccount_num a i d = (r, d1)" by (cases "addAccount_num a i d")
  obtain rs d2 where rest: "addAccount_num_seq items d1 = (rs, d2)"
    by (cases "addAccount_num_seq items d1")
  from Cons.prems item step rest obtain c cs' where
    cs: "cs = c # cs'" "r = Response 200 (AccountBody c)"
        "rs = map (\<lambda>c. Response 200 (AccountBody c)) cs'"
    by (cases cs) auto
  from step cs(2) addAccount_num_200[of a i d "AccountBody c" d1]
  have t: "addAccount_try a i d = (Inr c, d1)" by simp
  from addAccount_try_Inr[OF t] obtain x y where
    xy: "int4_in a = Inr x" "int4_in i = Inr y"
      "c = Created a i (map_option of_int4 (assign y (accounts d @ [provisional x y])))"
      "accounts d1 = accounts d @ [\<lparr>id_col = x, introducer_id = Some y,
              beneficiary_id = assign y (accounts d @ [provisional x y])\<rparr>]"
    by blast
  from rest cs(3) Cons.IH[of d1 cs'] have "assigned_by_rule (accounts d1) cs'" by simp
  with xy show ?case unfolding cs(1) by (simp add: referral_count_new)
qed

text \<open>
  Every triple of a sequence assigned by the rule that names \<open>X\<close> at an even count gets
  the beneficiary stored with the introducer of \<open>X\<close>: the records of \<open>X\<close> and of its
  introducer stay the first of their \<open>id\<close> while rows are added.
\<close>

lemma assigned_by_rule_one_hop:
  assumes "assigned_by_rule L cs"
    and "record_with_id L X = Some rx" and "introducer_id rx = Some Y"
    and "record_with_id L Y = Some ry"
    and "n < length cs" and "created_introducer (cs ! n) = of_int4 X"
    and "even (referral_count L X + referrals X (take (Suc n) cs))"
  shows "created_beneficiary (cs ! n) = map_option of_int4 (beneficiary_id ry)"
  using assms
proof (induction cs arbitrary: L n)
  case Nil
  then show ?case by simp
next
  case (Cons c cs)
  obtain a i b where c: "c = Created a i b" by (cases c)
  from Cons.prems(1) c obtain x y where
    xy: "int4_in a = Inr x" "int4_in i = Inr y"
      "b = map_option of_int4 (assign y (L @ [provisional x y]))"
      "assigned_by_rule (L @ [\<lparr>id_col = x, introducer_id = Some y,
          beneficiary_id = assign y (L @ [provisional x y])\<rparr>]) cs"
    by (auto simp: Let_def split: sum.splits)
  from int4_in_Inr[OF xy(2)] have i: "i = of_int4 y" .
  show ?case
  proof (cases n)
    case 0
    with Cons.prems(6) c i have y: "y = X" by (simp add: of_int4_inj)
    from 0 Cons.prems(7) c i y have "even (Suc (referral_count L X))"
      by (simp add: referrals_def)
    from one_hop[OF Cons.prems(2,3,4) this, of x] 0 c xy(3) y show ?thesis by simp
  next
    case (Suc m)
    let ?L' = "L @ [\<lparr>id_col = x, introducer_id = Some y,
          beneficiary_id = assign y (L @ [provisional x y])\<rparr>]"
    have cnt: "referral_count ?L' X + referrals X (take (Suc m) cs) =
        referral_count L X + referrals X (take (Suc n) (c # cs))"
      using Suc c i by (simp add: referral_count_def referrals_def of_int4_inj)
    from Suc Cons.prems(5,6) have m: "m < length cs" "created_introducer (cs ! m) = of_int4 X"
      by simp_all
    from Cons.prems(7) cnt have ev: "even (referral_count ?L' X + referrals X (take (Suc m) cs))"
      by simp
    from Cons.IH[OF xy(4) record_with_id_append[OF Cons.prems(2)] Cons.prems(3)
        record_with_id_append[OF Cons.prems(4)] m ev] Suc
    show ?thesis by simp
  qed
qed

section \<open>One introducer, many referrals\<close>

lemma upt_from_one: "[1..<Suc (Suc m)] = 1 # map Suc [1..<Suc m]"
  by (simp add: upt_conv_Cons map_Suc_upt del: upt_Suc)

lemma alt_from_alternates:
  "alt_from n X cs \<longleftrightarrow>
     map created_beneficiary cs =
     map (\<lambda>k. if odd (n + k) then Some (of_int4 X) else None) [1..<Suc (length cs)]"
proof (induction cs arbitrary: n)
  case Nil
  show ?case by simp
next
  case (Cons c cs)
  have "map (\<lambda>k. if odd (n + k) then Some (of_int4 X) else None) [1..<Suc (Suc (length cs))] =
      (if odd (Suc n) then Some (of_int4 X) else None) #
      map (\<lambda>k. if odd (Suc n + k) then Some (of_int4 X) else None) [1..<Suc (length cs)]"
    by (simp only: upt_from_one list.map map_map comp_def) simp
  with Cons.IH[of "Suc n"] show ?case by (simp del: upt_Suc)
qed

lemma list_ex_upt_Suc: "list_ex P [0..<Suc m] = (P 0 \<or> list_ex (\<lambda>k. P (Suc k)) [0..<m])"
  by (auto simp: list_ex_iff less_Suc_eq_0_disj simp del: upt_Suc)

lemma early_from_created_early:
  "early_from n X cs \<longleftrightarrow>
     list_ex (\<lambda>k. even (n + k) \<and> created_id (cs ! k) = of_int4 X) [0..<length cs - 1]"
proof (induction cs arbitrary: n)
  case Nil
  show ?case by simp
next
  case (Cons c cs)
  show ?case
  proof (cases cs)
    case Nil
    then show ?thesis by simp
  next
    case (Cons c' cs')
    then have l: "length (c # cs) - 1 = Suc (length cs - 1)" by simp
    show ?thesis
      unfolding l list_ex_upt_Suc early_from.simps Cons.IH[of "Suc n"]
      using Cons by auto
  qed
qed


lemma assign_harmless:
  assumes "harmless X L"
  shows "assign X L = (if odd (referral_count L X) then Some X else None)"
proof (cases "record_with_id L X")
  case None
  then show ?thesis by (simp add: assign_def)
next
  case (Some r)
  then have "r \<in> set L" "id_col r = X"
    by (auto simp: record_with_id_def find_Some_iff in_set_conv_nth)
  with assms have "introducer_id r = Some X" "beneficiary_id r = None"
    by (auto simp: harmless_def list_all_iff)
  with Some show ?thesis by (simp add: assign_def)
qed

lemma record_with_id_new:
  "x \<notin> set (map id_col L) \<Longrightarrow> record_with_id (L @ [r]) x = (if id_col r = x then Some r else None)"
  unfolding record_with_id_def by (induction L) auto

lemma addAccount_num_seq_length: "length (fst (addAccount_num_seq items d)) = length items"
proof (induction items arbitrary: d)
  case Nil
  show ?case by simp
next
  case (Cons item items)
  obtain a i where item: "item = (a, i)" by (cases item)
  obtain r d1 where step: "addAccount_num a i d = (r, d1)" by (cases "addAccount_num a i d")
  obtain rs d2 where rest: "addAccount_num_seq items d1 = (rs, d2)"
    by (cases "addAccount_num_seq items d1")
  from Cons[of d1] rest item step show ?case by simp
qed

text \<open>
  Referrals of one introducer \<open>X\<close>, all answered with status 200, from a ledger on which
  every record of \<open>X\<close> is harmless: the beneficiaries alternate exactly when \<open>X\<close> is
  not created at an odd place before the last.
\<close>

lemma seq_alternation:
  assumes "harmless X (accounts d)"
    and "list_all (\<lambda>item. snd item = of_int4 X) items"
    and "fst (addAccount_num_seq items d) = map (\<lambda>c. Response 200 (AccountBody c)) cs"
  shows "alt_from (referral_count (accounts d) X) X cs \<longleftrightarrow>
         \<not> early_from (referral_count (accounts d) X) X cs"
  using assms
proof (induction items arbitrary: d cs)
  case Nil
  then show ?case by simp
next
  case (Cons item items)
  let ?n = "referral_count (accounts d) X"
  obtain a where item: "item = (a, of_int4 X)"
    using Cons.prems(2) by (cases item) auto
  obtain r d1 where step: "addAccount_num a (of_int4 X) d = (r, d1)"
    by (cases "addAccount_num a (of_int4 X) d")
  obtain rs d2 where rest: "addAccount_num_seq items d1 = (rs, d2)"
    by (cases "addAccount_num_seq items d1")
  from Cons.prems(3) item step rest obtain c cs' where
    cs: "cs = c # cs'" "r = Response 200 (AccountBody c)"
        "rs = map (\<lambda>c. Response 200 (AccountBody c)) cs'"
    by (cases cs) auto
  from rest cs(3) addAccount_num_seq_length[of items d1] have len: "length cs' = length items"
    by simp
  from step cs(2) addAccount_num_200[of a "of_int4 X" d "AccountBody c" d1]
  have t: "addAccount_try a (of_int4 X) d = (Inr c, d1)" by simp
  from addAccount_try_Inr[OF t] obtain x y where
    xy: "int4_in a = Inr x" "int4_in (of_int4 X) = Inr y" "x \<notin> set (map id_col (accounts d))"
      "c = Created a (of_int4 X) (map_option of_int4 (assign y (accounts d @ [provisional x y])))"
      "accounts d1 = accounts d @ [\<lparr>id_col = x, introducer_id = Some y,
              beneficiary_id = assign y (accounts d @ [provisional x y])\<rparr>]"
    by blast
  from int4_in_of_int4[OF xy(2)] have y: "y = X" .
  from int4_in_Inr[OF xy(1)] have a: "a = of_int4 x" .
  let ?L = "accounts d @ [provisional x X]"
  from Cons.prems(1) have hL: "harmless X ?L"
    by (simp add: harmless_def provisional_def)
  have cnt: "referral_count ?L X = Suc ?n"
    by (simp add: referral_count_def provisional_def)
  from assign_harmless[OF hL] cnt
  have asg: "assign X ?L = (if odd (Suc ?n) then Some X else None)" by simp
  from xy(5) y have cnt1: "referral_count (accounts d1) X = Suc ?n"
    by (simp add: referral_count_def)
  from xy(4) y asg have hd: "created_beneficiary c =
      (if odd (Suc ?n) then Some (of_int4 X) else None)"
    by simp
  from xy(4) a have cid: "created_id c = of_int4 X \<longleftrightarrow> x = X"
    by (simp add: of_int4_inj)
  from Cons.prems(2) have items: "list_all (\<lambda>item. snd item = of_int4 X) items" by simp
  from rest cs(3) have run: "fst (addAccount_num_seq items d1) =
      map (\<lambda>c. Response 200 (AccountBody c)) cs'"
    by simp
  show ?case
  proof (cases "x = X \<and> odd (Suc ?n)")
    case False
    with xy(5) y asg Cons.prems(1) have h1: "harmless X (accounts d1)"
      by (auto simp: harmless_def)
    from Cons.IH[OF h1 items run] cnt1 hd cid False show ?thesis
      unfolding cs(1) by auto
  next
    case True
    show ?thesis
    proof (cases cs')
      case Nil
      with hd show ?thesis unfolding cs(1) by simp
    next
      case (Cons c2 cs2)
      with len obtain item2 items2 where items2: "items = item2 # items2" by (cases items) auto
      with items obtain a2 where item2: "item2 = (a2, of_int4 X)" by (cases item2) auto
      obtain r2 d3 where step2: "addAccount_num a2 (of_int4 X) d1 = (r2, d3)"
        by (cases "addAccount_num a2 (of_int4 X) d1")
      with run items2 item2 Cons have "r2 = Response 200 (AccountBody c2)"
        by (auto split: prod.splits)
      with step2 addAccount_num_200[of a2 "of_int4 X" d1 "AccountBody c2" d3]
      have t2: "addAccount_try a2 (of_int4 X) d1 = (Inr c2, d3)" by simp
      let ?rx = "\<lparr>id_col = X, introducer_id = Some X, beneficiary_id = Some X\<rparr>"
      from True xy(3,5) y asg have rec: "record_with_id (accounts d1) X = Some ?rx"
        by (simp add: record_with_id_new)
      from True cnt1 have ev: "even (Suc (referral_count (accounts d1) X))" by simp
      from addAccount_try_one_hop[OF rec _ rec ev t2]
      have "created_beneficiary c2 = Some (of_int4 X)" by simp
      with True Cons have "\<not> alt_from (Suc ?n) X cs'" by simp
      with True cid Cons show ?thesis unfolding cs(1) by simp
    qed
  qed
qed

lemma names_introducer_pairs:
  "list_all (names_introducer X) items \<Longrightarrow>
   \<exists>pairs. map converted items = map Inr pairs \<and>
           list_all (\<lambda>item. snd item = of_int4 X) pairs"
proof (induction items)
  case Nil
  show ?case by simp
next
  case (Cons item items)
  then obtain pairs where
    p: "map converted items = map Inr pairs" "list_all (\<lambda>item. snd item = of_int4 X) pairs"
    by auto
  from Cons.prems obtain q where q: "converted item = Inr q" "snd q = of_int4 X"
    by (auto simp: names_introducer_def split: sum.splits)
  with p have "map converted (item # items) = map Inr (q # pairs) \<and>
      list_all (\<lambda>item. snd item = of_int4 X) (q # pairs)"
    by simp
  then show ?case by blast
qed

text \<open>
  From a ledger without a record of \<open>X\<close> and without a referral of \<open>X\<close>: the
  characterisation in the words of the claim.
\<close>

lemma alternation_num:
  assumes "list_all (\<lambda>r. id_col r \<noteq> X \<and> introducer_id r \<noteq> Some X) (accounts d)"
    and "list_all (\<lambda>item. snd item = of_int4 X) items"
    and "fst (addAccount_num_seq items d) = map (\<lambda>c. Response 200 (AccountBody c)) cs"
  shows "alternates X cs \<longleftrightarrow> \<not> created_early X cs"
proof -
  from assms(1) have h: "harmless X (accounts d)"
    and zero: "referral_count (accounts d) X = 0"
    by (auto simp: list_all_iff harmless_def referral_count_def filter_empty_conv)
  from seq_alternation[OF h assms(2,3)] zero
  have "alt_from 0 X cs \<longleftrightarrow> \<not> early_from 0 X cs" by simp
  then show ?thesis
    by (simp add: alt_from_alternates early_from_created_early alternates_def created_early_def
        del: upt_Suc)
qed

section \<open>The batch and the single-item handler\<close>

text \<open>
  No step of a handler reads the record of the statements sent: two stores with the same
  rows give the same outcome and the same rows.
\<close>

lemma rows_only_return: "rows_only (return_io x)"
  by (simp add: rows_only_def return_io_def)

lemma rows_only_query_read: "rows_only (query_read s f)"
  by (simp add: rows_only_def query_read_def)

lemma rows_only_query_write: "rows_only (query_write s f)"
  by (auto simp: rows_only_def query_write_def split: sum.splits)

lemma rows_only_bind:
  assumes "rows_only m" and "\<And>x. rows_only (f x)"
  shows "rows_only (bind_io m f)"
  unfolding rows_only_def
proof (intro allI impI)
  fix d1 d2 :: db
  assume same: "accounts d1 = accounts d2"
  obtain r1 e1 where m1: "m d1 = (r1, e1)" by (cases "m d1")
  obtain r2 e2 where m2: "m d2 = (r2, e2)" by (cases "m d2")
  from assms(1)[unfolded rows_only_def, rule_format, OF same] m1 m2
  have "r2 = r1" and e: "accounts e1 = accounts e2"
    by simp_all
  with m2 have m2': "m d2 = (r1, e2)" by simp
  show "fst (bind_io m f d1) = fst (bind_io m f d2) \<and>
        accounts (snd (bind_io m f d1)) = accounts (snd (bind_io m f d2))"
  proof (cases r1)
    case (Inl err)
    show ?thesis unfolding bind_io_def m1 m2' Inl by (simp add: e)
  next
    case (Inr x)
    from assms(2)[of x, unfolded rows_only_def, rule_format, OF e]
    show ?thesis unfolding bind_io_def m1 m2' Inr by simp
  qed
qed

lemma rows_only_beneficiary_block: "rows_only (beneficiary_block i n)"
  unfolding beneficiary_block_def Let_def
  by (auto intro!: rows_only_bind rows_only_return rows_only_query_read split: option.splits)

lemma rows_only_addAccount_try: "rows_only (addAccount_try a i)"
  unfolding addAccount_try_def
  by (intro rows_only_bind rows_only_return rows_only_query_read rows_only_query_write
      rows_only_beneficiary_block)

lemma addAccount_try_same_rows:
  assumes "addAccount_try a i d1 = (Inr c, e1)" "accounts d2 = accounts d1"
  shows "\<exists>e2. addAccount_try a i d2 = (Inr c, e2) \<and> accounts e2 = accounts e1"
proof -
  note same = rows_only_addAccount_try[of a i, unfolded rows_only_def, rule_format, OF assms(2)]
  obtain r e2 where t2: "addAccount_try a i d2 = (r, e2)"
    by (cases "addAccount_try a i d2")
  from same show ?thesis unfolding t2 assms(1) by simp
qed

lemma bulk_loop_sequential:
  assumes "bulk_loop items acc d1 = (Inr cs, e1)" and "accounts d2 = accounts d1"
  shows "\<exists>new. cs = acc @ new \<and>
           fst (addAccount_num_seq items d2) = map (\<lambda>c. Response 200 (AccountBody c)) new \<and>
           accounts (snd (addAccount_num_seq items d2)) = accounts e1"
  using assms
proof (induction items arbitrary: acc d1 d2)
  case Nil
  then show ?case by (simp add: return_io_Inr)
next
  case (Cons item items)
  obtain a i where item: "item = (a, i)" by (cases item)
  from Cons.prems(1) item have fin: "isFinite a" "isFinite i"
    by (auto simp: bulk_loop_step throw_io_def split: if_splits)
  with Cons.prems(1) item obtain c dm where
    t: "addAccount_try a i d1 = (Inr c, dm)" and
    l: "bulk_loop items (acc @ [c]) dm = (Inr cs, e1)"
    by (auto simp: bulk_loop_step bind_io_Inr)
  from addAccount_try_same_rows[OF t Cons.prems(2)] obtain dm2 where
    t2: "addAccount_try a i d2 = (Inr c, dm2)" and same: "accounts dm2 = accounts dm"
    by blast
  from t2 fin have single: "addAccount_num a i d2 = (Response 200 (AccountBody c), dm2)"
    by (simp add: addAccount_num_def)
  from Cons.IH[OF l same] obtain new where
    new: "cs = (acc @ [c]) @ new"
      "fst (addAccount_num_seq items dm2) = map (\<lambda>c. Response 200 (AccountBody c)) new"
      "accounts (snd (addAccount_num_seq items dm2)) = accounts e1"
    by blast
  with single item show ?case
    by (intro exI[of _ "c # new"]) (simp add: case_prod_beta)
qed

lemma batch_is_sequential_num:
  assumes "addAccountsBulk_num items d = (Response 200 (ResultsBody cs), d')"
  shows "fst (addAccount_num_seq items d) = map (\<lambda>c. Response 200 (AccountBody c)) cs \<and>
         accounts (snd (addAccount_num_seq items d)) = accounts d' \<and>
         map (\<lambda>c. (created_id c, created_introducer c)) cs = items"
proof -
  from addAccountsBulk_num_200[OF assms] obtain dl where
    l: "bulk_loop items [] (d\<lparr>issued := issued d @ [BEGIN]\<rparr>) = (Inr cs, dl)" and
    dl: "accounts d' = accounts dl"
    by auto
  have "accounts d = accounts (d\<lparr>issued := issued d @ [BEGIN]\<rparr>)" by simp
  from bulk_loop_sequential[OF l this] bulk_loop_Inr[OF l] dl show ?thesis by auto
qed

section \<open>What the validation accepts\<close>

lemma throws_only_return: "throws_only P (return_io x)"
  by (simp add: throws_only_def return_io_def)

lemma throws_only_bind:
  assumes "throws_only P m" and "\<And>x. throws_only P (f x)"
  shows "throws_only P (bind_io m f)"
  unfolding throws_only_def
proof (intro allI impI)
  fix d e d'
  assume run: "bind_io m f d = (Inl e, d')"
  obtain r dm where m: "m d = (r, dm)" by (cases "m d")
  show "P e"
  proof (cases r)
    case (Inl e0)
    with run m have "e0 = e" by (simp add: bind_io_def)
    with Inl m assms(1) show ?thesis by (auto simp: throws_only_def)
  next
    case (Inr x)
    with run m have "f x dm = (Inl e, d')" by (simp add: bind_io_def)
    with assms(2)[of x] show ?thesis by (auto simp: throws_only_def)
  qed
qed

lemma throws_only_query_read:
  assumes "\<And>rs e. f rs = Inl e \<Longrightarrow> P e"
  shows "throws_only P (query_read s f)"
  using assms by (auto simp: throws_only_def query_read_def)

lemma throws_only_query_write:
  assumes "\<And>rs e. f rs = Inl e \<Longrightarrow> P e"
  shows "throws_only P (query_write s f)"
  using assms by (auto simp: throws_only_def query_write_def split: sum.splits)

lemma int4_in_from_server: "int4_in x = Inl e \<Longrightarrow> from_server e"
  by (auto simp: int4_in_def from_server_def split: jsnum.splits if_splits)

lemma pg_insert_from_server: "pg_insert a i rs = Inl e \<Longrightarrow> from_server e"
  by (auto simp: pg_insert_def split: sum.splits if_splits dest: int4_in_from_server)
     (simp add: from_server_def)

lemma pg_count_from_server: "pg_count i rs = Inl e \<Longrightarrow> from_server e"
  by (auto simp: pg_count_def split: sum.splits dest: int4_in_from_server)

lemma pg_select_introducer_id_from_server:
  "pg_select_introducer_id i rs = Inl e \<Longrightarrow> from_server e"
  by (auto simp: pg_select_introducer_id_def split: sum.splits dest: int4_in_from_server)

lemma pg_select_beneficiary_id_from_server:
  "pg_select_beneficiary_id i rs = Inl e \<Longrightarrow> from_server e"
  by (auto simp: pg_select_beneficiary_id_def split: sum.splits dest: int4_in_from_server)

lemma pg_update_from_server: "pg_update b a rs = Inl e \<Longrightarrow> from_server e"
  by (cases b; cases "int4_in (the b)")
     (auto simp: pg_update_def split: sum.splits dest: int4_in_from_server)

lemma throws_only_select_introducer_id:
  "throws_only from_server (query_read s (pg_select_introducer_id i))"
  by (rule throws_only_query_read) (rule pg_select_introducer_id_from_server)

lemma throws_only_select_beneficiary_id:
  "throws_only from_server (query_read s (pg_select_beneficiary_id i))"
  by (rule throws_only_query_read) (rule pg_select_beneficiary_id_from_server)

lemma throws_only_count: "throws_only from_server (query_read s (pg_count i))"
  by (rule throws_only_query_read) (rule pg_count_from_server)

lemma throws_only_insert: "throws_only from_server (query_write s (pg_insert a i))"
  by (rule throws_only_query_write) (rule pg_insert_from_server)

lemma throws_only_update: "throws_only from_server (query_write s (pg_update b a))"
  by (rule throws_only_query_write) (rule pg_update_from_server)

lemma throws_only_beneficiary_block: "throws_only from_server (beneficiary_block i n)"
  unfolding beneficiary_block_def Let_def
  by (auto intro!: throws_only_bind throws_only_return throws_only_select_introducer_id
      throws_only_select_beneficiary_id split: option.splits)

lemma throws_only_addAccount_try: "throws_only from_server (addAccount_try a i)"
  unfolding addAccount_try_def
  by (intro throws_only_bind throws_only_return throws_only_count throws_only_insert
      throws_only_update throws_only_beneficiary_block)

lemma throws_only_bulk_loop:
  "list_all valid_item items \<Longrightarrow> throws_only from_server (bulk_loop items acc)"
proof (induction items arbitrary: acc)
  case Nil
  show ?case by (simp add: throws_only_return)
next
  case (Cons item items)
  obtain a i where item: "item = (a, i)" by (cases item)
  from Cons.prems item have v: "isFinite a" "isFinite i" and rest: "list_all valid_item items"
    by (auto simp: valid_item_def list_all_iff)
  show ?case unfolding item bulk_loop_step using v
    by (simp add: throws_only_bind[OF throws_only_addAccount_try Cons.IH[OF rest]])
qed

lemma valid_items_no_validation_error:
  assumes "list_all valid_item items"
  shows "fst (addAccountsBulk_num items d) \<noteq>
           Response 500 (ErrorBody [Str ''Invalid item: account_id and introducer_id must be numbers''])"
proof (cases "items = []")
  case True
  then show ?thesis by (simp add: addAccountsBulk_num_def)
next
  case False
  obtain r dl where run: "bulk_loop items [] (d\<lparr>issued := issued d @ [BEGIN]\<rparr>) = (r, dl)"
    by (cases "bulk_loop items [] (d\<lparr>issued := issued d @ [BEGIN]\<rparr>)")
  show ?thesis
  proof (cases r)
    case (Inl e)
    with run throws_only_bulk_loop[OF assms, of "[]"] have "from_server e"
      by (auto simp: throws_only_def)
    with run Inl False show ?thesis
      by (simp add: addAccountsBulk_num_def from_server_def)
  next
    case (Inr cs)
    with run False show ?thesis by (simp add: addAccountsBulk_num_def)
  qed
qed

lemma addAccount_num_status:
  "(status (fst (addAccount_num a i d)) = Some 400 \<longleftrightarrow> \<not> valid_item (a, i)) \<and>
   (valid_item (a, i) \<longrightarrow>
      status (fst (addAccount_num a i d)) \<in> {Some 200, Some 409, Some 500})"
  by (auto simp: addAccount_num_def valid_item_def split: prod.splits sum.splits)

lemma plain_fields_accepted:
  assumes "plain_value (field req_body ''account_id'')"
    and "plain_value (field req_body ''introducer_id'')"
  shows "accepted req_body"
proof -
  from plain_value_finite[OF assms(1)] plain_value_finite[OF assms(2)] obtain q1 q2 where
    "Number (field req_body ''account_id'') = Inr (Fin q1)"
    "Number (field req_body ''introducer_id'') = Inr (Fin q2)"
    by blast
  then show ?thesis by (simp add: accepted_def converted_def valid_item_def)
qed

section \<open>A creation that goes through\<close>

text \<open>
  On a table whose numbers are all in the range of the columns, a creation with an
  unused id and two parameters that the server accepts as integers returns: no later
  statement of the handler can fail. The handler leaves the table in that range.
\<close>

lemma int4_in_range: "int4_in x = Inr n \<Longrightarrow> int4 n"
  by (auto simp: int4_in_def int4_def split: jsnum.splits if_splits)

lemma int4_in_of_int4_range: "int4 n \<Longrightarrow> int4_in (of_int4 n) = Inr n"
proof -
  assume r: "int4 n"
  then have "\<bar>n\<bar> < 10 ^ 21" by (simp add: int4_def abs_less_iff)
  then have "\<bar>(of_int n :: rat)\<bar> < 10 ^ 21"
    by (metis of_int_abs of_int_less_iff of_int_numeral of_int_power)
  with r show ?thesis by (simp add: int4_in_def of_int4_def int4_def)
qed

lemma find_int4:
  "int4_ledger L \<Longrightarrow> find P L = Some r \<Longrightarrow>
   int4 (id_col r) \<and> int4_opt (introducer_id r) \<and> int4_opt (beneficiary_id r)"
  by (auto simp: int4_ledger_def list_all_iff find_Some_iff)

lemma assign_int4:
  assumes "int4_ledger L" "int4 y"
  shows "int4_opt (assign y L)"
  using assms
  by (auto simp: assign_def record_with_id_def split: option.splits dest: find_int4)

lemma beneficiary_block_succeeds:
  assumes "int4_ledger (accounts d)" "int4_in i = Inr y"
  shows "\<exists>b d'. beneficiary_block i n d = (Inr b, d')"
proof (cases "n mod 2 = 1")
  case True
  then show ?thesis by (simp add: beneficiary_block_def return_io_def)
next
  case False
  let ?d1 = "d\<lparr>issued := issued d @ [SELECT_introducer_id i]\<rparr>"
  have q1: "query_read (SELECT_introducer_id i) (pg_select_introducer_id i) d =
      (Inr (map introducer_id (filter (\<lambda>r. id_col r = y) (accounts d))), ?d1)"
    using assms(2) by (simp add: query_read_def pg_select_introducer_id_def)
  show ?thesis
  proof (cases "find (\<lambda>r. id_col r = y) (accounts d)")
    case None
    with False q1 show ?thesis
      by (simp add: beneficiary_block_def bind_io_def Let_def first_row_find return_io_def)
  next
    case (Some r)
    show ?thesis
    proof (cases "introducer_id r")
      case None
      with False q1 Some show ?thesis
        by (simp add: beneficiary_block_def bind_io_def Let_def first_row_find return_io_def)
    next
      case g: (Some g)
      from find_int4[OF assms(1) Some] g have "int4 g" by simp
      from int4_in_of_int4_range[OF this] False q1 Some g show ?thesis
        by (simp add: beneficiary_block_def bind_io_def Let_def first_row_find return_io_def
            query_read_def pg_select_beneficiary_id_def)
    qed
  qed
qed

lemma addAccount_try_succeeds:
  assumes wf: "int4_ledger (accounts d)"
    and x: "int4_in a = Inr x" and y: "int4_in i = Inr y"
    and fresh: "x \<notin> set (map id_col (accounts d))"
  shows "\<exists>cr d'. addAccount_try a i d = (Inr cr, d')"
proof -
  let ?L = "accounts d @ [provisional x y]"
  let ?d1 = "d\<lparr>accounts := ?L, issued := issued d @ [INSERT a i]\<rparr>"
  let ?d2 = "?d1\<lparr>issued := issued ?d1 @ [SELECT_COUNT i]\<rparr>"
  have s1: "query_write (INSERT a i) (pg_insert a i) d = (Inr (), ?d1)"
    using x y fresh by (simp add: query_write_def pg_insert_def provisional_def)
  have s2: "query_read (SELECT_COUNT i) (pg_count i) ?d1 = (Inr [referral_count ?L y], ?d2)"
    using y by (simp add: query_read_def pg_count_def referral_count_def)
  from wf int4_in_range[OF x] int4_in_range[OF y] have wfL: "int4_ledger ?L"
    by (simp add: int4_ledger_def provisional_def)
  then have "int4_ledger (accounts ?d2)" by simp
  from beneficiary_block_succeeds[OF this y] obtain b d3 where
    s3: "beneficiary_block i (referral_count ?L y) ?d2 = (Inr b, d3)" by blast
  have acc2: "accounts ?d2 = ?L" by simp
  from beneficiary_block_Inr[OF acc2 y s3]
  have b: "b = map_option of_int4 (assign y ?L)" and d3: "accounts d3 = ?L" by simp_all
  from assign_int4[OF wfL int4_in_range[OF y]] have rng: "int4_opt (assign y ?L)" .
  have s4: "\<exists>rs. pg_update b a ?L = Inr rs"
  proof (cases "assign y ?L")
    case None
    with b x show ?thesis by (simp add: pg_update_def)
  next
    case (Some v)
    with rng have "int4 v" by simp
    from int4_in_of_int4_range[OF this] b Some x show ?thesis by (simp add: pg_update_def)
  qed
  then obtain rs where upd: "pg_update b a (accounts d3) = Inr rs" using d3 by auto
  have s4': "query_write (UPDATE b a) (pg_update b a) d3 =
      (Inr (), d3\<lparr>accounts := rs, issued := issued d3 @ [UPDATE b a]\<rparr>)"
    by (simp add: query_write_def upd)
  show ?thesis
    unfolding addAccount_try_def
    using s3 s4' by (simp add: bind_io_def s1 s2 return_io_def)
qed

lemma addAccount_try_int4:
  assumes wf: "int4_ledger (accounts d)"
  shows "int4_ledger (accounts (snd (addAccount_try a i d)))"
proof (cases "pg_insert a i (accounts d)")
  case (Inl e)
  then have "accounts (snd (addAccount_try a i d)) = accounts d"
    by (simp add: addAccount_try_def bind_io_def query_write_def)
  with wf show ?thesis by simp
next
  case (Inr rs)
  then obtain x y where x: "int4_in a = Inr x" and y: "int4_in i = Inr y"
    and fresh: "x \<notin> set (map id_col (accounts d))"
    by (auto simp: pg_insert_Inr)
  from addAccount_try_succeeds[OF wf x y fresh] obtain cr d' where
    s: "addAccount_try a i d = (Inr cr, d')" by blast
  from addAccount_try_Inr[OF s] obtain x' y' where
    xy: "int4_in a = Inr x'" "int4_in i = Inr y'"
      "accounts d' = accounts d @ [\<lparr>id_col = x', introducer_id = Some y',
          beneficiary_id = assign y' (accounts d @ [provisional x' y'])\<rparr>]"
    by blast
  from xy(1,2) x y have e: "x' = x" "y' = y" by simp_all
  from wf int4_in_range[OF x] int4_in_range[OF y]
  have "int4_ledger (accounts d @ [provisional x y])"
    by (simp add: int4_ledger_def provisional_def)
  from assign_int4[OF this int4_in_range[OF y]] wf int4_in_range[OF x] int4_in_range[OF y]
  have "int4_ledger (accounts d')"
    unfolding xy(3) e by (simp add: int4_ledger_def)
  with s show ?thesis by simp
qed

lemma addAccount_int4:
  "int4_ledger (accounts d) \<Longrightarrow> int4_ledger (accounts (snd (addAccount req_body d)))"
proof (cases "converted req_body")
  case (Inl err)
  assume "int4_ledger (accounts d)"
  with addAccount_rejects[OF Inl] show ?thesis by simp
next
  case (Inr p)
  assume wf: "int4_ledger (accounts d)"
  obtain a i where p: "p = (a, i)" by (cases p)
  from addAccount_try_int4[OF wf, of a i] wf show ?thesis
    unfolding addAccount_converted[OF Inr[unfolded p]]
    by (auto simp: addAccount_num_def split: prod.splits sum.splits)
qed

lemma addAccount_num_succeeds:
  assumes "int4_ledger (accounts d)" "int4_in a = Inr x" "int4_in i = Inr y"
    "x \<notin> set (map id_col (accounts d))"
  shows "\<exists>cr d'. addAccount_num a i d = (Response 200 (AccountBody cr), d')"
proof -
  from addAccount_try_succeeds[OF assms] obtain cr d' where
    s: "addAccount_try a i d = (Inr cr, d')" by blast
  from assms(2,3) have "isFinite a" "isFinite i"
    by (auto simp: int4_in_def split: jsnum.splits)
  with s show ?thesis by (simp add: addAccount_num_def)
qed

section \<open>The claims\<close>

text \<open>
  Claim C1. Whenever a creation returns, alone or inside a batch, the beneficiary it
  returns is the one the Referral Assigner of the specification gives (\<open>assign\<close>): with
  the count taken after the new record is inserted, hence at least one, the introducer
  itself on an odd count, and on an even count the stored beneficiary of the
  introducer's introducer, none when the introducer has no record, that record has no
  introducer, or the grand-introducer has no record. In a batch every item is judged on
  the ledger that holds the items before it, finalized (\<open>assigned_by_rule\<close>).
\<close>

theorem C1_beneficiary_follows_rule:
  "(addAccount req_body d = (Response 200 (AccountBody cr), d') \<longrightarrow>
      assigned_by_rule (accounts d) [cr]) \<and>
   (addAccountsBulk bulk_body e = (Response 200 (ResultsBody cs), e') \<longrightarrow>
      assigned_by_rule (accounts e) cs)"
proof (intro conjI impI)
  assume s: "addAccount req_body d = (Response 200 (AccountBody cr), d')"
  then have "fst (addAccount req_body d) = Response 200 (AccountBody cr)" by simp
  from addAccount_response_converted[OF this] obtain a i where
    ai: "converted req_body = Inr (a, i)" by blast
  from s have "addAccount_num a i d = (Response 200 (AccountBody cr), d')"
    by (simp add: addAccount_converted[OF ai])
  from addAccount_num_200[OF this] show "assigned_by_rule (accounts d) [cr]"
    by (auto intro: assigned_by_rule_one)
next
  assume b: "addAccountsBulk bulk_body e = (Response 200 (ResultsBody cs), e')"
  from addAccountsBulk_200_converted[OF b] obtain pairs where
    p: "map converted (items_of bulk_body) = map Inr pairs" by blast
  from b have "addAccountsBulk_num pairs e = (Response 200 (ResultsBody cs), e')"
    by (simp add: addAccountsBulk_converted[OF p])
  from addAccountsBulk_num_200[OF this] obtain dl where
    "bulk_loop pairs [] (e\<lparr>issued := issued e @ [BEGIN]\<rparr>) = (Inr cs, dl)" by auto
  from bulk_loop_Inr[OF this] show "assigned_by_rule (accounts e) cs" by auto
qed

text \<open>
  The third account that 1 introduces, created alone on a ledger that holds two accounts,
  and the batch of the four accounts 1, 2, 3, 4 on the empty ledger.
\<close>

theorem C1_witness:
  "addAccount (request 3 1) ledger2 =
     (Response 200 (AccountBody (Created (Fin 3) (Fin 1) None)),
      \<lparr>accounts =
         [\<lparr>id_col = 1, introducer_id = Some 0, beneficiary_id = Some 0\<rparr>,
          \<lparr>id_col = 2, introducer_id = Some 1, beneficiary_id = Some 1\<rparr>,
          \<lparr>id_col = 3, introducer_id = Some 1, beneficiary_id = None\<rparr>],
       issued =
         [INSERT (Fin 3) (Fin 1), SELECT_COUNT (Fin 1), SELECT_introducer_id (Fin 1),
          SELECT_beneficiary_id (Fin 0), UPDATE None (Fin 3)]\<rparr>) \<and>
   assigned_by_rule (accounts ledger2) [Created (Fin 3) (Fin 1) None] \<and>
   fst (addAccountsBulk (JArray [request 1 0, request 2 1, request 3 1, request 4 1])
          empty_db) =
     Response 200 (ResultsBody
       [Created (Fin 1) (Fin 0) (Some (Fin 0)), Created (Fin 2) (Fin 1) (Some (Fin 1)),
        Created (Fin 3) (Fin 1) None, Created (Fin 4) (Fin 1) (Some (Fin 1))]) \<and>
   assigned_by_rule (accounts empty_db)
     [Created (Fin 1) (Fin 0) (Some (Fin 0)), Created (Fin 2) (Fin 1) (Some (Fin 1)),
      Created (Fin 3) (Fin 1) None, Created (Fin 4) (Fin 1) (Some (Fin 1))]"
proof -
  let ?batch = "JArray [request 1 0, request 2 1, request 3 1, request 4 1]"
  let ?cs = "[Created (Fin 1) (Fin 0) (Some (Fin 0)), Created (Fin 2) (Fin 1) (Some (Fin 1)),
              Created (Fin 3) (Fin 1) None, Created (Fin 4) (Fin 1) (Some (Fin 1))]"
  let ?d' = "\<lparr>accounts =
         [\<lparr>id_col = 1, introducer_id = Some 0, beneficiary_id = Some 0\<rparr>,
          \<lparr>id_col = 2, introducer_id = Some 1, beneficiary_id = Some 1\<rparr>,
          \<lparr>id_col = 3, introducer_id = Some 1, beneficiary_id = None\<rparr>],
       issued =
         [INSERT (Fin 3) (Fin 1), SELECT_COUNT (Fin 1), SELECT_introducer_id (Fin 1),
          SELECT_beneficiary_id (Fin 0), UPDATE None (Fin 3)]\<rparr>"
  have s: "addAccount (request 3 1) ledger2 =
      (Response 200 (AccountBody (Created (Fin 3) (Fin 1) None)), ?d')"
    by code_simp
  have b: "addAccountsBulk ?batch empty_db =
      (Response 200 (ResultsBody ?cs), snd (addAccountsBulk ?batch empty_db))"
    by code_simp
  note rule = C1_beneficiary_follows_rule[where req_body = "request 3 1"
      and d = ledger2 and cr = "Created (Fin 3) (Fin 1) None" and d' = ?d'
      and bulk_body = ?batch and e = empty_db and cs = ?cs
      and e' = "snd (addAccountsBulk ?batch empty_db)"]
  from rule s have p: "assigned_by_rule (accounts ledger2) [Created (Fin 3) (Fin 1) None]"
    by blast
  from rule b have q: "assigned_by_rule (accounts empty_db) ?cs"
    by blast
  from b have f: "fst (addAccountsBulk ?batch empty_db) =
      Response 200 (ResultsBody ?cs)"
    by (metis fst_conv)
  show ?thesis by (intro conjI) (fact s, fact p, fact f, fact q)
qed




text \<open>
  Claim C3, as amended. A single-item creation whose \<open>id\<close> a record of the ledger
  already has, and whose \<open>introducer_id\<close> is a finite number, sends its \<open>INSERT\<close> and
  nothing else; the rows are left as they were and no record is returned. The failure is
  the conflict (status 409) when the \<open>introducer_id\<close> is an integer the column admits.
  When it is not, the server refuses the parameter before it looks at the key, and the
  failure is the generic storage error (status 500).
\<close>

theorem C3_duplicate_id:
  assumes "converted req_body = Inr (a, i)" and "duplicates a (accounts d)" and "isFinite i"
  shows "addAccount req_body d =
           ((if isl (int4_in i) then Response 500 (ErrorBody [Str ''Database error''])
             else Response 409 (ErrorBody [Str ''Account with this account_id already exists''])),
            d\<lparr>issued := issued d @ [INSERT a i]\<rparr>) \<and>
         accounts (snd (addAccount req_body d)) = accounts d"
  using duplicate_id_num[OF assms(2,3)] by (simp add: addAccount_converted[OF assms(1)])

text \<open>Account 2 once more, on a ledger that holds it.\<close>

theorem C3_witness:
  "converted (request 2 7) = Inr (Fin 2, Fin 7) \<and>
   duplicates (Fin 2) (accounts ledger2) \<and> isFinite (Fin 7) \<and>
   addAccount (request 2 7) ledger2 =
     (Response 409 (ErrorBody [Str ''Account with this account_id already exists'']),
      ledger2\<lparr>issued := [INSERT (Fin 2) (Fin 7)]\<rparr>) \<and>
   accounts (snd (addAccount (request 2 7) ledger2)) = accounts ledger2"
proof -
  have a: "converted (request 2 7) = Inr (Fin 2, Fin 7)" by code_simp
  have b: "duplicates (Fin 2) (accounts ledger2)" by code_simp
  have c: "isFinite (Fin 7)" by simp
  have d: "\<not> isl (int4_in (Fin 7))" by code_simp
  have e: "issued ledger2 = []" by (simp add: ledger2_def)
  from C3_duplicate_id[OF a b c] a b c d e show ?thesis by simp
qed

text \<open>
  Claim C3 as stated fails: account 2 once more, with the finite introducer 3/2, is not
  reported as a conflict.
\<close>

theorem C3_counterexample:
  "converted (request 2 (3 / 2)) = Inr (Fin 2, Fin (3 / 2)) \<and>
   duplicates (Fin 2) (accounts ledger2) \<and> isFinite (Fin (3 / 2)) \<and>
   addAccount (request 2 (3 / 2)) ledger2 =
     (Response 500 (ErrorBody [Str ''Database error'']),
      ledger2\<lparr>issued := [INSERT (Fin 2) (Fin (3 / 2))]\<rparr>) \<and>
   fst (addAccount (request 2 (3 / 2)) ledger2) \<noteq>
     Response 409 (ErrorBody [Str ''Account with this account_id already exists''])"
  by code_simp

text \<open>
  Claim C4, as amended. Start from a ledger with no record whose \<open>id\<close> is \<open>X\<close> and
  none whose \<open>introducer_id\<close> is \<open>X\<close>, and create accounts that all name \<open>X\<close> as
  introducer and are all answered with status 200, posted one after the other or as
  one batch. The beneficiaries alternate, \<open>X\<close> for the first, third, ... account and
  none for the second, fourth, ..., exactly when the account \<open>X\<close> itself is not
  created at an odd place before the last: an account \<open>X\<close> created at an odd place
  introduces itself and is its own beneficiary, and every later account at an even
  place is then given \<open>X\<close>.
\<close>

theorem C4_alternating_beneficiaries:
  assumes "list_all (\<lambda>r. id_col r \<noteq> X \<and> introducer_id r \<noteq> Some X) (accounts d)"
    and "list_all (names_introducer X) req_bodies"
  shows "(fst (addAccount_seq req_bodies d) = map (\<lambda>cr. Response 200 (AccountBody cr)) cs \<longrightarrow>
            (alternates X cs \<longleftrightarrow> \<not> created_early X cs)) \<and>
         (addAccountsBulk (JArray req_bodies) d = (Response 200 (ResultsBody bs), d') \<longrightarrow>
            (alternates X bs \<longleftrightarrow> \<not> created_early X bs))"
proof -
  from names_introducer_pairs[OF assms(2)] obtain pairs where
    p: "map converted req_bodies = map Inr pairs" and
    x: "list_all (\<lambda>item. snd item = of_int4 X) pairs"
    by blast
  show ?thesis
  proof (intro conjI impI)
    assume "fst (addAccount_seq req_bodies d) = map (\<lambda>cr. Response 200 (AccountBody cr)) cs"
    then have "fst (addAccount_num_seq pairs d) = map (\<lambda>cr. Response 200 (AccountBody cr)) cs"
      by (simp add: addAccount_seq_converted[OF p])
    from alternation_num[OF assms(1) x this]
    show "alternates X cs \<longleftrightarrow> \<not> created_early X cs" .
  next
    assume "addAccountsBulk (JArray req_bodies) d = (Response 200 (ResultsBody bs), d')"
    with p have "addAccountsBulk_num pairs d = (Response 200 (ResultsBody bs), d')"
      by (simp add: addAccountsBulk_converted)
    from batch_is_sequential_num[OF this]
    have "fst (addAccount_num_seq pairs d) = map (\<lambda>cr. Response 200 (AccountBody cr)) bs"
      by simp
    from alternation_num[OF assms(1) x this]
    show "alternates X bs \<longleftrightarrow> \<not> created_early X bs" .
  qed
qed

text \<open>
  Four accounts introduced by 5 on the empty ledger, the second of them account 5
  itself, one by one and as a batch: the beneficiaries are 5, none, 5, none. With
  account 5 first, the second account is given 5. The batch of accounts 2, 3 and 4,
  all introduced by 1, beside account 1: the beneficiaries are 1, none, 1.
\<close>

theorem C4_witness:
  "fst (addAccount_seq [request 6 5, request 5 5, request 7 5, request 8 5] empty_db) =
     [Response 200 (AccountBody (Created (Fin 6) (Fin 5) (Some (Fin 5)))),
      Response 200 (AccountBody (Created (Fin 5) (Fin 5) None)),
      Response 200 (AccountBody (Created (Fin 7) (Fin 5) (Some (Fin 5)))),
      Response 200 (AccountBody (Created (Fin 8) (Fin 5) None))] \<and>
   fst (addAccountsBulk (JArray [request 6 5, request 5 5, request 7 5, request 8 5])
          empty_db) =
     Response 200 (ResultsBody
       [Created (Fin 6) (Fin 5) (Some (Fin 5)), Created (Fin 5) (Fin 5) None,
        Created (Fin 7) (Fin 5) (Some (Fin 5)), Created (Fin 8) (Fin 5) None]) \<and>
   \<not> created_early 5
       [Created (Fin 6) (Fin 5) (Some (Fin 5)), Created (Fin 5) (Fin 5) None,
        Created (Fin 7) (Fin 5) (Some (Fin 5)), Created (Fin 8) (Fin 5) None] \<and>
   alternates 5
     [Created (Fin 6) (Fin 5) (Some (Fin 5)), Created (Fin 5) (Fin 5) None,
      Created (Fin 7) (Fin 5) (Some (Fin 5)), Created (Fin 8) (Fin 5) None] \<and>
   fst (addAccount_seq [request 5 5, request 6 5] empty_db) =
     [Response 200 (AccountBody (Created (Fin 5) (Fin 5) (Some (Fin 5)))),
      Response 200 (AccountBody (Created (Fin 6) (Fin 5) (Some (Fin 5))))] \<and>
   created_early 5
     [Created (Fin 5) (Fin 5) (Some (Fin 5)), Created (Fin 6) (Fin 5) (Some (Fin 5))] \<and>
   \<not> alternates 5
       [Created (Fin 5) (Fin 5) (Some (Fin 5)), Created (Fin 6) (Fin 5) (Some (Fin 5))] \<and>
   addAccountsBulk (JArray [request 2 1, request 3 1, request 4 1])
     \<lparr>accounts = [\<lparr>id_col = 7, introducer_id = Some 0, beneficiary_id = Some 0\<rparr>],
      issued = []\<rparr> =
     (Response 200 (ResultsBody
        [Created (Fin 2) (Fin 1) (Some (Fin 1)), Created (Fin 3) (Fin 1) None,
         Created (Fin 4) (Fin 1) (Some (Fin 1))]),
      \<lparr>accounts =
         [\<lparr>id_col = 7, introducer_id = Some 0, beneficiary_id = Some 0\<rparr>,
          \<lparr>id_col = 2, introducer_id = Some 1, beneficiary_id = Some 1\<rparr>,
          \<lparr>id_col = 3, introducer_id = Some 1, beneficiary_id = None\<rparr>,
          \<lparr>id_col = 4, introducer_id = Some 1, beneficiary_id = Some 1\<rparr>],
       issued =
         [BEGIN, INSERT (Fin 2) (Fin 1), SELECT_COUNT (Fin 1), UPDATE (Some (Fin 1)) (Fin 2),
          INSERT (Fin 3) (Fin 1), SELECT_COUNT (Fin 1), SELECT_introducer_id (Fin 1),
          UPDATE None (Fin 3),
          INSERT (Fin 4) (Fin 1), SELECT_COUNT (Fin 1), UPDATE (Some (Fin 1)) (Fin 4),
          COMMIT]\<rparr>) \<and>
   alternates 1
     [Created (Fin 2) (Fin 1) (Some (Fin 1)), Created (Fin 3) (Fin 1) None,
      Created (Fin 4) (Fin 1) (Some (Fin 1))]"
proof -
  let ?d7 = "\<lparr>accounts = [\<lparr>id_col = 7, introducer_id = Some 0, beneficiary_id = Some 0\<rparr>],
      issued = []\<rparr>"
  let ?reqs3 = "[request 2 1, request 3 1, request 4 1]"
  let ?cs3 = "[Created (Fin 2) (Fin 1) (Some (Fin 1)), Created (Fin 3) (Fin 1) None,
         Created (Fin 4) (Fin 1) (Some (Fin 1))]"
  let ?d7' = "\<lparr>accounts =
         [\<lparr>id_col = 7, introducer_id = Some 0, beneficiary_id = Some 0\<rparr>,
          \<lparr>id_col = 2, introducer_id = Some 1, beneficiary_id = Some 1\<rparr>,
          \<lparr>id_col = 3, introducer_id = Some 1, beneficiary_id = None\<rparr>,
          \<lparr>id_col = 4, introducer_id = Some 1, beneficiary_id = Some 1\<rparr>],
       issued =
         [BEGIN, INSERT (Fin 2) (Fin 1), SELECT_COUNT (Fin 1), UPDATE (Some (Fin 1)) (Fin 2),
          INSERT (Fin 3) (Fin 1), SELECT_COUNT (Fin 1), SELECT_introducer_id (Fin 1),
          UPDATE None (Fin 3),
          INSERT (Fin 4) (Fin 1), SELECT_COUNT (Fin 1), UPDATE (Some (Fin 1)) (Fin 4),
          COMMIT]\<rparr>"
  have k1: "list_all (\<lambda>r. id_col r \<noteq> 1 \<and> introducer_id r \<noteq> Some 1) (accounts ?d7)"
    by simp
  have k2: "list_all (names_introducer 1) ?reqs3" by code_simp
  have k3: "addAccountsBulk (JArray ?reqs3) ?d7 = (Response 200 (ResultsBody ?cs3), ?d7')"
    by code_simp
  have k4: "\<not> created_early 1 ?cs3" by code_simp
  let ?reqs = "[request 6 5, request 5 5, request 7 5, request 8 5]"
  let ?cs = "[Created (Fin 6) (Fin 5) (Some (Fin 5)), Created (Fin 5) (Fin 5) None,
      Created (Fin 7) (Fin 5) (Some (Fin 5)), Created (Fin 8) (Fin 5) None]"
  let ?reqs2 = "[request 5 5, request 6 5]"
  let ?cs2 = "[Created (Fin 5) (Fin 5) (Some (Fin 5)), Created (Fin 6) (Fin 5) (Some (Fin 5))]"
  have h1: "list_all (\<lambda>r. id_col r \<noteq> 5 \<and> introducer_id r \<noteq> Some 5) (accounts empty_db)"
    by (simp add: empty_db_def)
  have h2: "list_all (names_introducer 5) ?reqs" by code_simp
  have h2': "list_all (names_introducer 5) ?reqs2" by code_simp
  have e: "fst (addAccount_seq ?reqs empty_db) =
     [Response 200 (AccountBody (Created (Fin 6) (Fin 5) (Some (Fin 5)))),
      Response 200 (AccountBody (Created (Fin 5) (Fin 5) None)),
      Response 200 (AccountBody (Created (Fin 7) (Fin 5) (Some (Fin 5)))),
      Response 200 (AccountBody (Created (Fin 8) (Fin 5) None))]"
    by code_simp
  then have h3: "fst (addAccount_seq ?reqs empty_db) =
      map (\<lambda>cr. Response 200 (AccountBody cr)) ?cs"
    by (simp only: list.map)
  have b: "fst (addAccountsBulk (JArray ?reqs) empty_db) = Response 200 (ResultsBody ?cs)"
    by code_simp
  have ne: "\<not> created_early 5 ?cs" by code_simp
  have e2: "fst (addAccount_seq ?reqs2 empty_db) =
     [Response 200 (AccountBody (Created (Fin 5) (Fin 5) (Some (Fin 5)))),
      Response 200 (AccountBody (Created (Fin 6) (Fin 5) (Some (Fin 5))))]"
    by code_simp
  then have h3': "fst (addAccount_seq ?reqs2 empty_db) =
      map (\<lambda>cr. Response 200 (AccountBody cr)) ?cs2"
    by (simp only: list.map)
  have early: "created_early 5 ?cs2" by code_simp
  from C4_alternating_beneficiaries[OF h1 h2, of ?cs] h3 ne
  have r: "alternates 5 ?cs" by blast
  from C4_alternating_beneficiaries[OF h1 h2', of ?cs2] h3' early
  have r2: "\<not> alternates 5 ?cs2" by blast
  from C4_alternating_beneficiaries[OF k1 k2, of _ ?cs3 ?d7'] k3 k4
  have r3: "alternates 1 ?cs3" by blast
  show ?thesis
    by (intro conjI)
       (fact e, fact b, fact ne, fact r, fact e2, fact early, fact r2, fact k3, fact r3)
qed

text \<open>
  Claim C4 as stated fails when the first of the created accounts is \<open>X\<close> itself: on
  the empty ledger, account 5 introduced by 5 and then account 6 introduced by 5 are
  both given the beneficiary 5.
\<close>

theorem C4_counterexample:
  "accounts empty_db = [] \<and>
   fst (addAccount_seq [request 5 5, request 6 5] empty_db) =
     [Response 200 (AccountBody (Created (Fin 5) (Fin 5) (Some (Fin 5)))),
      Response 200 (AccountBody (Created (Fin 6) (Fin 5) (Some (Fin 5))))] \<and>
   \<not> alternates 5 [Created (Fin 5) (Fin 5) (Some (Fin 5)),
                   Created (Fin 6) (Fin 5) (Some (Fin 5))]"
  by code_simp

text \<open>
  Claim C5. On a ledger where the record of \<open>X\<close> has the introducer \<open>Y\<close> and the
  record of \<open>Y\<close> has the beneficiary \<open>B\<close> (a stored value, possibly absent), every
  account that names \<open>X\<close> as introducer and is an even-numbered referral of \<open>X\<close>,
  the new record counted, is given \<open>B\<close>: the value stored with \<open>Y\<close>, read with one
  step from \<open>X\<close> to \<open>Y\<close>. This holds for an account created alone, for every
  account of a batch and for every account of a sequence of single creations; for the
  accounts after the first the count includes the earlier accounts of the batch or
  sequence that name \<open>X\<close>.
\<close>

theorem C5_grand_introducer_one_hop:
  assumes "record_with_id (accounts d) X = Some rx" and "introducer_id rx = Some Y"
    and "record_with_id (accounts d) Y = Some ry"
  shows "(converted req_body = Inr (a, of_int4 X) \<and>
          even (Suc (referral_count (accounts d) X)) \<and>
          addAccount req_body d = (Response 200 (AccountBody cr), d') \<longrightarrow>
            created_beneficiary cr = map_option of_int4 (beneficiary_id ry)) \<and>
         (addAccountsBulk bulk_body d = (Response 200 (ResultsBody bs), e') \<and>
          n < length bs \<and> created_introducer (bs ! n) = of_int4 X \<and>
          even (referral_count (accounts d) X + referrals X (take (Suc n) bs)) \<longrightarrow>
            created_beneficiary (bs ! n) = map_option of_int4 (beneficiary_id ry)) \<and>
         (fst (addAccount_seq req_bodies d) = map (\<lambda>cr. Response 200 (AccountBody cr)) cs \<and>
          m < length cs \<and> created_introducer (cs ! m) = of_int4 X \<and>
          even (referral_count (accounts d) X + referrals X (take (Suc m) cs)) \<longrightarrow>
            created_beneficiary (cs ! m) = map_option of_int4 (beneficiary_id ry))"
proof (intro conjI impI)
  assume h: "converted req_body = Inr (a, of_int4 X) \<and>
          even (Suc (referral_count (accounts d) X)) \<and>
          addAccount req_body d = (Response 200 (AccountBody cr), d')"
  then have cv: "converted req_body = Inr (a, of_int4 X)"
    and s: "addAccount req_body d = (Response 200 (AccountBody cr), d')"
    by simp_all
  from s have "addAccount_num a (of_int4 X) d = (Response 200 (AccountBody cr), d')"
    by (simp add: addAccount_converted[OF cv])
  from addAccount_num_200[OF this] have "addAccount_try a (of_int4 X) d = (Inr cr, d')"
    by simp
  from addAccount_try_one_hop[OF assms _ this] h
  show "created_beneficiary cr = map_option of_int4 (beneficiary_id ry)" by simp
next
  assume h: "addAccountsBulk bulk_body d = (Response 200 (ResultsBody bs), e') \<and>
          n < length bs \<and> created_introducer (bs ! n) = of_int4 X \<and>
          even (referral_count (accounts d) X + referrals X (take (Suc n) bs))"
  then have b: "addAccountsBulk bulk_body d = (Response 200 (ResultsBody bs), e')" by simp
  from addAccountsBulk_200_converted[OF b] obtain pairs where
    p: "map converted (items_of bulk_body) = map Inr pairs" by blast
  from b have "addAccountsBulk_num pairs d = (Response 200 (ResultsBody bs), e')"
    by (simp add: addAccountsBulk_converted[OF p])
  from addAccountsBulk_num_200[OF this] obtain dl where
    "bulk_loop pairs [] (d\<lparr>issued := issued d @ [BEGIN]\<rparr>) = (Inr bs, dl)" by auto
  from bulk_loop_Inr[OF this] have "assigned_by_rule (accounts d) bs" by auto
  from assigned_by_rule_one_hop[OF this assms] h
  show "created_beneficiary (bs ! n) = map_option of_int4 (beneficiary_id ry)" by simp
next
  assume h: "fst (addAccount_seq req_bodies d) = map (\<lambda>cr. Response 200 (AccountBody cr)) cs \<and>
          m < length cs \<and> created_introducer (cs ! m) = of_int4 X \<and>
          even (referral_count (accounts d) X + referrals X (take (Suc m) cs))"
  then have s: "fst (addAccount_seq req_bodies d) = map (\<lambda>cr. Response 200 (AccountBody cr)) cs"
    by simp
  from addAccount_seq_200_converted[OF s] obtain pairs where
    p: "map converted req_bodies = map Inr pairs" by blast
  from s have "fst (addAccount_num_seq pairs d) = map (\<lambda>cr. Response 200 (AccountBody cr)) cs"
    by (simp add: addAccount_seq_converted[OF p])
  from addAccount_num_seq_assigned[OF this] have "assigned_by_rule (accounts d) cs" .
  from assigned_by_rule_one_hop[OF this assms] h
  show "created_beneficiary (cs ! m) = map_option of_int4 (beneficiary_id ry)" by simp
qed

text \<open>
  Account 2 was introduced by 1, whose stored beneficiary is 0, and has one referral.
  Accounts 4, 5 and 6, all introduced by 2, are its second, third and fourth referral:
  account 4 gets 0, not 1, alone and in the batch, and so does account 6, the third
  item of the batch and the third of the three posted one by one.
\<close>

theorem C5_witness:
  "record_with_id (accounts ledger3) 2 =
     Some \<lparr>id_col = 2, introducer_id = Some 1, beneficiary_id = Some 1\<rparr> \<and>
   record_with_id (accounts ledger3) 1 =
     Some \<lparr>id_col = 1, introducer_id = Some 0, beneficiary_id = Some 0\<rparr> \<and>
   referral_count (accounts ledger3) 2 = 1 \<and>
   fst (addAccount (request 4 2) ledger3) =
     Response 200 (AccountBody (Created (Fin 4) (Fin 2) (Some (Fin 0)))) \<and>
   fst (addAccountsBulk (JArray [request 4 2, request 5 2, request 6 2]) ledger3) =
     Response 200 (ResultsBody [Created (Fin 4) (Fin 2) (Some (Fin 0)),
                                Created (Fin 5) (Fin 2) (Some (Fin 2)),
                                Created (Fin 6) (Fin 2) (Some (Fin 0))]) \<and>
   created_beneficiary (Created (Fin 4) (Fin 2) (Some (Fin 0))) = Some (Fin 0) \<and>
   created_beneficiary
     ([Created (Fin 4) (Fin 2) (Some (Fin 0)), Created (Fin 5) (Fin 2) (Some (Fin 2)),
       Created (Fin 6) (Fin 2) (Some (Fin 0))] ! 2) = Some (Fin 0) \<and>
   fst (addAccount_seq [request 4 2, request 5 2, request 6 2] ledger3) =
     [Response 200 (AccountBody (Created (Fin 4) (Fin 2) (Some (Fin 0)))),
      Response 200 (AccountBody (Created (Fin 5) (Fin 2) (Some (Fin 2)))),
      Response 200 (AccountBody (Created (Fin 6) (Fin 2) (Some (Fin 0))))]"
proof -
  let ?rx = "\<lparr>id_col = 2, introducer_id = Some 1, beneficiary_id = Some 1\<rparr>"
  let ?ry = "\<lparr>id_col = 1, introducer_id = Some 0, beneficiary_id = Some (0::int)\<rparr>"
  let ?cr = "Created (Fin 4) (Fin 2) (Some (Fin 0))"
  let ?batch = "JArray [request 4 2, request 5 2, request 6 2]"
  let ?bs = "[Created (Fin 4) (Fin 2) (Some (Fin 0)), Created (Fin 5) (Fin 2) (Some (Fin 2)),
       Created (Fin 6) (Fin 2) (Some (Fin 0))]"
  have h1: "record_with_id (accounts ledger3) 2 = Some ?rx" by code_simp
  have h2: "introducer_id ?rx = Some 1" by simp
  have h3: "record_with_id (accounts ledger3) 1 = Some ?ry" by code_simp
  have h4: "referral_count (accounts ledger3) 2 = 1" by code_simp
  then have h4': "even (Suc (referral_count (accounts ledger3) 2))" by simp
  have h5: "converted (request 4 2) = Inr (Fin 4, of_int4 2)" by code_simp
  have s: "addAccount (request 4 2) ledger3 =
      (Response 200 (AccountBody ?cr), snd (addAccount (request 4 2) ledger3))"
    by code_simp
  have f1: "fst (addAccount (request 4 2) ledger3) = Response 200 (AccountBody ?cr)"
    by code_simp
  have b: "addAccountsBulk ?batch ledger3 =
      (Response 200 (ResultsBody ?bs), snd (addAccountsBulk ?batch ledger3))"
    by code_simp
  then have f2: "fst (addAccountsBulk ?batch ledger3) = Response 200 (ResultsBody ?bs)"
    by (metis fst_conv)
  have n: "2 < length ?bs" by simp
  have i: "created_introducer (?bs ! 2) = of_int4 2" by code_simp
  have ev: "even (referral_count (accounts ledger3) 2 + referrals 2 (take (Suc 2) ?bs))"
    by code_simp
  note hop = C5_grand_introducer_one_hop[OF h1 h2 h3]
  from hop[where req_body = "request 4 2" and a = "Fin 4" and cr = ?cr
      and d' = "snd (addAccount (request 4 2) ledger3)"] h5 h4' s
  have "created_beneficiary ?cr = map_option of_int4 (beneficiary_id ?ry)" by blast
  then have r: "created_beneficiary ?cr = Some (Fin 0)" by (simp add: of_int4_def)
  from hop[where bulk_body = ?batch and bs = ?bs and n = 2
      and e' = "snd (addAccountsBulk ?batch ledger3)"] b n i ev
  have "created_beneficiary (?bs ! 2) = map_option of_int4 (beneficiary_id ?ry)" by blast
  then have r2: "created_beneficiary (?bs ! 2) = Some (Fin 0)" by (simp add: of_int4_def)
  have q: "fst (addAccount_seq [request 4 2, request 5 2, request 6 2] ledger3) =
     [Response 200 (AccountBody (Created (Fin 4) (Fin 2) (Some (Fin 0)))),
      Response 200 (AccountBody (Created (Fin 5) (Fin 2) (Some (Fin 2)))),
      Response 200 (AccountBody (Created (Fin 6) (Fin 2) (Some (Fin 0))))]"
    by code_simp
  then have q': "fst (addAccount_seq [request 4 2, request 5 2, request 6 2] ledger3) =
      map (\<lambda>cr. Response 200 (AccountBody cr)) ?bs"
    by (simp only: list.map)
  from hop[where req_bodies = "[request 4 2, request 5 2, request 6 2]" and cs = ?bs and m = 2]
    q' n i ev
  have "created_beneficiary (?bs ! 2) = map_option of_int4 (beneficiary_id ?ry)" by blast
  then have r3: "created_beneficiary (?bs ! 2) = Some (Fin 0)" by (simp add: of_int4_def)
  show ?thesis
    by (intro conjI) (fact h1, fact h3, fact h4, fact f1, fact f2, fact r, fact r3, fact q)
qed

text \<open>
  Claim C6. When a batch is answered with status 200, the single-item handler, given
  the items of the batch one after the other in the order of the input and starting
  from the same ledger, answers every item with status 200 and the very triple the
  batch returned at that position, and ends on the same rows: every item of the batch
  was counted and looked up on the rows its predecessors had left, inserted and
  finalized. The triples pair with the items one to one, in order: each carries the two
  numbers its item converts to.
\<close>

theorem C6_batch_is_sequential:
  assumes "addAccountsBulk bulk_body d = (Response 200 (ResultsBody cs), d')"
  shows "fst (addAccount_seq (items_of bulk_body) d) =
           map (\<lambda>cr. Response 200 (AccountBody cr)) cs \<and>
         accounts (snd (addAccount_seq (items_of bulk_body) d)) = accounts d' \<and>
         map (\<lambda>cr. Inr (created_id cr, created_introducer cr)) cs =
           map converted (items_of bulk_body)"
proof -
  from addAccountsBulk_200_converted[OF assms] obtain pairs where
    p: "map converted (items_of bulk_body) = map Inr pairs" by blast
  from assms have "addAccountsBulk_num pairs d = (Response 200 (ResultsBody cs), d')"
    by (simp add: addAccountsBulk_converted[OF p])
  from batch_is_sequential_num[OF this] show ?thesis
    by (auto simp: addAccount_seq_converted[OF p] p)
qed

text \<open>The four accounts 1, 2, 3, 4 on the empty ledger, as a batch and one by one.\<close>

theorem C6_witness:
  "addAccountsBulk (JArray [request 1 0, request 2 1, request 3 1, request 4 1])
     empty_db =
     (Response 200 (ResultsBody
        [Created (Fin 1) (Fin 0) (Some (Fin 0)), Created (Fin 2) (Fin 1) (Some (Fin 1)),
         Created (Fin 3) (Fin 1) None, Created (Fin 4) (Fin 1) (Some (Fin 1))]),
      \<lparr>accounts =
         [\<lparr>id_col = 1, introducer_id = Some 0, beneficiary_id = Some 0\<rparr>,
          \<lparr>id_col = 2, introducer_id = Some 1, beneficiary_id = Some 1\<rparr>,
          \<lparr>id_col = 3, introducer_id = Some 1, beneficiary_id = None\<rparr>,
          \<lparr>id_col = 4, introducer_id = Some 1, beneficiary_id = Some 1\<rparr>],
       issued =
         [BEGIN, INSERT (Fin 1) (Fin 0), SELECT_COUNT (Fin 0), UPDATE (Some (Fin 0)) (Fin 1),
          INSERT (Fin 2) (Fin 1), SELECT_COUNT (Fin 1), UPDATE (Some (Fin 1)) (Fin 2),
          INSERT (Fin 3) (Fin 1), SELECT_COUNT (Fin 1), SELECT_introducer_id (Fin 1),
          SELECT_beneficiary_id (Fin 0), UPDATE None (Fin 3),
          INSERT (Fin 4) (Fin 1), SELECT_COUNT (Fin 1), UPDATE (Some (Fin 1)) (Fin 4),
          COMMIT]\<rparr>) \<and>
   fst (addAccount_seq [request 1 0, request 2 1, request 3 1, request 4 1]
          empty_db) =
     [Response 200 (AccountBody (Created (Fin 1) (Fin 0) (Some (Fin 0)))),
      Response 200 (AccountBody (Created (Fin 2) (Fin 1) (Some (Fin 1)))),
      Response 200 (AccountBody (Created (Fin 3) (Fin 1) None)),
      Response 200 (AccountBody (Created (Fin 4) (Fin 1) (Some (Fin 1))))] \<and>
   accounts (snd (addAccount_seq
                    [request 1 0, request 2 1, request 3 1, request 4 1] empty_db)) =
     [\<lparr>id_col = 1, introducer_id = Some 0, beneficiary_id = Some 0\<rparr>,
      \<lparr>id_col = 2, introducer_id = Some 1, beneficiary_id = Some 1\<rparr>,
      \<lparr>id_col = 3, introducer_id = Some 1, beneficiary_id = None\<rparr>,
      \<lparr>id_col = 4, introducer_id = Some 1, beneficiary_id = Some 1\<rparr>]"
proof -
  let ?reqs = "[request 1 0, request 2 1, request 3 1, request 4 1]"
  let ?cs = "[Created (Fin 1) (Fin 0) (Some (Fin 0)), Created (Fin 2) (Fin 1) (Some (Fin 1)),
         Created (Fin 3) (Fin 1) None, Created (Fin 4) (Fin 1) (Some (Fin 1))]"
  let ?d' = "\<lparr>accounts =
         [\<lparr>id_col = 1, introducer_id = Some 0, beneficiary_id = Some 0\<rparr>,
          \<lparr>id_col = 2, introducer_id = Some 1, beneficiary_id = Some 1\<rparr>,
          \<lparr>id_col = 3, introducer_id = Some 1, beneficiary_id = None\<rparr>,
          \<lparr>id_col = 4, introducer_id = Some 1, beneficiary_id = Some 1\<rparr>],
       issued =
         [BEGIN, INSERT (Fin 1) (Fin 0), SELECT_COUNT (Fin 0), UPDATE (Some (Fin 0)) (Fin 1),
          INSERT (Fin 2) (Fin 1), SELECT_COUNT (Fin 1), UPDATE (Some (Fin 1)) (Fin 2),
          INSERT (Fin 3) (Fin 1), SELECT_COUNT (Fin 1), SELECT_introducer_id (Fin 1),
          SELECT_beneficiary_id (Fin 0), UPDATE None (Fin 3),
          INSERT (Fin 4) (Fin 1), SELECT_COUNT (Fin 1), UPDATE (Some (Fin 1)) (Fin 4),
          COMMIT]\<rparr>"
  have b: "addAccountsBulk (JArray ?reqs) empty_db =
      (Response 200 (ResultsBody ?cs), ?d')"
    by code_simp
  note r = C6_batch_is_sequential[OF b]
  note r1 = r[THEN conjunct1] and r2 = r[THEN conjunct2, THEN conjunct1]
  from r1 have r1': "fst (addAccount_seq ?reqs empty_db) =
     [Response 200 (AccountBody (Created (Fin 1) (Fin 0) (Some (Fin 0)))),
      Response 200 (AccountBody (Created (Fin 2) (Fin 1) (Some (Fin 1)))),
      Response 200 (AccountBody (Created (Fin 3) (Fin 1) None)),
      Response 200 (AccountBody (Created (Fin 4) (Fin 1) (Some (Fin 1))))]"
    by (simp only: list.map items_of.simps)
  from r2 have r2': "accounts (snd (addAccount_seq ?reqs empty_db)) =
     [\<lparr>id_col = 1, introducer_id = Some 0, beneficiary_id = Some 0\<rparr>,
      \<lparr>id_col = 2, introducer_id = Some 1, beneficiary_id = Some 1\<rparr>,
      \<lparr>id_col = 3, introducer_id = Some 1, beneficiary_id = None\<rparr>,
      \<lparr>id_col = 4, introducer_id = Some 1, beneficiary_id = Some 1\<rparr>]"
    by (simp only: db.select_convs items_of.simps)
  show ?thesis by (intro conjI) (fact b, fact r1', fact r2')
qed

text \<open>
  Claim C7, as amended. The single-item handler does not ask for finite numeric values:
  it converts the two fields with \<open>Number\<close> and asks that the results are finite. A
  request whose two conversions return and one of them is not finite, which includes
  every request with a missing field, is answered with the validation error (status
  400) and the store is returned as it was given: no row has changed and no statement
  has been sent. A request with a field whose conversion throws gets no validation
  error: the exception leaves the handler, again with the store as it was given. A
  batch request whose body is an empty array or no array is answered with the
  validation error and the store as it was given.
\<close>

theorem C7_validation_first:
  "(converted req_body = Inr (a, i) \<and> (\<not> isFinite a \<or> \<not> isFinite i) \<longrightarrow>
      addAccount req_body d =
        (Response 400 (ErrorBody [Str ''account_id and introducer_id must be numbers'']), d)) \<and>
   ((field req_body ''account_id'' = JUndefined \<or> field req_body ''introducer_id'' = JUndefined) \<and>
    \<not> isl (converted req_body) \<longrightarrow>
      addAccount req_body d =
        (Response 400 (ErrorBody [Str ''account_id and introducer_id must be numbers'']), d)) \<and>
   (converted req_body = Inl err \<longrightarrow> addAccount req_body d = (Rejects err, d)) \<and>
   (items_of bulk_body = [] \<longrightarrow>
      addAccountsBulk bulk_body d =
        (Response 400 (ErrorBody [Str ''Body must be a non-empty array'']), d))"
proof (intro conjI impI)
  assume "converted req_body = Inr (a, i) \<and> (\<not> isFinite a \<or> \<not> isFinite i)"
  then have cv: "converted req_body = Inr (a, i)" and nf: "\<not> isFinite a \<or> \<not> isFinite i"
    by simp_all
  from nf show "addAccount req_body d =
        (Response 400 (ErrorBody [Str ''account_id and introducer_id must be numbers'']), d)"
    by (auto simp: addAccount_converted[OF cv] addAccount_num_def)
next
  assume h: "(field req_body ''account_id'' = JUndefined \<or>
      field req_body ''introducer_id'' = JUndefined) \<and> \<not> isl (converted req_body)"
  then obtain p where "converted req_body = Inr p" by (cases "converted req_body") auto
  then obtain b j where cv: "converted req_body = Inr (b, j)" by (cases p) auto
  with h have "\<not> isFinite b \<or> \<not> isFinite j" by (auto simp: converted_Inr)
  then show "addAccount req_body d =
        (Response 400 (ErrorBody [Str ''account_id and introducer_id must be numbers'']), d)"
    by (auto simp: addAccount_converted[OF cv] addAccount_num_def)
next
  assume "converted req_body = Inl err"
  then show "addAccount req_body d = (Rejects err, d)" by (rule addAccount_rejects)
next
  assume "items_of bulk_body = []"
  then show "addAccountsBulk bulk_body d =
        (Response 400 (ErrorBody [Str ''Body must be a non-empty array'']), d)"
    by (simp add: addAccountsBulk_def)
qed

text \<open>
  A request without \<open>account_id\<close>, one with a word as introducer, one whose
  \<open>account_id\<close> is an object with a property named \<open>toString\<close>, and an empty batch.
\<close>

theorem C7_witness:
  "addAccount (JObject [(''introducer_id'', JNumber (Fin 1))]) ledger2 =
     (Response 400 (ErrorBody [Str ''account_id and introducer_id must be numbers'']), ledger2) \<and>
   addAccount
       (JObject [(''account_id'', JNumber (Fin 3)), (''introducer_id'', JString ''abc'')]) ledger2 =
     (Response 400 (ErrorBody [Str ''account_id and introducer_id must be numbers'']), ledger2) \<and>
   addAccount
       (JObject [(''account_id'', JObject [(''toString'', JNumber (Fin 1))]),
                 (''introducer_id'', JNumber (Fin 1))]) ledger2 =
     (Rejects (TypeError [Str ''Cannot convert object to primitive value'']), ledger2) \<and>
   addAccountsBulk (JArray []) ledger2 =
     (Response 400 (ErrorBody [Str ''Body must be a non-empty array'']), ledger2)"
proof -
  let ?missing = "JObject [(''introducer_id'', JNumber (Fin 1))]"
  let ?word = "JObject [(''account_id'', JNumber (Fin 3)), (''introducer_id'', JString ''abc'')]"
  let ?thrower = "JObject [(''account_id'', JObject [(''toString'', JNumber (Fin 1))]),
                 (''introducer_id'', JNumber (Fin 1))]"
  have a1: "field ?missing ''account_id'' = JUndefined" by simp
  have a2: "\<not> isl (converted ?missing)" by code_simp
  have b1: "converted ?word = Inr (Fin 3, NaN)" by code_simp
  have b2: "\<not> isFinite NaN" by simp
  have c: "converted ?thrower =
      Inl (TypeError [Str ''Cannot convert object to primitive value''])"
    by code_simp
  have e: "items_of (JArray []) = []" by simp
  from C7_validation_first[of ?missing _ _ ledger2] a1 a2
  have r1: "addAccount ?missing ledger2 =
     (Response 400 (ErrorBody [Str ''account_id and introducer_id must be numbers'']), ledger2)"
    by blast
  from C7_validation_first[of ?word "Fin 3" NaN ledger2] b1 b2
  have r2: "addAccount ?word ledger2 =
     (Response 400 (ErrorBody [Str ''account_id and introducer_id must be numbers'']), ledger2)"
    by blast
  from C7_validation_first[of ?thrower _ _ ledger2
      "TypeError [Str ''Cannot convert object to primitive value'']"] c
  have r3: "addAccount ?thrower ledger2 =
     (Rejects (TypeError [Str ''Cannot convert object to primitive value'']), ledger2)"
    by blast
  from C7_validation_first[of _ _ _ ledger2 _ "JArray []"] e
  have r4: "addAccountsBulk (JArray []) ledger2 =
     (Response 400 (ErrorBody [Str ''Body must be a non-empty array'']), ledger2)"
    by blast
  show ?thesis by (intro conjI) (fact r1, fact r2, fact r3, fact r4)
qed

text \<open>
  Claim C7 as stated fails. \<open>null\<close> is no finite numeric value, yet the request with
  \<open>account_id\<close> 1 and \<open>introducer_id\<close> \<open>null\<close> is answered with status 200 and
  account 1, introduced by 0, is on the ledger afterwards. An object with a property
  named \<open>toString\<close> is no finite numeric value either, and the request that carries it
  as \<open>account_id\<close> gets no validation error: the handler throws.
\<close>

theorem C7_counterexample:
  "\<not> finite_numeric JNull \<and>
   addAccount (JObject [(''account_id'', JNumber (Fin 1)), (''introducer_id'', JNull)])
       empty_db =
     (Response 200 (AccountBody (Created (Fin 1) (Fin 0) (Some (Fin 0)))),
      \<lparr>accounts = [\<lparr>id_col = 1, introducer_id = Some 0, beneficiary_id = Some 0\<rparr>],
       issued = [INSERT (Fin 1) (Fin 0), SELECT_COUNT (Fin 0),
                 UPDATE (Some (Fin 0)) (Fin 1)]\<rparr>) \<and>
   \<not> finite_numeric (JObject [(''toString'', JNumber (Fin 1))]) \<and>
   addAccount
       (JObject [(''account_id'', JObject [(''toString'', JNumber (Fin 1))]),
                 (''introducer_id'', JNumber (Fin 1))]) ledger2 =
     (Rejects (TypeError [Str ''Cannot convert object to primitive value'']), ledger2)"
  by code_simp

text \<open>
  Claim C8 fails on the batch path. An \<open>account_id\<close> beyond the 32-bit range is refused
  by the server with a message of its own; the batch handler puts that message into the
  response, where the single-item handler answers the same failure with its fixed text.
\<close>

theorem C8_bulk_reports_server_message:
  \<open>addAccountsBulk (JArray [request 3000000000 1]) empty_db =
     (Response 500
        (ErrorBody [Str ''value "'', Num (Fin 3000000000),
                    Str ''" is out of range for type integer'']),
      \<lparr>accounts = [], issued = [BEGIN, INSERT (Fin 3000000000) (Fin 1), ROLLBACK]\<rparr>) \<and>
   addAccount (request 3000000000 1) empty_db =
     (Response 500 (ErrorBody [Str ''Database error'']),
      \<lparr>accounts = [], issued = [INSERT (Fin 3000000000) (Fin 1)]\<rparr>)\<close>
  by code_simp

text \<open>The response of the batch handler is not the generic one.\<close>

theorem C8_witness:
  "fst (addAccountsBulk (JArray [request 3000000000 1]) empty_db) \<noteq>
     Response 500 (ErrorBody [Str ''Database error'']) \<and>
   fst (addAccount (request 3000000000 1) empty_db) =
     Response 500 (ErrorBody [Str ''Database error''])"
  using C8_bulk_reports_server_message by simp

text \<open>
  Claim C9. Whatever a creation answers, the rows it leaves are the rows it found,
  each with its three fields as before, followed by the rows it has added. The
  single-item handler adds at most one row, whose \<open>id\<close> is the requested one and was
  not the \<open>id\<close> of any earlier record, and the writes it sends are at most the
  \<open>INSERT\<close> of that record followed by one \<open>UPDATE\<close> of that record; when a
  conversion throws it leaves the store as it was given. The batch handler adds rows
  for items of the batch only (none when it rolls back), and the writes of a batch
  answered with status 200 are, item by item, the insert and the write-back of the
  returned triple.
\<close>

theorem C9_earlier_records_unchanged:
  "(converted req_body = Inr (a, i) \<longrightarrow>
      (\<exists>suf. accounts (snd (addAccount req_body d)) = accounts d @ suf \<and>
         length suf \<le> 1 \<and>
         list_all (\<lambda>r. of_int4 (id_col r) = a \<and> \<not> duplicates a (accounts d)) suf) \<and>
      (\<exists>new. issued (snd (addAccount req_body d)) = issued d @ new \<and>
         (filter is_write new = [] \<or> filter is_write new = [INSERT a i] \<or>
          (\<exists>b. filter is_write new = [INSERT a i, UPDATE b a])))) \<and>
   (isl (converted req_body) \<longrightarrow> snd (addAccount req_body d) = d) \<and>
   (\<exists>suf. accounts (snd (addAccountsBulk bulk_body e)) = accounts e @ suf \<and>
      list_all (\<lambda>r. of_int4 (id_col r) \<in> fst ` set (numbers (items_of bulk_body))) suf) \<and>
   (addAccountsBulk bulk_body e = (Response 200 (ResultsBody cs), e') \<longrightarrow>
      (\<exists>new. issued e' = issued e @ new \<and>
         filter is_write new = concat (map writes_of cs)))"
proof (intro conjI impI)
  assume cv: "converted req_body = Inr (a, i)"
  from earlier_records_unchanged_num[of a i d "[]" e, THEN conjunct1]
  show "\<exists>suf. accounts (snd (addAccount req_body d)) = accounts d @ suf \<and>
         length suf \<le> 1 \<and>
         list_all (\<lambda>r. of_int4 (id_col r) = a \<and> \<not> duplicates a (accounts d)) suf"
    by (simp add: addAccount_converted[OF cv])
  from addAccount_num_issued[of a i d]
  show "\<exists>new. issued (snd (addAccount req_body d)) = issued d @ new \<and>
         (filter is_write new = [] \<or> filter is_write new = [INSERT a i] \<or>
          (\<exists>b. filter is_write new = [INSERT a i, UPDATE b a]))"
    by (simp add: addAccount_converted[OF cv])
next
  assume "isl (converted req_body)"
  then obtain err where "converted req_body = Inl err" by (cases "converted req_body") auto
  from addAccount_rejects[OF this] show "snd (addAccount req_body d) = d" by simp
next
  from converted_or_not[of "items_of bulk_body"]
  show "\<exists>suf. accounts (snd (addAccountsBulk bulk_body e)) = accounts e @ suf \<and>
      list_all (\<lambda>r. of_int4 (id_col r) \<in> fst ` set (numbers (items_of bulk_body))) suf"
  proof
    assume "list_ex (\<lambda>item. isl (converted item)) (items_of bulk_body)"
    from addAccountsBulk_unconverted[OF this, of e] show ?thesis
      by (intro exI[of _ "[]"]) simp
  next
    assume "\<exists>pairs. map converted (items_of bulk_body) = map Inr pairs"
    then obtain pairs where p: "map converted (items_of bulk_body) = map Inr pairs" by blast
    from earlier_records_unchanged_num[of a i d pairs e, THEN conjunct2] show ?thesis
      by (simp add: addAccountsBulk_converted[OF p] numbers_converted[OF p])
  qed
next
  assume b: "addAccountsBulk bulk_body e = (Response 200 (ResultsBody cs), e')"
  from addAccountsBulk_200_converted[OF b] obtain pairs where
    p: "map converted (items_of bulk_body) = map Inr pairs" by blast
  from b have "addAccountsBulk_num pairs e = (Response 200 (ResultsBody cs), e')"
    by (simp add: addAccountsBulk_converted[OF p])
  from addAccountsBulk_num_issued[OF this]
  show "\<exists>new. issued e' = issued e @ new \<and> filter is_write new = concat (map writes_of cs)" .
qed

text \<open>
  Account 3 alone, and accounts 3 and 4 as a batch, on a ledger of two accounts: the
  two accounts are the first two rows afterwards, and the batch has sent two writes for
  each of its accounts. A request whose \<open>account_id\<close> cannot be converted leaves the
  store as it was.
\<close>

theorem C9_witness:
  "take 2 (accounts (snd (addAccount (request 3 1) ledger2))) = accounts ledger2 \<and>
   accounts (snd (addAccount (request 3 1) ledger2)) =
     accounts ledger2 @ [\<lparr>id_col = 3, introducer_id = Some 1, beneficiary_id = None\<rparr>] \<and>
   take 2 (accounts (snd (addAccountsBulk (JArray [request 3 1, request 4 1])
                            ledger2))) =
     accounts ledger2 \<and>
   addAccountsBulk (JArray [request 3 1, request 4 1]) ledger2 =
     (Response 200 (ResultsBody [Created (Fin 3) (Fin 1) None,
                                 Created (Fin 4) (Fin 1) (Some (Fin 1))]),
      \<lparr>accounts =
         accounts ledger2 @ [\<lparr>id_col = 3, introducer_id = Some 1, beneficiary_id = None\<rparr>,
                             \<lparr>id_col = 4, introducer_id = Some 1, beneficiary_id = Some 1\<rparr>],
       issued =
         [BEGIN, INSERT (Fin 3) (Fin 1), SELECT_COUNT (Fin 1), SELECT_introducer_id (Fin 1),
          SELECT_beneficiary_id (Fin 0), UPDATE None (Fin 3),
          INSERT (Fin 4) (Fin 1), SELECT_COUNT (Fin 1), UPDATE (Some (Fin 1)) (Fin 4),
          COMMIT]\<rparr>) \<and>
   (\<exists>new. issued (snd (addAccountsBulk (JArray [request 3 1, request 4 1]) ledger2)) =
      issued ledger2 @ new \<and>
      filter is_write new =
        [INSERT (Fin 3) (Fin 1), UPDATE None (Fin 3),
         INSERT (Fin 4) (Fin 1), UPDATE (Some (Fin 1)) (Fin 4)]) \<and>
   snd (addAccount
          (JObject [(''account_id'', JObject [(''toString'', JNull)]),
                    (''introducer_id'', JNumber (Fin 1))]) ledger2) = ledger2"
proof -
  let ?batch = "JArray [request 3 1, request 4 1]"
  let ?thrower = "JObject [(''account_id'', JObject [(''toString'', JNull)]),
                    (''introducer_id'', JNumber (Fin 1))]"
  have len: "length (accounts ledger2) = 2" by (simp add: ledger2_def)
  have cv: "converted (request 3 1) = Inr (Fin 3, Fin 1)" by code_simp
  note frame = C9_earlier_records_unchanged[of "request 3 1" "Fin 3" "Fin 1" ledger2 ?batch ledger2]
  from frame[THEN conjunct1] cv obtain s1 where
    "accounts (snd (addAccount (request 3 1) ledger2)) = accounts ledger2 @ s1"
    by blast
  with len have t1:
    "take 2 (accounts (snd (addAccount (request 3 1) ledger2))) = accounts ledger2"
    by simp
  from frame[THEN conjunct2, THEN conjunct2, THEN conjunct1] obtain s2 where
    "accounts (snd (addAccountsBulk ?batch ledger2)) = accounts ledger2 @ s2"
    by blast
  with len have t2:
    "take 2 (accounts (snd (addAccountsBulk ?batch ledger2))) = accounts ledger2"
    by simp
  have e1: "accounts (snd (addAccount (request 3 1) ledger2)) =
     accounts ledger2 @ [\<lparr>id_col = 3, introducer_id = Some 1, beneficiary_id = None\<rparr>]"
    by code_simp
  have e2: "addAccountsBulk ?batch ledger2 =
     (Response 200 (ResultsBody [Created (Fin 3) (Fin 1) None,
                                 Created (Fin 4) (Fin 1) (Some (Fin 1))]),
      \<lparr>accounts =
         accounts ledger2 @ [\<lparr>id_col = 3, introducer_id = Some 1, beneficiary_id = None\<rparr>,
                             \<lparr>id_col = 4, introducer_id = Some 1, beneficiary_id = Some 1\<rparr>],
       issued =
         [BEGIN, INSERT (Fin 3) (Fin 1), SELECT_COUNT (Fin 1), SELECT_introducer_id (Fin 1),
          SELECT_beneficiary_id (Fin 0), UPDATE None (Fin 3),
          INSERT (Fin 4) (Fin 1), SELECT_COUNT (Fin 1), UPDATE (Some (Fin 1)) (Fin 4),
          COMMIT]\<rparr>)"
    by code_simp
  from C9_earlier_records_unchanged[where bulk_body = ?batch and e = ledger2,
      THEN conjunct2, THEN conjunct2, THEN conjunct2] e2
  have "\<exists>new. issued (snd (addAccountsBulk ?batch ledger2)) = issued ledger2 @ new \<and>
      filter is_write new =
        concat (map writes_of [Created (Fin 3) (Fin 1) None,
                               Created (Fin 4) (Fin 1) (Some (Fin 1))])"
    by (metis snd_conv)
  then have w: "\<exists>new. issued (snd (addAccountsBulk ?batch ledger2)) = issued ledger2 @ new \<and>
      filter is_write new =
        [INSERT (Fin 3) (Fin 1), UPDATE None (Fin 3),
         INSERT (Fin 4) (Fin 1), UPDATE (Some (Fin 1)) (Fin 4)]"
    by simp
  have th: "isl (converted ?thrower)" by code_simp
  from C9_earlier_records_unchanged[where req_body = ?thrower and d = ledger2,
      THEN conjunct2, THEN conjunct1] th
  have u: "snd (addAccount ?thrower ledger2) = ledger2" by blast
  show ?thesis by (intro conjI) (fact t1, fact e1, fact t2, fact e2, fact w, fact u)
qed

text \<open>
  Claim C10. The validation looks at \<open>Number(v)\<close>, not at the type of \<open>v\<close>. A
  number converts to itself, \<open>null\<close> to 0, a boolean to 0 or 1, a string of decimal
  digits to the number it denotes, and an absent field to \<open>NaN\<close>. The single-item
  handler answers with status 400 exactly when the two conversions return and one of
  the results is not finite. A request whose two fields are each a finite number, a
  boolean, \<open>null\<close> or a string of one to fifteen decimal digits passes the validation:
  it is answered with status 200, 409 or 500. A request whose \<open>introducer_id\<close> is
  \<open>null\<close>, when it is answered with status 200, has created an account whose
  \<open>introducer_id\<close> is 0, in the response and in the row; and it is answered with
  status 200 whenever its \<open>account_id\<close> converts to an integer of 32 bits that no
  record has, on a table within the range of its columns. A batch whose items all
  convert to finite numbers is never answered with the error of the item validation.
\<close>

theorem C10_validation_by_coercion:
  "(plain_value v \<longrightarrow> (\<exists>q. Number v = Inr (Fin q))) \<and>
   Number (JNumber n) = Inr n \<and>
   Number JNull = Inr (Fin 0) \<and>
   Number (JBool b) = Inr (Fin (if b then 1 else 0)) \<and>
   (decimal_digits s \<longrightarrow> Number (JString s) = Inr (Fin (of_int (digits_value 10 s)))) \<and>
   Number JUndefined = Inr NaN \<and>
   (status (fst (addAccount req_body d)) = Some 400 \<longleftrightarrow>
      (case converted req_body of Inl err \<Rightarrow> False | Inr p \<Rightarrow> \<not> valid_item p)) \<and>
   (plain_value (field req_body ''account_id'') \<and>
    plain_value (field req_body ''introducer_id'') \<longrightarrow>
      accepted req_body \<and>
      status (fst (addAccount req_body d)) \<in> {Some 200, Some 409, Some 500}) \<and>
   (field req_body ''introducer_id'' = JNull \<and>
    addAccount req_body d = (Response 200 (AccountBody cr), d') \<longrightarrow>
      created_introducer cr = Fin 0 \<and>
      (\<exists>x v. accounts d' =
         accounts d @ [\<lparr>id_col = x, introducer_id = Some 0, beneficiary_id = v\<rparr>])) \<and>
   (field req_body ''introducer_id'' = JNull \<and>
    Number (field req_body ''account_id'') = Inr a \<and> int4_in a = Inr x \<and>
    x \<notin> set (map id_col (accounts d)) \<and> int4_ledger (accounts d) \<longrightarrow>
      (\<exists>cr d'. addAccount req_body d = (Response 200 (AccountBody cr), d'))) \<and>
   (list_all accepted (items_of bulk_body) \<longrightarrow>
      fst (addAccountsBulk bulk_body d) \<noteq>
        Response 500
          (ErrorBody [Str ''Invalid item: account_id and introducer_id must be numbers'']))"
proof (intro conjI)
  show "plain_value v \<longrightarrow> (\<exists>q. Number v = Inr (Fin q))"
    by (simp add: plain_value_finite)
  show "decimal_digits s \<longrightarrow> Number (JString s) = Inr (Fin (of_int (digits_value 10 s)))"
    by (simp add: StringToNumber_digits)
  show "status (fst (addAccount req_body d)) = Some 400 \<longleftrightarrow>
      (case converted req_body of Inl err \<Rightarrow> False | Inr p \<Rightarrow> \<not> valid_item p)"
  proof (cases "converted req_body")
    case (Inl err)
    with addAccount_rejects[OF Inl, of d] show ?thesis by simp
  next
    case (Inr p)
    obtain a' i' where p: "p = (a', i')" by (cases p)
    from addAccount_num_status[of a' i' d, THEN conjunct1] Inr p show ?thesis
      by (simp add: addAccount_converted)
  qed
  show "plain_value (field req_body ''account_id'') \<and>
    plain_value (field req_body ''introducer_id'') \<longrightarrow>
      accepted req_body \<and>
      status (fst (addAccount req_body d)) \<in> {Some 200, Some 409, Some 500}"
  proof (rule impI)
    assume "plain_value (field req_body ''account_id'') \<and>
      plain_value (field req_body ''introducer_id'')"
    then have acc: "accepted req_body" by (simp add: plain_fields_accepted)
    then obtain a' i' where cv: "converted req_body = Inr (a', i')" and v: "valid_item (a', i')"
      by (auto simp: accepted_def split: sum.splits)
    from addAccount_num_status[of a' i' d, THEN conjunct2] v
    have "status (fst (addAccount req_body d)) \<in> {Some 200, Some 409, Some 500}"
      by (simp add: addAccount_converted[OF cv])
    with acc show "accepted req_body \<and>
        status (fst (addAccount req_body d)) \<in> {Some 200, Some 409, Some 500}"
      by simp
  qed
  show "field req_body ''introducer_id'' = JNull \<and>
    addAccount req_body d = (Response 200 (AccountBody cr), d') \<longrightarrow>
      created_introducer cr = Fin 0 \<and>
      (\<exists>x v. accounts d' =
         accounts d @ [\<lparr>id_col = x, introducer_id = Some 0, beneficiary_id = v\<rparr>])"
  proof (rule impI)
    assume h: "field req_body ''introducer_id'' = JNull \<and>
      addAccount req_body d = (Response 200 (AccountBody cr), d')"
    then have n: "field req_body ''introducer_id'' = JNull"
      and s: "addAccount req_body d = (Response 200 (AccountBody cr), d')"
      by simp_all
    from s have "fst (addAccount req_body d) = Response 200 (AccountBody cr)" by simp
    from addAccount_response_converted[OF this] obtain a' i' where
      cv: "converted req_body = Inr (a', i')" by blast
    with n have i': "i' = Fin 0" by (simp add: converted_Inr)
    from s have "addAccount_num a' (Fin 0) d = (Response 200 (AccountBody cr), d')"
      by (simp add: addAccount_converted[OF cv] i')
    from addAccount_num_200[OF this]
    have "addAccount_try a' (Fin 0) d = (Inr cr, d')"
      by simp
    from addAccount_try_Inr[OF this] obtain x y where
      xy: "int4_in (Fin 0) = Inr y"
        "cr = Created a' (Fin 0)
           (map_option of_int4 (assign y (accounts d @ [provisional x y])))"
        "accounts d' = accounts d @ [\<lparr>id_col = x, introducer_id = Some y,
                beneficiary_id = assign y (accounts d @ [provisional x y])\<rparr>]"
      by blast
    from xy(1) have "y = 0" by (simp add: int4_in_def)
    with xy show "created_introducer cr = Fin 0 \<and>
        (\<exists>x v. accounts d' =
           accounts d @ [\<lparr>id_col = x, introducer_id = Some 0, beneficiary_id = v\<rparr>])"
      by auto
  qed
  show "field req_body ''introducer_id'' = JNull \<and>
    Number (field req_body ''account_id'') = Inr a \<and> int4_in a = Inr x \<and>
    x \<notin> set (map id_col (accounts d)) \<and> int4_ledger (accounts d) \<longrightarrow>
      (\<exists>cr d'. addAccount req_body d = (Response 200 (AccountBody cr), d'))"
  proof (rule impI)
    assume h: "field req_body ''introducer_id'' = JNull \<and>
      Number (field req_body ''account_id'') = Inr a \<and> int4_in a = Inr x \<and>
      x \<notin> set (map id_col (accounts d)) \<and> int4_ledger (accounts d)"
    then have cv: "converted req_body = Inr (a, Fin 0)" by (simp add: converted_Inr)
    have z: "int4_in (Fin 0) = Inr 0" by (simp add: int4_in_def)
    from h addAccount_num_succeeds[of d a x "Fin 0" 0] z
    show "\<exists>cr d'. addAccount req_body d = (Response 200 (AccountBody cr), d')"
      by (simp add: addAccount_converted[OF cv])
  qed
  show "list_all accepted (items_of bulk_body) \<longrightarrow>
      fst (addAccountsBulk bulk_body d) \<noteq>
        Response 500
          (ErrorBody [Str ''Invalid item: account_id and introducer_id must be numbers''])"
  proof (rule impI)
    assume acc: "list_all accepted (items_of bulk_body)"
    then have "\<not> list_ex (\<lambda>item. isl (converted item)) (items_of bulk_body)"
      by (auto simp: list_all_iff list_ex_iff accepted_def isl_def split: sum.splits)
    with converted_or_not[of "items_of bulk_body"] obtain pairs where
      p: "map converted (items_of bulk_body) = map Inr pairs" by blast
    from acc have "list_all valid_item pairs" by (simp add: accepted_pairs[OF p])
    from valid_items_no_validation_error[OF this]
    show "fst (addAccountsBulk bulk_body d) \<noteq>
          Response 500
            (ErrorBody [Str ''Invalid item: account_id and introducer_id must be numbers''])"
      by (simp add: addAccountsBulk_converted[OF p])
  qed
qed simp_all

text \<open>
  The text \<open>7\<close> as \<open>account_id\<close> with \<open>null\<close> as \<open>introducer_id\<close> creates
  account 7 introduced by 0, also beside accounts 1 and 2; two numbers pass, and so do
  the text \<open>7\<close> with \<open>true\<close>; the text \<open>12345\<close> converts to the number 12345;
  \<open>true\<close> with a word is refused; a batch of \<open>true\<close> with \<open>null\<close> and of the
  text \<open>7\<close> with \<open>true\<close> creates accounts 1 and 7.
\<close>

theorem C10_witness:
  "addAccount (JObject [(''account_id'', JString ''7''), (''introducer_id'', JNull)]) empty_db =
     (Response 200 (AccountBody (Created (Fin 7) (Fin 0) (Some (Fin 0)))),
      \<lparr>accounts = [\<lparr>id_col = 7, introducer_id = Some 0, beneficiary_id = Some 0\<rparr>],
       issued = [INSERT (Fin 7) (Fin 0), SELECT_COUNT (Fin 0), UPDATE (Some (Fin 0)) (Fin 7)]\<rparr>) \<and>
   created_introducer (Created (Fin 7) (Fin 0) (Some (Fin 0))) = Fin 0 \<and>
   (\<exists>cr d'. addAccount
      (JObject [(''account_id'', JString ''7''), (''introducer_id'', JNull)]) ledger2 =
      (Response 200 (AccountBody cr), d')) \<and>
   status (fst (addAccount (request 3 1) ledger2)) = Some 200 \<and>
   accepted (request 3 1) \<and>
   accepted (JObject [(''account_id'', JString ''7''), (''introducer_id'', JBool True)]) \<and>
   Number (JString ''12345'') = Inr (Fin 12345) \<and>
   (\<exists>q. Number (JBool True) = Inr (Fin q)) \<and>
   fst (addAccountsBulk
     (JArray [JObject [(''account_id'', JBool True), (''introducer_id'', JNull)],
              JObject [(''account_id'', JString ''7''), (''introducer_id'', JBool True)]])
     ledger2) \<noteq>
     Response 500
       (ErrorBody [Str ''Invalid item: account_id and introducer_id must be numbers'']) \<and>
   status (fst (addAccount
     (JObject [(''account_id'', JBool True), (''introducer_id'', JString ''seven'')]) empty_db)) =
     Some 400 \<and>
   fst (addAccountsBulk
     (JArray [JObject [(''account_id'', JBool True), (''introducer_id'', JNull)],
              JObject [(''account_id'', JString ''7''), (''introducer_id'', JBool True)]])
     empty_db) =
     Response 200 (ResultsBody [Created (Fin 1) (Fin 0) (Some (Fin 0)),
                                Created (Fin 7) (Fin 1) (Some (Fin 1))])"
proof -
  let ?body = "JObject [(''account_id'', JString ''7''), (''introducer_id'', JNull)]"
  let ?bool = "JObject [(''account_id'', JString ''7''), (''introducer_id'', JBool True)]"
  let ?bad = "JObject [(''account_id'', JBool True), (''introducer_id'', JString ''seven'')]"
  let ?cr = "Created (Fin 7) (Fin 0) (Some (Fin 0))"
  let ?d' = "\<lparr>accounts = [\<lparr>id_col = 7, introducer_id = Some 0, beneficiary_id = Some 0\<rparr>],
       issued = [INSERT (Fin 7) (Fin 0), SELECT_COUNT (Fin 0), UPDATE (Some (Fin 0)) (Fin 7)]\<rparr>"
  have n: "field ?body ''introducer_id'' = JNull" by simp
  have s: "addAccount ?body empty_db = (Response 200 (AccountBody ?cr), ?d')"
    by code_simp
  have bad: "converted ?bad = Inr (Fin 1, NaN)" by code_simp
  have bulk: "fst (addAccountsBulk
     (JArray [JObject [(''account_id'', JBool True), (''introducer_id'', JNull)],
              JObject [(''account_id'', JString ''7''), (''introducer_id'', JBool True)]])
     empty_db) =
     Response 200 (ResultsBody [Created (Fin 1) (Fin 0) (Some (Fin 0)),
                                Created (Fin 7) (Fin 1) (Some (Fin 1))])"
    by code_simp
  from C10_validation_by_coercion[where req_body = ?body and d = empty_db and cr = ?cr
      and d' = ?d'] n s
  have r1: "created_introducer ?cr = Fin 0" by blast
  from C10_validation_by_coercion[where req_body = ?bad and d = empty_db] bad
  have r2: "status (fst (addAccount ?bad empty_db)) = Some 400"
    by (simp add: valid_item_def)
  have n7: "Number (field ?body ''account_id'') = Inr (Fin 7)" by code_simp
  have i7: "int4_in (Fin 7) = Inr 7" by code_simp
  have f7: "7 \<notin> set (map id_col (accounts ledger2))" by (simp add: ledger2_def)
  have wf: "int4_ledger (accounts ledger2)"
    by (simp add: ledger2_def int4_ledger_def int4_def)
  from C10_validation_by_coercion[where req_body = ?body and d = ledger2 and a = "Fin 7"
      and x = 7] n n7 i7 f7 wf
  have r3: "\<exists>cr d'. addAccount ?body ledger2 = (Response 200 (AccountBody cr), d')"
    by blast
  have p31: "plain_value (field (request 3 1) ''account_id'') \<and>
      plain_value (field (request 3 1) ''introducer_id'')"
    by (simp add: request_def)
  from C10_validation_by_coercion[where req_body = "request 3 1" and d = ledger2] p31
  have r4: "accepted (request 3 1)" by blast
  have r4': "status (fst (addAccount (request 3 1) ledger2)) = Some 200" by code_simp
  have pb: "plain_value (field ?bool ''account_id'') \<and> plain_value (field ?bool ''introducer_id'')"
    by code_simp
  from C10_validation_by_coercion[where req_body = ?bool and d = empty_db] pb
  have r5: "accepted ?bool" by blast
  have dd: "decimal_digits ''12345''" by code_simp
  have dv: "digits_value 10 ''12345'' = 12345" by code_simp
  from C10_validation_by_coercion[where s = "''12345''"] dd
  have "Number (JString ''12345'') = Inr (Fin (of_int (digits_value 10 ''12345'')))" by blast
  then have r6: "Number (JString ''12345'') = Inr (Fin 12345)" by (simp only: dv of_int_numeral)
  have pv: "plain_value (JBool True)" by simp
  from C10_validation_by_coercion[where v = "JBool True"] pv
  have r7: "\<exists>q. Number (JBool True) = Inr (Fin q)" by blast
  let ?batch = "JArray [JObject [(''account_id'', JBool True), (''introducer_id'', JNull)],
              JObject [(''account_id'', JString ''7''), (''introducer_id'', JBool True)]]"
  have la: "list_all accepted (items_of ?batch)" by code_simp
  from C10_validation_by_coercion[where bulk_body = ?batch and d = ledger2] la
  have r8: "fst (addAccountsBulk ?batch ledger2) \<noteq>
     Response 500
       (ErrorBody [Str ''Invalid item: account_id and introducer_id must be numbers''])"
    by blast
  show ?thesis
    by (intro conjI) (fact s, fact r1, fact r3, fact r4', fact r4, fact r5, fact r6, fact r7,
        fact r8, fact r2, fact bulk)
qed

end
